(* ===== verification/Prelude.thy ===== *)
theory Prelude
  imports Main "HOL-Library.Word"
begin

text \<open>
  Shared vocabulary of the development: the fixed-width integers of Go, Go strings and byte
  slices (both are \<^typ>\<open>string\<close>: a \<^typ>\<open>char\<close> is one byte), the functions of the Go
  standard library the gateway calls (\<^verbatim>\<open>strings\<close>, \<^verbatim>\<open>strconv\<close>, \<^verbatim>\<open>encoding/hex\<close>,
  \<^verbatim>\<open>errors\<close>) and the generic lemmas the component theories use.

  Case mapping is the ASCII part of \<^verbatim>\<open>strings.ToLower\<close>, \<^verbatim>\<open>strings.ToUpper\<close> and
  \<^verbatim>\<open>strings.EqualFold\<close>: bytes outside A-Z and a-z are left alone. The constants the code
  compares with are ASCII. A hexadecimal or decimal text is a list of bytes.
\<close>

named_theorems go_defs \<open>definitions of the Go standard library functions\<close>
named_theorems codec_simps \<open>round trips of the encoders and decoders\<close>
named_theorems table_simps \<open>facts on the rows of the SQL tables\<close>

section \<open>Machine integers\<close>

type_synonym uint8 = "8 word"
type_synonym uint16 = "16 word"
type_synonym uint64 = "64 word"

text \<open>
  A Go \<^verbatim>\<open>int64\<close> is an \<^typ>\<open>int\<close>; \<open>int64\<close> is the two's complement wrap-around that a
  conversion or an overflowing operation applies.
\<close>

definition int64 :: "int \<Rightarrow> int" where
  "int64 x = (x + 2 ^ 63) mod 2 ^ 64 - 2 ^ 63"

definition int64_range :: "int \<Rightarrow> bool" where
  "int64_range x \<longleftrightarrow> - (2 ^ 63) \<le> x \<and> x < 2 ^ 63"

lemma int64_id: "int64_range x \<Longrightarrow> int64 x = x"
  by (simp add: int64_def int64_range_def)

lemma int64_range_int64: "int64_range (int64 x)"
  using pos_mod_bound [of "2 ^ 64" "x + 2 ^ 63"] pos_mod_sign [of "2 ^ 64" "x + 2 ^ 63"]
  by (simp add: int64_def int64_range_def)

lemma int64_eq_iff: "int64 x = int64 y \<longleftrightarrow> x mod 2 ^ 64 = y mod 2 ^ 64"
proof -
  have "(x + 2 ^ 63) mod 2 ^ 64 = (y + 2 ^ 63) mod 2 ^ 64 \<longleftrightarrow> x mod 2 ^ 64 = y mod 2 ^ 64"
    by (simp add: mod_eq_dvd_iff)
  then show ?thesis by (simp add: int64_def)
qed

lemma sint_of_int64: "int64_range x \<Longrightarrow> sint (word_of_int x :: uint64) = x"
  by (simp add: int64_range_def signed_of_int signed_take_bit_int_eq_self)

lemma unat_uint8_less [simp]: "unat (w :: uint8) < 256"
  using unsigned_less [of w, where ?'a = nat] by simp

lemma unat_uint64_less [simp]: "unat (w :: uint64) < 18446744073709551616"
  using unsigned_less [of w, where ?'a = nat] by simp

section \<open>Errors\<close>

text \<open>
  A Go error is a sentinel variable, a fresh message, a sentinel or error wrapped by
  \<^verbatim>\<open>fmt.Errorf("...: %w")\<close>, or a \<^verbatim>\<open>*stripe.ProviderError\<close>, which unwraps too. The
  message keeps its fixed text; the formatted arguments are left out.
\<close>

datatype sentinel =
    ErrInvalidOrderID
  | ErrUnknownShard
  | ErrNotFound
  | ErrDuplicateTransaction
  | ErrMerchantNotFound
  | ErrOnchainTxNotFound
  | ErrInvalidRequest
  | ErrUnsupportedMethod
  | ErrTransactionConflict
  | ErrWebhookDuplicate
  | ErrWebhookOrderMissing
  | ErrOrderNotFound
  | ErrOrderNotReady
  | ErrUnavailable
  | ErrLockNotAcquired
  | ErrRateLimited
  | ErrCircuitOpen
  | ErrOpenState
  | ErrTooManyRequests
  | ErrSignatureMissing
  | ErrSignatureFormat
  | ErrSignatureMismatch
  | ErrSignatureExpired
  | ErrMalformed
  | ErrExpired
  | ErrSignature
  | ErrUnexpectedLog
  | Canceled
  | DeadlineExceeded
  | RedisNil

datatype goerr =
    Sentinel sentinel
  | ErrNew string
  | Wrapf string goerr
  | ProviderError string string goerr

type_synonym 'a result = "goerr + 'a"

text \<open>\<^verbatim>\<open>errors.Is\<close> follows the chain of wrapped errors.\<close>

fun errors_Is :: "goerr \<Rightarrow> sentinel \<Rightarrow> bool" where
  "errors_Is (Sentinel s) t = (s = t)"
| "errors_Is (ErrNew m) t = False"
| "errors_Is (Wrapf m e) t = errors_Is e t"
| "errors_Is (ProviderError op cat e) t = errors_Is e t"

text \<open>\<^verbatim>\<open>errors.As(err, &pe)\<close> for a \<^verbatim>\<open>*ProviderError\<close>: the category of the first one found.\<close>

fun errors_As_provider :: "goerr \<Rightarrow> string option" where
  "errors_As_provider (Sentinel s) = None"
| "errors_As_provider (ErrNew m) = None"
| "errors_As_provider (Wrapf m e) = errors_As_provider e"
| "errors_As_provider (ProviderError op cat e) = Some cat"

section \<open>strings\<close>

abbreviation ord :: "char \<Rightarrow> nat" where
  "ord c \<equiv> of_char c"

definition lower_char :: "char \<Rightarrow> char" where
  [go_defs]: "lower_char c = (if 65 \<le> ord c \<and> ord c \<le> 90 then char_of (ord c + 32) else c)"

definition upper_char :: "char \<Rightarrow> char" where
  [go_defs]: "upper_char c = (if 97 \<le> ord c \<and> ord c \<le> 122 then char_of (ord c - 32) else c)"

definition ToLower :: "string \<Rightarrow> string" where
  [go_defs]: "ToLower s = map lower_char s"

definition ToUpper :: "string \<Rightarrow> string" where
  [go_defs]: "ToUpper s = map upper_char s"

definition EqualFold :: "string \<Rightarrow> string \<Rightarrow> bool" where
  [go_defs]: "EqualFold s t \<longleftrightarrow> ToLower s = ToLower t"

fun HasPrefix :: "string \<Rightarrow> string \<Rightarrow> bool" where
  "HasPrefix s [] = True"
| "HasPrefix [] (p # ps) = False"
| "HasPrefix (c # s) (p # ps) = (c = p \<and> HasPrefix s ps)"

fun Contains :: "string \<Rightarrow> string \<Rightarrow> bool" where
  "Contains [] sub = (sub = [])"
| "Contains (c # s) sub = (HasPrefix (c # s) sub \<or> Contains s sub)"

text \<open>\<^verbatim>\<open>strings.Split\<close> on a one-byte separator, and \<^verbatim>\<open>strings.SplitN(s, sep, 2)\<close>, which has
  two parts exactly if the separator occurs.\<close>

fun Split :: "string \<Rightarrow> char \<Rightarrow> string list" where
  "Split [] sep = [[]]"
| "Split (c # s) sep =
     (if c = sep then [] # Split s sep
      else case Split s sep of [] \<Rightarrow> [[c]] | p # ps \<Rightarrow> (c # p) # ps)"

fun SplitN2 :: "string \<Rightarrow> char \<Rightarrow> (string \<times> string) option" where
  "SplitN2 [] sep = None"
| "SplitN2 (c # s) sep =
     (if c = sep then Some ([], s)
      else map_option (\<lambda>(a, b). (c # a, b)) (SplitN2 s sep))"

definition is_space :: "char \<Rightarrow> bool" where
  [go_defs]: "is_space c \<longleftrightarrow> ord c = 32 \<or> (9 \<le> ord c \<and> ord c \<le> 13)"

definition TrimSpace :: "string \<Rightarrow> string" where
  [go_defs]: "TrimSpace s = rev (dropWhile is_space (rev (dropWhile is_space s)))"

lemma HasPrefix_iff: "HasPrefix s p \<longleftrightarrow> (\<exists>t. s = p @ t)"
  by (induction s p rule: HasPrefix.induct) auto

lemma HasPrefix_append [simp]: "HasPrefix (p @ t) p"
  by (simp add: HasPrefix_iff)

lemma Contains_iff: "Contains s sub \<longleftrightarrow> (\<exists>a b. s = a @ sub @ b)"
proof (induction s)
  case (Cons c s)
  have "(\<exists>a b. c # s = a @ sub @ b) \<longleftrightarrow> (\<exists>b. c # s = sub @ b) \<or> (\<exists>a b. s = a @ sub @ b)"
    (is "?L \<longleftrightarrow> ?R")
  proof
    assume ?L
    then obtain a b where ab: "c # s = a @ sub @ b" by blast
    show ?R
    proof (cases a)
      case Nil
      with ab show ?thesis by auto
    next
      case (Cons x a')
      with ab show ?thesis by auto
    qed
  next
    assume ?R
    then show ?L by (metis append_Cons append_Nil)
  qed
  with Cons show ?case by (auto simp: HasPrefix_iff)
qed auto

lemma SplitN2_append: "sep \<notin> set a \<Longrightarrow> SplitN2 (a @ sep # b) sep = Some (a, b)"
  by (induction a) auto

lemma SplitN2_SomeD: "SplitN2 s sep = Some (a, b) \<Longrightarrow> s = a @ sep # b \<and> sep \<notin> set a"
  by (induction s arbitrary: a) (auto split: if_splits)

lemma SplitN2_None_iff: "SplitN2 s sep = None \<longleftrightarrow> sep \<notin> set s"
  by (induction s) auto

lemma Split_no_sep: "p \<in> set (Split s sep) \<Longrightarrow> sep \<notin> set p"
  by (induction s arbitrary: p) (auto split: if_splits list.splits)

lemma Split_nonempty: "Split s sep \<noteq> []"
  by (induction s) (auto split: list.splits)

lemma Split_append: "sep \<notin> set a \<Longrightarrow> Split (a @ sep # b) sep = a # Split b sep"
  by (induction a) (auto split: list.splits)

lemma Split_no_occ: "sep \<notin> set s \<Longrightarrow> Split s sep = [s]"
  by (induction s) auto

lemma TrimSpace_id:
  assumes "s \<noteq> []" and "\<not> is_space (hd s)" and "\<not> is_space (last s)"
  shows "TrimSpace s = s"
proof -
  have "dropWhile is_space s = s"
    using assms by (cases s) auto
  moreover have "dropWhile is_space (rev s) = rev s"
    using assms by (simp add: dropWhile_eq_self_iff hd_rev)
  ultimately show ?thesis
    by (simp add: TrimSpace_def)
qed

lemma ord_less_256 [simp]: "ord c < 256"
  by (rule nat_of_char_less_256)

lemma ord_char_of [simp]: "n < 256 \<Longrightarrow> ord (char_of n) = n"
  by simp

lemma ord_diff_less [simp]: "ord c - n < 256"
  using ord_less_256 [of c] by linarith

lemma char_eq_ord: "c = d \<longleftrightarrow> ord c = ord d"
  by simp

lemma upper_lower [simp]: "upper_char (lower_char c) = upper_char c"
  by (simp add: go_defs)

lemma lower_lower [simp]: "lower_char (lower_char c) = lower_char c"
  by (simp add: go_defs)

lemma upper_upper [simp]: "upper_char (upper_char c) = upper_char c"
  by (auto simp: go_defs)

lemma lower_upper [simp]: "lower_char (upper_char c) = lower_char c"
  by (auto simp: go_defs)

lemma ToUpper_idem [simp]: "ToUpper (ToUpper s) = ToUpper s"
  by (simp add: ToUpper_def)

lemma ToLower_idem [simp]: "ToLower (ToLower s) = ToLower s"
  by (simp add: ToLower_def)

lemma ToUpper_ToLower [simp]: "ToUpper (ToLower s) = ToUpper s"
  by (simp add: ToUpper_def ToLower_def)

lemma ToLower_ToUpper [simp]: "ToLower (ToUpper s) = ToLower s"
  by (simp add: ToUpper_def ToLower_def)

lemma EqualFold_refl [simp]: "EqualFold s s"
  by (simp add: EqualFold_def)

lemma length_ToUpper [simp]: "length (ToUpper s) = length s"
  by (simp add: ToUpper_def)

lemma length_ToLower [simp]: "length (ToLower s) = length s"
  by (simp add: ToLower_def)

section \<open>encoding/hex\<close>

definition hex_char :: "nat \<Rightarrow> char" where
  "hex_char n = char_of (if n < 10 then 48 + n else 87 + n)"

definition EncodeToString :: "string \<Rightarrow> string" where
  "EncodeToString b = concat (map (\<lambda>c. [hex_char (ord c div 16), hex_char (ord c mod 16)]) b)"

definition fromHexChar :: "char \<Rightarrow> nat option" where
  "fromHexChar c =
     (if 48 \<le> ord c \<and> ord c \<le> 57 then Some (ord c - 48)
      else if 97 \<le> ord c \<and> ord c \<le> 102 then Some (ord c - 87)
      else if 65 \<le> ord c \<and> ord c \<le> 70 then Some (ord c - 55)
      else None)"

fun DecodeString :: "string \<Rightarrow> string option" where
  "DecodeString [] = Some []"
| "DecodeString [c] = None"
| "DecodeString (c # d # s) =
     (case fromHexChar c of None \<Rightarrow> None
      | Some a \<Rightarrow> (case fromHexChar d of None \<Rightarrow> None
         | Some b \<Rightarrow> map_option (\<lambda>r. char_of (16 * a + b) # r) (DecodeString s)))"

lemma EncodeToString_Nil [simp]: "EncodeToString [] = []"
  by (simp add: EncodeToString_def)

lemma EncodeToString_Cons:
  "EncodeToString (c # b) = hex_char (ord c div 16) # hex_char (ord c mod 16) # EncodeToString b"
  by (simp add: EncodeToString_def)

lemma length_EncodeToString [simp]: "length (EncodeToString b) = 2 * length b"
  by (induction b) (simp_all add: EncodeToString_Cons)

lemma fromHexChar_hex_char: "n < 16 \<Longrightarrow> fromHexChar (hex_char n) = Some n"
  by (auto simp: fromHexChar_def hex_char_def)

lemma DecodeString_EncodeToString [codec_simps, simp]: "DecodeString (EncodeToString b) = Some b"
proof (induction b)
  case (Cons c b)
  have "ord c div 16 < 16"
    using ord_less_256 [of c] by linarith
  then show ?case
    using Cons by (simp add: EncodeToString_Cons fromHexChar_hex_char)
qed simp

lemma EncodeToString_inject: "EncodeToString a = EncodeToString b \<longleftrightarrow> a = b"
  by (metis DecodeString_EncodeToString option.inject)

lemma fromHexChar_lower:
  assumes "fromHexChar c = Some a"
  shows "a < 16" and "hex_char a = lower_char c"
  using assms by (auto simp: fromHexChar_def hex_char_def lower_char_def split: if_splits)

lemma EncodeToString_DecodeString: "DecodeString s = Some b \<Longrightarrow> EncodeToString b = ToLower s"
proof (induction s arbitrary: b rule: DecodeString.induct)
  case (3 c d s)
  then obtain x y r where
    x: "fromHexChar c = Some x" and y: "fromHexChar d = Some y"
    and r: "DecodeString s = Some r" and b: "b = char_of (16 * x + y) # r"
    by (auto split: option.splits)
  have "16 * x + y < 256"
    using fromHexChar_lower(1) [OF x] fromHexChar_lower(1) [OF y] by linarith
  then show ?case
    using "3.IH" [OF x y r] fromHexChar_lower [OF x] fromHexChar_lower [OF y] b
    by (simp add: EncodeToString_Cons ToLower_def)
qed (auto simp: ToLower_def)

lemma fromHexChar_lower_char: "fromHexChar (lower_char c) = fromHexChar c"
  by (auto simp: fromHexChar_def lower_char_def)

lemma DecodeString_ToLower: "DecodeString (ToLower s) = DecodeString s"
  by (induction s rule: DecodeString.induct) (auto simp: ToLower_def fromHexChar_lower_char split: option.split)

lemma DecodeString_eq_Some_iff: "DecodeString s = Some b \<longleftrightarrow> ToLower s = EncodeToString b"
  by (metis DecodeString_EncodeToString DecodeString_ToLower EncodeToString_DecodeString)

lemma ToLower_EncodeToString [simp]: "ToLower (EncodeToString b) = EncodeToString b"
  using EncodeToString_DecodeString [OF DecodeString_EncodeToString] by simp

lemma length_DecodeString: "DecodeString s = Some b \<Longrightarrow> length s = 2 * length b"
  by (metis EncodeToString_DecodeString length_EncodeToString length_ToLower)

section \<open>strconv\<close>

definition digit_char :: "nat \<Rightarrow> char" where
  "digit_char n = char_of (48 + n)"

fun FormatUint :: "nat \<Rightarrow> string" where
  "FormatUint n = (if n < 10 then [digit_char n] else FormatUint (n div 10) @ [digit_char (n mod 10)])"

declare FormatUint.simps [simp del]

definition FormatInt :: "int \<Rightarrow> string" where
  "FormatInt i = (if i < 0 then CHR ''-'' # FormatUint (nat (- i)) else FormatUint (nat i))"

definition is_digit :: "char \<Rightarrow> bool" where
  "is_digit c \<longleftrightarrow> 48 \<le> ord c \<and> ord c \<le> 57"

fun parse_digits :: "nat \<Rightarrow> string \<Rightarrow> nat option" where
  "parse_digits acc [] = Some acc"
| "parse_digits acc (c # s) = (if is_digit c then parse_digits (10 * acc + (ord c - 48)) s else None)"

definition ParseUint :: "string \<Rightarrow> nat option" where
  "ParseUint s = (if s = [] then None else parse_digits 0 s)"

text \<open>\<^verbatim>\<open>strconv.ParseInt(s, 10, 64)\<close>; a syntax error and a range error are both \<^const>\<open>None\<close>.\<close>

definition ParseInt :: "string \<Rightarrow> int option" where
  "ParseInt s =
     (let neg = HasPrefix s ''-'';
          body = (if HasPrefix s ''-'' \<or> HasPrefix s ''+'' then tl s else s)
      in case ParseUint body of None \<Rightarrow> None
         | Some n \<Rightarrow> (let i = (if neg then - int n else int n)
                      in if int64_range i then Some i else None))"

lemma ord_digit_char [simp]: "n < 10 \<Longrightarrow> ord (digit_char n) = 48 + n"
  by (simp add: digit_char_def)

lemma parse_digits_append:
  "parse_digits acc (s @ t) = (case parse_digits acc s of None \<Rightarrow> None | Some m \<Rightarrow> parse_digits m t)"
  by (induction s arbitrary: acc) auto

lemma parse_digits_FormatUint: "parse_digits 0 (FormatUint n) = Some n"
proof (induction n rule: FormatUint.induct)
  case (1 n)
  then show ?case
    by (cases "n < 10")
      (simp_all add: FormatUint.simps [of n] parse_digits_append is_digit_def)
qed

lemma FormatUint_digits: "c \<in> set (FormatUint n) \<Longrightarrow> is_digit c"
proof (induction n rule: FormatUint.induct)
  case (1 n)
  then show ?case
    by (cases "n < 10") (auto simp: FormatUint.simps [of n] is_digit_def)
qed

lemma FormatUint_nonempty [simp]: "FormatUint n \<noteq> []"
  by (subst FormatUint.simps) simp

lemma FormatUint_no_sign:
  "\<not> HasPrefix (FormatUint n) ''-''" "\<not> HasPrefix (FormatUint n) ''+''"
  using FormatUint_digits [of _ n] by (fastforce simp: HasPrefix_iff is_digit_def)+

lemma ParseInt_FormatInt [codec_simps, simp]:
  assumes "int64_range i"
  shows "ParseInt (FormatInt i) = Some i"
proof (cases "i < 0")
  case True
  with assms show ?thesis
    by (simp add: ParseInt_def FormatInt_def ParseUint_def parse_digits_FormatUint)
next
  case False
  with assms show ?thesis
    by (simp add: ParseInt_def FormatInt_def ParseUint_def parse_digits_FormatUint FormatUint_no_sign)
qed

lemma FormatInt_inject: "int64_range i \<Longrightarrow> int64_range j \<Longrightarrow> FormatInt i = FormatInt j \<longleftrightarrow> i = j"
  by (metis ParseInt_FormatInt option.inject)

lemma FormatInt_chars: "c \<in> set (FormatInt i) \<Longrightarrow> is_digit c \<or> c = CHR ''-''"
  by (auto simp: FormatInt_def split: if_splits dest: FormatUint_digits)

lemma ParseInt_range: "ParseInt s = Some i \<Longrightarrow> int64_range i"
  by (auto simp: ParseInt_def Let_def split: option.splits if_splits)

end
