(* ===== verification/Crypto.thy ===== *)
theory Crypto
  imports Prelude
begin

text \<open>
  The cryptography the gateway takes from the Go standard library (\<^verbatim>\<open>crypto/sha256\<close> as in
  FIPS 180-4, \<^verbatim>\<open>crypto/hmac\<close> as in RFC 2104), and the two packages of the repository built on
  it: \<^verbatim>\<open>pkg/hmac\<close> (request signatures) and \<^verbatim>\<open>pkg/checkouttoken\<close> (tokens of hosted-checkout
  URLs). The locale \<open>mac_scheme\<close> is what both packages promise: a value signed with a secret
  verifies with that secret.
\<close>

unbundle bit_operations_syntax

section \<open>SHA-256\<close>

type_synonym w32 = "32 word"
type_synonym sha_state = "w32 \<times> w32 \<times> w32 \<times> w32 \<times> w32 \<times> w32 \<times> w32 \<times> w32"

definition rotr32 :: "nat \<Rightarrow> w32 \<Rightarrow> w32" where
  "rotr32 n x = drop_bit n x OR push_bit (32 - n) x"

text \<open>
  The constants are those of FIPS 180-4: the first 32 bits of the fractional parts of the cube
  roots of the first 64 primes, and of the square roots of the first eight. \<open>root_bits k b acc n\<close>
  finds the lower \<open>b\<close> bits of the integer \<open>k\<close>-th root of \<open>n\<close>, from the top.
\<close>

definition first_primes :: "nat list" where
  "first_primes = filter (\<lambda>p. list_all (\<lambda>d. p mod d \<noteq> 0) [2..<p]) [2..<312]"

fun root_bits :: "nat \<Rightarrow> nat \<Rightarrow> nat \<Rightarrow> nat \<Rightarrow> nat" where
  "root_bits k 0 acc n = acc"
| "root_bits k (Suc b) acc n = root_bits k b (if (acc + 2 ^ b) ^ k \<le> n then acc + 2 ^ b else acc) n"

definition sha_K :: "w32 list" where
  "sha_K = map (\<lambda>p. of_nat (root_bits 3 35 0 (p * 2 ^ 96))) first_primes"

definition sha_H0 :: sha_state where
  "sha_H0 =
     (case map (\<lambda>p. of_nat (root_bits 2 35 0 (p * 2 ^ 64))) [2, 3, 5, 7, 11, 13, 17, 19] of
        [a, b, c, d, e, f, g, h] \<Rightarrow> (a, b, c, d, e, f, g, h)
      | _ \<Rightarrow> (0, 0, 0, 0, 0, 0, 0, 0))"

definition word_bytes :: "w32 \<Rightarrow> string" where
  "word_bytes w = map (\<lambda>k. char_of (unat (drop_bit k w AND 255))) [24, 16, 8, 0]"

fun bytes_words :: "string \<Rightarrow> w32 list" where
  "bytes_words (a # b # c # d # s) =
     (of_nat (ord a * 16777216 + ord b * 65536 + ord c * 256 + ord d)) # bytes_words s"
| "bytes_words _ = []"

definition be64 :: "nat \<Rightarrow> string" where
  "be64 n = map (\<lambda>k. char_of (n div 256 ^ k mod 256)) [7, 6, 5, 4, 3, 2, 1, 0]"

definition sha_pad :: "string \<Rightarrow> string" where
  "sha_pad m = m @ char_of (128 :: nat) #
     replicate ((119 - length m mod 64) mod 64) (char_of (0 :: nat)) @ be64 (8 * length m)"

text \<open>The message schedule, newest word first.\<close>

fun sha_schedule :: "nat \<Rightarrow> w32 list \<Rightarrow> w32 list" where
  "sha_schedule 0 ws = ws"
| "sha_schedule (Suc n) ws =
     (let s0 = rotr32 7 (ws ! 14) XOR rotr32 18 (ws ! 14) XOR drop_bit 3 (ws ! 14);
          s1 = rotr32 17 (ws ! 1) XOR rotr32 19 (ws ! 1) XOR drop_bit 10 (ws ! 1)
      in sha_schedule n ((ws ! 15 + s0 + ws ! 6 + s1) # ws))"

fun sha_round :: "sha_state \<Rightarrow> w32 \<times> w32 \<Rightarrow> sha_state" where
  "sha_round (a, b, c, d, e, f, g, h) (k, w) =
     (let S1 = rotr32 6 e XOR rotr32 11 e XOR rotr32 25 e;
          ch = (e AND f) XOR (NOT e AND g);
          t1 = h + S1 + ch + k + w;
          S0 = rotr32 2 a XOR rotr32 13 a XOR rotr32 22 a;
          maj = (a AND b) XOR (a AND c) XOR (b AND c);
          t2 = S0 + maj
      in (t1 + t2, a, b, c, d + t1, e, f, g))"

fun sha_add :: "sha_state \<Rightarrow> sha_state \<Rightarrow> sha_state" where
  "sha_add (a, b, c, d, e, f, g, h) (a', b', c', d', e', f', g', h') =
     (a + a', b + b', c + c', d + d', e + e', f + f', g + g', h + h')"

definition sha_block :: "sha_state \<Rightarrow> w32 list \<Rightarrow> sha_state" where
  "sha_block s ws = sha_add s (foldl sha_round s (zip sha_K (rev (sha_schedule 48 (rev ws)))))"

fun sha_blocks :: "nat \<Rightarrow> sha_state \<Rightarrow> w32 list \<Rightarrow> sha_state" where
  "sha_blocks 0 s ws = s"
| "sha_blocks (Suc n) s ws = sha_blocks n (sha_block s (take 16 ws)) (drop 16 ws)"

fun sha_output :: "sha_state \<Rightarrow> string" where
  "sha_output (a, b, c, d, e, f, g, h) = concat (map word_bytes [a, b, c, d, e, f, g, h])"

definition sha256 :: "string \<Rightarrow> string" where
  "sha256 m = (let ws = bytes_words (sha_pad m) in sha_output (sha_blocks (length ws div 16) sha_H0 ws))"

lemma length_word_bytes [simp]: "length (word_bytes w) = 4"
  by (simp add: word_bytes_def)

lemma length_sha_output [simp]: "length (sha_output s) = 32"
  by (cases s rule: sha_output.cases) simp

lemma length_sha256 [simp]: "length (sha256 m) = 32"
  by (simp add: sha256_def Let_def)

section \<open>HMAC-SHA256\<close>

definition xor_byte :: "nat \<Rightarrow> char \<Rightarrow> char" where
  "xor_byte k c = char_of (ord c XOR k)"

definition hmac_key :: "string \<Rightarrow> string" where
  "hmac_key key =
     (let k = (if length key > 64 then sha256 key else key)
      in k @ replicate (64 - length k) (char_of (0 :: nat)))"

definition hmac_sha256 :: "string \<Rightarrow> string \<Rightarrow> string" where
  "hmac_sha256 key msg =
     sha256 (map (xor_byte 92) (hmac_key key) @ sha256 (map (xor_byte 54) (hmac_key key) @ msg))"

lemma length_hmac_sha256 [simp]: "length (hmac_sha256 key msg) = 32"
  by (simp add: hmac_sha256_def)

section \<open>pkg/hmac\<close>

definition hmac_Sign :: "string \<Rightarrow> string \<Rightarrow> string" where
  "hmac_Sign secret payload = EncodeToString (hmac_sha256 secret payload)"

definition hmac_Verify :: "string \<Rightarrow> string \<Rightarrow> string \<Rightarrow> bool" where
  "hmac_Verify secret payload hexSignature =
     (case DecodeString hexSignature of
        None \<Rightarrow> False
      | Some expected \<Rightarrow> expected = hmac_sha256 secret payload)"

text \<open>
  What the callers of a signature package rely on: verification accepts exactly the
  signature \<open>sign\<close> makes, up to the normal form \<open>norm\<close> of its text.
\<close>

locale mac_scheme =
  fixes sign :: "'k \<Rightarrow> 'm \<Rightarrow> string"
    and verify :: "'k \<Rightarrow> 'm \<Rightarrow> string \<Rightarrow> bool"
    and norm :: "string \<Rightarrow> string"
  assumes verify_iff: "verify k m s \<longleftrightarrow> norm s = sign k m"
    and norm_sign: "norm (sign k m) = sign k m"
begin

lemma verify_sign: "verify k m (sign k m)"
  by (simp add: verify_iff norm_sign)

lemma verify_unique: "verify k m s \<Longrightarrow> verify k m s' \<Longrightarrow> norm s = norm s'"
  by (simp add: verify_iff)

lemma verify_same: "sign k m = sign k' m' \<Longrightarrow> verify k m s = verify k' m' s"
  by (simp add: verify_iff)

end

lemma hmac_Verify_iff: "hmac_Verify secret payload sig \<longleftrightarrow> ToLower sig = hmac_Sign secret payload"
  by (auto simp: hmac_Verify_def hmac_Sign_def DecodeString_eq_Some_iff [symmetric]
      EncodeToString_inject split: option.splits)

interpretation hm: mac_scheme hmac_Sign hmac_Verify ToLower
  by unfold_locales (simp_all add: hmac_Verify_iff hmac_Sign_def)

lemma length_hmac_Sign [simp]: "length (hmac_Sign secret payload) = 64"
  by (simp add: hmac_Sign_def)

section \<open>pkg/checkouttoken\<close>

text \<open>Instants and durations are nanoseconds; \<^verbatim>\<open>time.Time.Unix\<close> is the second an instant is in.\<close>

definition unix :: "int \<Rightarrow> int" where
  "unix t = t div 1000000000"

definition token_message :: "string \<Rightarrow> string \<Rightarrow> int \<Rightarrow> string" where
  "token_message merchantID orderID expiry = merchantID @ '':'' @ orderID @ ''.'' @ FormatInt expiry"

definition signWithExpiry :: "string \<Rightarrow> string \<Rightarrow> string \<Rightarrow> int \<Rightarrow> string" where
  "signWithExpiry secret merchantID orderID expiry =
     FormatInt expiry @ ''.'' @
     EncodeToString (hmac_sha256 secret (token_message merchantID orderID expiry))"

definition token_Sign :: "string \<Rightarrow> string \<Rightarrow> string \<Rightarrow> int \<Rightarrow> int \<Rightarrow> string" where
  "token_Sign secret merchantID orderID lifetime now =
     signWithExpiry secret merchantID orderID (unix (now + lifetime))"

definition token_Verify :: "string \<Rightarrow> string \<Rightarrow> string \<Rightarrow> string \<Rightarrow> int \<Rightarrow> unit result" where
  "token_Verify secret merchantID orderID token now =
     (case SplitN2 token CHR ''.'' of
        None \<Rightarrow> Inl (Sentinel ErrMalformed)
      | Some (p0, p1) \<Rightarrow>
          (case ParseInt p0 of
             None \<Rightarrow> Inl (Sentinel ErrMalformed)
           | Some expiry \<Rightarrow>
               if unix now > expiry then Inl (Sentinel ErrExpired)
               else if signWithExpiry secret merchantID orderID expiry \<noteq> token
               then Inl (Sentinel ErrSignature)
               else Inr ()))"

lemma FormatInt_no_dot: "CHR ''.'' \<notin> set (FormatInt i)"
  using FormatInt_chars [of "CHR ''.''" i] by (auto simp: is_digit_def)

lemma token_Verify_signed:
  assumes "int64_range expiry"
  shows "token_Verify secret m oid (signWithExpiry secret m oid expiry) now =
    (if unix now > expiry then Inl (Sentinel ErrExpired) else Inr ())"
proof -
  have "SplitN2 (signWithExpiry secret m oid expiry) CHR ''.'' =
      Some (FormatInt expiry, EncodeToString (hmac_sha256 secret (token_message m oid expiry)))"
    by (simp add: signWithExpiry_def SplitN2_append FormatInt_no_dot)
  with assms show ?thesis
    by (simp add: token_Verify_def)
qed

text \<open>
  The exact language of accepted tokens. Verification re-signs the parsed expiry and
  compares whole texts, so the only accepted token of an expiry is the one signed for it.
\<close>

lemma token_Verify_iff:
  "token_Verify secret m oid token now = Inr () \<longleftrightarrow>
    (\<exists>expiry. int64_range expiry \<and> unix now \<le> expiry \<and> token = signWithExpiry secret m oid expiry)"
    (is "?L \<longleftrightarrow> ?R")
proof
  assume ?L
  then obtain p0 p1 e where "SplitN2 token CHR ''.'' = Some (p0, p1)" and e: "ParseInt p0 = Some e"
    and "unix now \<le> e" and "signWithExpiry secret m oid e = token"
    by (auto simp: token_Verify_def split: option.splits prod.splits if_splits)
  then show ?R
    using ParseInt_range [OF e] by blast
next
  assume ?R
  then show ?L
    by (auto simp: token_Verify_signed)
qed

text \<open>C36. The exact language of the checkout tokens: a token is accepted for a merchant and an
  order if and only if it is, byte for byte, the token signed for them with some 64-bit expiry
  that has not passed; no other text (another case of the hexadecimal part, a leading plus
  sign or zeros in the expiry, a truncated signature) is accepted.\<close>

theorem token_accepted_iff:
  "token_Verify secret m oid token now = Inr () \<longleftrightarrow>
    (\<exists>expiry. int64_range expiry \<and> unix now \<le> expiry \<and> token = signWithExpiry secret m oid expiry)"
  by (rule token_Verify_iff)

text \<open>A token is good for its lifetime and no longer: a token signed at instant \<open>t\<close> with a
  lifetime verifies at \<open>now\<close> exactly while the second of \<open>now\<close> is at most the second of
  \<open>t + lifetime\<close>, and is reported as expired, not as malformed or forged, afterwards.\<close>

theorem token_lifetime:
  assumes "int64_range (unix (t + lifetime))"
  shows "token_Verify secret m oid (token_Sign secret m oid lifetime t) now =
    (if unix now \<le> unix (t + lifetime) then Inr () else Inl (Sentinel ErrExpired))"
  using assms by (simp add: token_Sign_def token_Verify_signed)

theorem token_lifetime_witness:
  "int64_range (unix (1700000000 * 1000000000 + 86400 * 1000000000)) \<and>
    token_Verify ''s'' ''M1'' ''o-1'' (token_Sign ''s'' ''M1'' ''o-1'' (86400 * 1000000000) (1700000000 * 1000000000))
      (1700086401 * 1000000000) = Inl (Sentinel ErrExpired)"
  using token_lifetime [of "1700000000 * 1000000000" "86400 * 1000000000" "''s''" "''M1''" "''o-1''"
      "1700086401 * 1000000000"]
  by (simp add: unix_def int64_range_def)

text \<open>The signed text does not separate the merchant from the order: a colon is legal in
  both, so the tokens of the merchant \<open>a:b\<close> with order \<open>c\<close> and of the merchant \<open>a\<close> with order
  \<open>b:c\<close> are the same token, and each is accepted for the other.\<close>

theorem token_colon_collision:
  "token_Verify secret (a @ '':'' @ b) c token now = token_Verify secret a (b @ '':'' @ c) token now"
proof -
  have "signWithExpiry secret (a @ '':'' @ b) c e = signWithExpiry secret a (b @ '':'' @ c) e" for e
    by (simp add: signWithExpiry_def token_message_def)
  then show ?thesis
    by (simp only: token_Verify_def)
qed

end
