(* ===== verification/Domain.thy ===== *)
theory Domain
  imports Crypto
begin

text \<open>
  The package \<^verbatim>\<open>internal/domain\<close>: merchants, transactions, on-chain transactions and the
  validation of a merchant's order id. Instants are nanoseconds since the epoch; the zero
  \<^verbatim>\<open>time.Time\<close> is \<open>zero_time\<close>. Statuses are the strings of the source, so that a status the
  code does not know is a value too.
\<close>

section \<open>Merchants\<close>

abbreviation (input) MerchantStatusActive :: string where
  "MerchantStatusActive \<equiv> ''active''"

abbreviation (input) MerchantStatusSuspended :: string where
  "MerchantStatusSuspended \<equiv> ''suspended''"

record Merchant =
  m_ID :: int
  m_MerchantID :: string
  m_Name :: string
  m_APIKey :: string
  m_SecretKey :: string
  m_CallbackURL :: string
  m_RateLimit :: int
  m_Status :: string
  m_ShardIndex :: uint8
  m_CreatedAt :: int

section \<open>On-chain transactions\<close>

abbreviation (input) OnchainTxStatusPending :: string where
  "OnchainTxStatusPending \<equiv> ''pending''"

abbreviation (input) OnchainTxStatusConfirmed :: string where
  "OnchainTxStatusConfirmed \<equiv> ''confirmed''"

abbreviation (input) OnchainTxStatusFailed :: string where
  "OnchainTxStatusFailed \<equiv> ''failed''"

abbreviation (input) OnchainTxStatusReorged :: string where
  "OnchainTxStatusReorged \<equiv> ''reorged''"

text \<open>\<open>x_Amount\<close> is \<^const>\<open>None\<close> for a nil \<^verbatim>\<open>*big.Int\<close>.\<close>

record OnchainTransaction =
  x_ID :: int
  x_TxHash :: string
  x_BlockNumber :: uint64
  x_MerchantID :: string
  x_OrderID :: string
  x_Payer :: string
  x_Token :: string
  x_Amount :: "int option"
  x_ChainID :: int
  x_Confirmations :: uint64
  x_RequiredConfirm :: uint64
  x_Status :: string
  x_CreatedAt :: int

section \<open>Transactions\<close>

abbreviation (input) TransactionStatusCreated :: string where
  "TransactionStatusCreated \<equiv> ''created''"

abbreviation (input) TransactionStatusPending :: string where
  "TransactionStatusPending \<equiv> ''pending''"

abbreviation (input) TransactionStatusPaid :: string where
  "TransactionStatusPaid \<equiv> ''paid''"

abbreviation (input) TransactionStatusFailed :: string where
  "TransactionStatusFailed \<equiv> ''failed''"

abbreviation (input) TransactionStatusExpired :: string where
  "TransactionStatusExpired \<equiv> ''expired''"

abbreviation (input) TransactionStatusRefunded :: string where
  "TransactionStatusRefunded \<equiv> ''refunded''"

definition TransactionStatus_Valid :: "string \<Rightarrow> bool" where
  "TransactionStatus_Valid s \<longleftrightarrow>
     s \<in> {TransactionStatusCreated, TransactionStatusPending, TransactionStatusPaid,
          TransactionStatusFailed, TransactionStatusExpired, TransactionStatusRefunded}"

record Transaction =
  t_MerchantID :: string
  t_TransactionID :: string
  t_OrderID :: string
  t_Amount :: int
  t_Currency :: string
  t_Status :: string
  t_PaymentMethod :: string
  t_StripeSessionID :: string
  t_StripePaymentIntentID :: string
  t_CreatedAt :: int
  t_UpdatedAt :: int
  t_ShardIndex :: uint8

text \<open>The zero \<^verbatim>\<open>time.Time\<close> is 1 January of the year 1.\<close>

definition zero_time :: int where
  "zero_time = - 62135596800 * 1000000000"

section \<open>Order ids\<close>

definition order_char :: "char \<Rightarrow> bool" where
  "order_char c \<longleftrightarrow>
     (65 \<le> ord c \<and> ord c \<le> 90) \<or> (97 \<le> ord c \<and> ord c \<le> 122) \<or> (48 \<le> ord c \<and> ord c \<le> 57) \<or>
     c = CHR ''.'' \<or> c = CHR ''_'' \<or> c = CHR '':'' \<or> c = CHR ''-''"

fun validate_chars :: "string \<Rightarrow> unit result" where
  "validate_chars [] = Inr ()"
| "validate_chars (c # s) =
     (if order_char c then validate_chars s
      else Inl (Wrapf ''invalid char'' (Sentinel ErrInvalidOrderID)))"

definition ValidateOrderID :: "string \<Rightarrow> unit result" where
  "ValidateOrderID orderID =
     (let n = length orderID
      in if n = 0 \<or> n > 64 then Inl (Wrapf ''length must be 1..64'' (Sentinel ErrInvalidOrderID))
         else validate_chars orderID)"

definition valid_order_id :: "string \<Rightarrow> bool" where
  "valid_order_id s \<longleftrightarrow> s \<noteq> [] \<and> length s \<le> 64 \<and> list_all order_char s"

lemma validate_chars_Inr_iff: "validate_chars s = Inr () \<longleftrightarrow> list_all order_char s"
  by (induction s) auto

lemma ValidateOrderID_Inr_iff: "ValidateOrderID s = Inr u \<longleftrightarrow> valid_order_id s"
  by (auto simp: ValidateOrderID_def valid_order_id_def Let_def validate_chars_Inr_iff)

lemma ValidateOrderID_valid: "valid_order_id s \<Longrightarrow> ValidateOrderID s = Inr ()"
  by (simp add: ValidateOrderID_Inr_iff)

lemma validate_chars_Inl: "validate_chars s = Inl e \<Longrightarrow> errors_Is e t \<longleftrightarrow> t = ErrInvalidOrderID"
  by (induction s) (auto split: if_splits)

lemma ValidateOrderID_Inl: "ValidateOrderID s = Inl e \<Longrightarrow> errors_Is e t \<longleftrightarrow> t = ErrInvalidOrderID"
  by (auto simp: ValidateOrderID_def Let_def split: if_splits dest: validate_chars_Inl)

lemma ValidateOrderID_cases:
  obtains (ok) "valid_order_id s" "ValidateOrderID s = Inr ()"
  | (bad) e where "\<not> valid_order_id s" "ValidateOrderID s = Inl e" "errors_Is e ErrInvalidOrderID"
proof (cases "ValidateOrderID s")
  case (Inl e)
  then show ?thesis
    using bad ValidateOrderID_Inr_iff [of s] ValidateOrderID_Inl [of s e] by simp
next
  case (Inr u)
  then show ?thesis
    using ok ValidateOrderID_Inr_iff [of s] by simp
qed

end
