(* ===== verification/Codec.thy ===== *)
theory Codec
  imports Domain
begin

text \<open>
  \<^verbatim>\<open>internal/repository/codec.go\<close>: the integer and binary forms of the columns of the
  \<^verbatim>\<open>transactions\<close> table. The locale \<open>codec\<close> states what the repository relies on, and its
  four interpretations are the columns \<^verbatim>\<open>status\<close>, \<^verbatim>\<open>payment_method\<close>, \<^verbatim>\<open>currency_code\<close> and
  \<^verbatim>\<open>transaction_id\<close>.
\<close>

unbundle bit_operations_syntax

section \<open>status\<close>

abbreviation (input) statusCreated :: uint8 where
  "statusCreated \<equiv> 0"

abbreviation (input) statusPending :: uint8 where
  "statusPending \<equiv> 1"

abbreviation (input) statusPaid :: uint8 where
  "statusPaid \<equiv> 2"

abbreviation (input) statusFailed :: uint8 where
  "statusFailed \<equiv> 3"

abbreviation (input) statusExpired :: uint8 where
  "statusExpired \<equiv> 4"

abbreviation (input) statusRefunded :: uint8 where
  "statusRefunded \<equiv> 5"

definition encodeStatus :: "string \<Rightarrow> uint8 result" where
  "encodeStatus s =
     (if s = TransactionStatusCreated then Inr statusCreated
      else if s = TransactionStatusPending then Inr statusPending
      else if s = TransactionStatusPaid then Inr statusPaid
      else if s = TransactionStatusFailed then Inr statusFailed
      else if s = TransactionStatusExpired then Inr statusExpired
      else if s = TransactionStatusRefunded then Inr statusRefunded
      else Inl (ErrNew ''encode status: unknown''))"

definition decodeStatus :: "uint8 \<Rightarrow> string result" where
  "decodeStatus v =
     (if v = statusCreated then Inr TransactionStatusCreated
      else if v = statusPending then Inr TransactionStatusPending
      else if v = statusPaid then Inr TransactionStatusPaid
      else if v = statusFailed then Inr TransactionStatusFailed
      else if v = statusExpired then Inr TransactionStatusExpired
      else if v = statusRefunded then Inr TransactionStatusRefunded
      else Inl (ErrNew ''decode status: unknown''))"

section \<open>payment\_method\<close>

definition methodToCode :: "(string \<times> uint8) list" where
  "methodToCode =
    [(''card'', 0), (''crypto_eth'', 1), (''wallet'', 2), (''bank_transfer'', 3), (''klarna'', 4),
     (''afterpay'', 5), (''affirm'', 6), (''sepa_debit'', 7), (''us_bank_account'', 8)]"

definition codeToMethod :: "(uint8 \<times> string) list" where
  "codeToMethod =
    [(0, ''card''), (1, ''crypto_eth''), (2, ''wallet''), (3, ''bank_transfer''), (4, ''klarna''),
     (5, ''afterpay''), (6, ''affirm''), (7, ''sepa_debit''), (8, ''us_bank_account''),
     (9, ''unknown'')]"

definition encodeMethod :: "string \<Rightarrow> uint8" where
  "encodeMethod s = (case map_of methodToCode (ToLower s) of Some v \<Rightarrow> v | None \<Rightarrow> 9)"

definition decodeMethod :: "uint8 \<Rightarrow> string" where
  "decodeMethod v = (case map_of codeToMethod v of Some s \<Rightarrow> s | None \<Rightarrow> ''unknown'')"

section \<open>currency\_code\<close>

definition currencyToCode :: "(string \<times> uint16) list" where
  "currencyToCode =
    [(''USD'', 840), (''EUR'', 978), (''GBP'', 826), (''JPY'', 392), (''CNY'', 156), (''AUD'', 36),
     (''CAD'', 124), (''CHF'', 756), (''HKD'', 344), (''IDR'', 360), (''INR'', 356), (''KRW'', 410),
     (''MYR'', 458), (''NZD'', 554), (''PHP'', 608), (''SGD'', 702), (''THB'', 764), (''TWD'', 901),
     (''VND'', 704)]"

text \<open>
  The inverse table is filled by ranging over the map, whose order Go leaves open: \<open>invert\<close>
  takes the entries in the order of its argument, a later entry overwriting an earlier one.
\<close>

fun invert :: "(uint16 \<rightharpoonup> string) \<Rightarrow> (string \<times> uint16) list \<Rightarrow> (uint16 \<rightharpoonup> string)" where
  "invert m [] = m"
| "invert m ((k, v) # kvs) = invert (m(v \<mapsto> k)) kvs"

definition codeToCurrency :: "uint16 \<rightharpoonup> string" where
  "codeToCurrency = invert Map.empty currencyToCode"

definition encodeCurrency :: "string \<Rightarrow> uint16 result" where
  "encodeCurrency s =
     (case map_of currencyToCode (ToUpper s) of
        None \<Rightarrow> Inl (ErrNew ''encode currency: unknown'')
      | Some v \<Rightarrow> Inr v)"

definition decodeCurrency :: "uint16 \<Rightarrow> string result" where
  "decodeCurrency v =
     (case codeToCurrency v of
        None \<Rightarrow> Inl (ErrNew ''decode currency: unknown numeric'')
      | Some s \<Rightarrow> Inr s)"

section \<open>Id encoding\<close>

definition decodeHex16 :: "string \<Rightarrow> string result" where
  "decodeHex16 s =
     (if length s \<noteq> 32 then Inl (ErrNew ''hex16: want 32 chars'')
      else case DecodeString s of
             None \<Rightarrow> Inl (Wrapf ''hex16'' (ErrNew ''encoding/hex: invalid byte''))
           | Some b \<Rightarrow> Inr b)"

text \<open>\<open>hexLower\<close> of \<^verbatim>\<open>transaction_repo.go\<close>, with the nibbles taken by shift and mask.\<close>

definition hexLower :: "string \<Rightarrow> string" where
  "hexLower b = concat (map (\<lambda>v. [''0123456789abcdef'' ! drop_bit 4 (ord v),
                                  ''0123456789abcdef'' ! (ord v AND 15)]) b)"

section \<open>The contract of a column codec\<close>

locale codec =
  fixes enc :: "'a \<Rightarrow> 'b result"
    and dec :: "'b \<Rightarrow> 'a result"
    and canon :: "'a \<Rightarrow> 'a"
    and stored :: "'b \<Rightarrow> bool"
  assumes enc_stored: "enc x = Inr v \<Longrightarrow> stored v"
    and dec_enc: "enc x = Inr v \<Longrightarrow> dec v = Inr (canon x)"
    and enc_dec: "stored v \<Longrightarrow> dec v = Inr x \<Longrightarrow> enc x = Inr v"
begin

lemma enc_canon: "enc x = Inr v \<Longrightarrow> enc (canon x) = Inr v"
  using enc_stored dec_enc enc_dec by blast

lemma canon_canon: "enc x = Inr v \<Longrightarrow> canon (canon x) = canon x"
  by (metis Inr_inject dec_enc enc_canon)

lemma enc_eq_iff: "enc x = Inr v \<Longrightarrow> enc y = Inr w \<Longrightarrow> v = w \<longleftrightarrow> canon x = canon y"
  by (metis Inr_inject dec_enc enc_canon)

lemma dec_inject: "stored v \<Longrightarrow> stored w \<Longrightarrow> dec v = Inr x \<Longrightarrow> dec w = Inr x \<Longrightarrow> v = w"
  by (metis Inr_inject enc_dec)

end

subsection \<open>status\<close>

lemma decodeStatus_encodeStatus: "encodeStatus s = Inr v \<Longrightarrow> decodeStatus v = Inr s"
  by (auto simp: encodeStatus_def decodeStatus_def split: if_splits)

lemma encodeStatus_decodeStatus: "decodeStatus v = Inr s \<Longrightarrow> encodeStatus s = Inr v"
  by (auto simp: encodeStatus_def decodeStatus_def split: if_splits)

interpretation status: codec encodeStatus decodeStatus id "\<lambda>v. v \<le> 5"
proof unfold_locales
  show "v \<le> 5" if "encodeStatus s = Inr v" for s v
    using that by (auto simp: encodeStatus_def split: if_splits)
qed (auto dest: decodeStatus_encodeStatus encodeStatus_decodeStatus)

lemma encodeStatus_Valid: "(\<exists>v. encodeStatus s = Inr v) \<longleftrightarrow> TransactionStatus_Valid s"
  by (auto simp: encodeStatus_def TransactionStatus_Valid_def)

subsection \<open>payment\_method\<close>

definition canon_method :: "string \<Rightarrow> string" where
  "canon_method s = (if ToLower s \<in> fst ` set methodToCode then ToLower s else ''unknown'')"

lemma decodeMethod_encodeMethod [codec_simps]: "decodeMethod (encodeMethod s) = canon_method s"
  by (auto simp: encodeMethod_def decodeMethod_def canon_method_def methodToCode_def codeToMethod_def)

lemma encodeMethod_le: "encodeMethod s \<le> 9"
  by (auto simp: encodeMethod_def methodToCode_def)

lemma nat_less_10_cases:
  "(n :: nat) < 10 \<Longrightarrow>
    n = 0 \<or> n = 1 \<or> n = 2 \<or> n = 3 \<or> n = 4 \<or> n = 5 \<or> n = 6 \<or> n = 7 \<or> n = 8 \<or> n = 9"
  by arith

lemma uint8_le_9_cases:
  "(v :: uint8) \<le> 9 \<Longrightarrow>
    v = 0 \<or> v = 1 \<or> v = 2 \<or> v = 3 \<or> v = 4 \<or> v = 5 \<or> v = 6 \<or> v = 7 \<or> v = 8 \<or> v = 9"
proof -
  assume "v \<le> 9"
  then have "unat v < 10"
    by (simp add: word_le_nat_alt)
  from nat_less_10_cases [OF this] show ?thesis
    by (simp add: word_unat_eq_iff)
qed

lemma encodeMethod_decodeMethod: "v \<le> 9 \<Longrightarrow> encodeMethod (decodeMethod v) = v"
  by (drule uint8_le_9_cases, elim disjE)
    (simp_all add: encodeMethod_def decodeMethod_def methodToCode_def codeToMethod_def go_defs)

interpretation pmethod: codec "\<lambda>s. Inr (encodeMethod s)" "\<lambda>v. Inr (decodeMethod v)" canon_method "\<lambda>v. v \<le> 9"
  by unfold_locales (auto simp: decodeMethod_encodeMethod encodeMethod_le intro: encodeMethod_decodeMethod)

subsection \<open>currency\_code\<close>

lemma invert_eq_map_of:
  "distinct (map snd kvs) \<Longrightarrow> invert m kvs = m ++ map_of (map (\<lambda>(k, v). (v, k)) kvs)"
proof (induction kvs arbitrary: m)
  case (Cons kv kvs)
  obtain k v where kv: "kv = (k, v)" by fastforce
  with Cons.prems have "v \<notin> dom (map_of (map (\<lambda>(k, v). (v, k)) kvs))"
    by (auto simp: dom_map_of_conv_image_fst image_image split_beta)
  with Cons kv show ?case
    by (simp add: map_add_upd_left del: fun_upd_apply)
qed simp

lemma distinct_currency_codes: "distinct (map snd currencyToCode)"
  by (simp add: currencyToCode_def)

lemma codeToCurrency_map_of: "codeToCurrency = map_of (map (\<lambda>(k, v). (v, k)) currencyToCode)"
  by (simp add: codeToCurrency_def invert_eq_map_of distinct_currency_codes)

lemma codeToCurrency_Some_iff: "codeToCurrency v = Some k \<longleftrightarrow> (k, v) \<in> set currencyToCode"
proof -
  have "distinct (map fst (map (\<lambda>(k, v). (v, k)) currencyToCode))"
    using distinct_currency_codes by (simp add: comp_def split_beta)
  then show ?thesis
    by (auto simp: codeToCurrency_map_of)
qed

lemma currencyToCode_Some_iff: "map_of currencyToCode k = Some v \<longleftrightarrow> (k, v) \<in> set currencyToCode"
  by (rule map_of_eq_Some_iff) (simp add: currencyToCode_def)

lemma decodeCurrency_encodeCurrency: "encodeCurrency s = Inr v \<Longrightarrow> decodeCurrency v = Inr (ToUpper s)"
  by (auto simp: encodeCurrency_def decodeCurrency_def currencyToCode_Some_iff
      codeToCurrency_Some_iff [THEN iffD2] split: option.splits)

lemma currency_upper: "(k, v) \<in> set currencyToCode \<Longrightarrow> ToUpper k = k"
  by (auto simp: currencyToCode_def go_defs)

lemma encodeCurrency_decodeCurrency: "decodeCurrency v = Inr s \<Longrightarrow> encodeCurrency s = Inr v"
  by (auto simp: encodeCurrency_def decodeCurrency_def codeToCurrency_Some_iff currency_upper
      currencyToCode_Some_iff [THEN iffD2] split: option.splits)

interpretation currency: codec encodeCurrency decodeCurrency ToUpper "\<lambda>v. codeToCurrency v \<noteq> None"
proof unfold_locales
  show "codeToCurrency v \<noteq> None" if "encodeCurrency s = Inr v" for s v
    using decodeCurrency_encodeCurrency [OF that] by (auto simp: decodeCurrency_def split: option.splits)
qed (auto dest: decodeCurrency_encodeCurrency encodeCurrency_decodeCurrency)

subsection \<open>transaction\_id\<close>

lemma hex_digit_nth: "n < 16 \<Longrightarrow> ''0123456789abcdef'' ! n = hex_char n"
proof -
  have "list_all (\<lambda>n. ''0123456789abcdef'' ! n = hex_char n) [0..<16]"
    by code_simp
  then show "n < 16 \<Longrightarrow> ?thesis"
    by (simp add: list_all_iff)
qed

lemma hexLower_eq: "hexLower b = EncodeToString b"
proof -
  have "ord v AND 15 = ord v mod 16" for v
    using take_bit_eq_mask [of 4 "ord v"] by (simp add: take_bit_eq_mod mask_eq_exp_minus_1)
  moreover have "drop_bit 4 (ord v) = ord v div 16" for v
    by (simp add: drop_bit_eq_div)
  moreover have "ord v div 16 < 16" for v
    using ord_less_256 [of v] by linarith
  ultimately show ?thesis
    by (simp add: hexLower_def EncodeToString_def hex_digit_nth)
qed

lemma decodeHex16_hexLower: "length b = 16 \<Longrightarrow> decodeHex16 (hexLower b) = Inr b"
  by (simp add: decodeHex16_def hexLower_eq)

lemma decodeHex16_InrD: "decodeHex16 s = Inr b \<Longrightarrow> length b = 16 \<and> hexLower b = ToLower s"
  by (auto simp: decodeHex16_def hexLower_eq EncodeToString_DecodeString dest: length_DecodeString
      split: if_splits option.splits)

interpretation txnid: codec decodeHex16 "\<lambda>b. Inr (hexLower b)" ToLower "\<lambda>b. length b = 16"
  by unfold_locales (auto intro: decodeHex16_hexLower dest: decodeHex16_InrD)

end
