(* ===== verification/Config.thy ===== *)
theory Config
  imports Domain
begin

text \<open>
  \<^verbatim>\<open>internal/config/config.go\<close>: the raw YAML form of the configuration, its conversion with
  defaults, and validation. Reading and parsing the YAML file and \<^verbatim>\<open>time.ParseDuration\<close> are
  arguments of the definitions that use them. Durations are nanoseconds.
\<close>

section \<open>Configuration records\<close>

record AppConfig =
  app_Env :: string
  app_Port :: int
  app_LogLevel :: string
  app_PublicBaseURL :: string
  app_LazyCheckout :: bool
  app_CheckoutTokenSecret :: string
  app_CheckoutTokenTTL :: int
  app_StripeRateLimit :: int
  app_CheckoutDefaultSuccessURL :: string
  app_CheckoutDefaultCancelURL :: string
  app_LogicalShardCount :: uint8

record ShardDBConfig =
  shard_DSN :: string
  shard_MaxOpenConns :: int
  shard_MaxIdleConns :: int

record DBConfig =
  db_DSN :: string
  db_MaxOpenConns :: int
  db_MaxIdleConns :: int
  db_Shards :: "ShardDBConfig list"

record RedisConfig =
  redis_Addr :: string
  redis_Password :: string
  redis_DB :: int

record KafkaConfig =
  kafka_Brokers :: "string list"
  kafka_TopicConfirmed :: string
  kafka_TopicDLQ :: string
  kafka_ConsumerGroup :: string

record StripeConfig =
  stripe_SecretKey :: string
  stripe_PublishableKey :: string
  stripe_WebhookSecret :: string
  stripe_APIVersion :: string
  stripe_DefaultCurrency :: string
  stripe_Mode :: string

record BlockchainConfig =
  chain_RPCWebsocket :: string
  chain_RPCHTTP :: string
  chain_ContractAddress :: string
  chain_ChainID :: int
  chain_RequiredConfirmations :: uint64
  chain_StartBlock :: uint64

record SecurityConfig =
  sec_HMACSecret :: string
  sec_HMACTimestampSkew :: int
  sec_AdminAPIKey :: string

record Config =
  c_App :: AppConfig
  c_DB :: DBConfig
  c_Redis :: RedisConfig
  c_Kafka :: KafkaConfig
  c_Stripe :: StripeConfig
  c_Blockchain :: BlockchainConfig
  c_Security :: SecurityConfig

section \<open>The raw YAML form\<close>

record rawAppConfig =
  rapp_Env :: string
  rapp_Port :: int
  rapp_LogLevel :: string
  rapp_PublicBaseURL :: string
  rapp_LazyCheckout :: bool
  rapp_CheckoutTokenSecret :: string
  rapp_CheckoutTokenTTL :: string
  rapp_StripeRateLimit :: int
  rapp_CheckoutDefaultSuccessURL :: string
  rapp_CheckoutDefaultCancelURL :: string
  rapp_LogicalShardCount :: int

record rawShardDBConfig =
  rshard_DSN :: string
  rshard_MaxOpenConns :: int
  rshard_MaxIdleConns :: int

record rawDBConfig =
  rdb_DSN :: string
  rdb_MaxOpenConns :: int
  rdb_MaxIdleConns :: int
  rdb_Shards :: "rawShardDBConfig list"

record rawRedisConfig =
  rredis_Addr :: string
  rredis_Password :: string
  rredis_DB :: int

record rawKafkaConfig =
  rkafka_Brokers :: "string list"
  rkafka_TopicConfirmed :: string
  rkafka_TopicDLQ :: string
  rkafka_ConsumerGroup :: string

record rawStripeConfig =
  rstripe_SecretKey :: string
  rstripe_PublishableKey :: string
  rstripe_WebhookSecret :: string
  rstripe_APIVersion :: string
  rstripe_DefaultCurrency :: string
  rstripe_Mode :: string

record rawBlockchainConfig =
  rchain_RPCWebsocket :: string
  rchain_RPCHTTP :: string
  rchain_ContractAddress :: string
  rchain_ChainID :: int
  rchain_RequiredConfirmations :: int
  rchain_StartBlock :: int

record rawSecurityConfig =
  rsec_HMACSecret :: string
  rsec_HMACTimestampSkew :: string
  rsec_AdminAPIKey :: string

record rawConfig =
  r_App :: rawAppConfig
  r_DB :: rawDBConfig
  r_Redis :: rawRedisConfig
  r_Kafka :: rawKafkaConfig
  r_Stripe :: rawStripeConfig
  r_Blockchain :: rawBlockchainConfig
  r_Security :: rawSecurityConfig

section \<open>Defaults\<close>

definition stringDefault :: "string \<Rightarrow> string \<Rightarrow> string" where
  "stringDefault v d = (if v = [] then d else v)"

definition intDefault :: "int \<Rightarrow> int \<Rightarrow> int" where
  "intDefault v d = (if v = 0 then d else v)"

definition int64Default :: "int \<Rightarrow> int \<Rightarrow> int" where
  "int64Default v d = (if v = 0 then d else v)"

definition sliceDefault :: "string list \<Rightarrow> string list \<Rightarrow> string list" where
  "sliceDefault v d = (if length v = 0 then d else v)"

definition toShardDBConfigs :: "rawShardDBConfig list \<Rightarrow> ShardDBConfig list" where
  "toShardDBConfigs ss =
     map (\<lambda>s. \<lparr>shard_DSN = rshard_DSN s, shard_MaxOpenConns = rshard_MaxOpenConns s,
              shard_MaxIdleConns = rshard_MaxIdleConns s\<rparr>) ss"

definition parseDurationDefault :: "(string \<Rightarrow> int result) \<Rightarrow> string \<Rightarrow> int \<Rightarrow> int result" where
  "parseDurationDefault ParseDuration v d = (if v = [] then Inr d else ParseDuration v)"

definition nonNegUint64 :: "int \<Rightarrow> uint64" where
  "nonNegUint64 v = (if v < 0 then 0 else word_of_int v)"

definition shardCount :: "int \<Rightarrow> uint8" where
  "shardCount v = (if v < 1 then 1 else if v > 255 then 255 else word_of_int v)"

definition TrimRight :: "string \<Rightarrow> char \<Rightarrow> string" where
  "TrimRight s c = rev (dropWhile (\<lambda>x. x = c) (rev s))"

definition toConfig :: "(string \<Rightarrow> int result) \<Rightarrow> rawConfig \<Rightarrow> Config result" where
  "toConfig ParseDuration r =
     (let publicBase = TrimRight (stringDefault (rapp_PublicBaseURL (r_App r)) ''http://localhost:8080'') CHR ''/''
      in case parseDurationDefault ParseDuration (rapp_CheckoutTokenTTL (r_App r)) (24 * 3600 * 1000000000) of
           Inl e \<Rightarrow> Inl (Wrapf ''app.checkout_token_ttl'' e)
         | Inr tokenTTL \<Rightarrow>
        (case parseDurationDefault ParseDuration (rsec_HMACTimestampSkew (r_Security r)) (5 * 60 * 1000000000) of
           Inl e \<Rightarrow> Inl (Wrapf ''security.hmac_timestamp_skew'' e)
         | Inr hmacSkew \<Rightarrow>
        Inr \<lparr>
          c_App = \<lparr>
            app_Env = stringDefault (rapp_Env (r_App r)) ''development'',
            app_Port = intDefault (rapp_Port (r_App r)) 8080,
            app_LogLevel = stringDefault (rapp_LogLevel (r_App r)) ''info'',
            app_PublicBaseURL = publicBase,
            app_LazyCheckout = rapp_LazyCheckout (r_App r),
            app_CheckoutTokenSecret = rapp_CheckoutTokenSecret (r_App r),
            app_CheckoutTokenTTL = tokenTTL,
            app_StripeRateLimit = intDefault (rapp_StripeRateLimit (r_App r)) 80,
            app_CheckoutDefaultSuccessURL =
              stringDefault (rapp_CheckoutDefaultSuccessURL (r_App r)) (publicBase @ ''/checkout/success''),
            app_CheckoutDefaultCancelURL =
              stringDefault (rapp_CheckoutDefaultCancelURL (r_App r)) (publicBase @ ''/checkout/cancel''),
            app_LogicalShardCount = shardCount (intDefault (rapp_LogicalShardCount (r_App r)) 16)\<rparr>,
          c_DB = \<lparr>
            db_DSN = rdb_DSN (r_DB r),
            db_MaxOpenConns = intDefault (rdb_MaxOpenConns (r_DB r)) 100,
            db_MaxIdleConns = intDefault (rdb_MaxIdleConns (r_DB r)) 25,
            db_Shards = toShardDBConfigs (rdb_Shards (r_DB r))\<rparr>,
          c_Redis = \<lparr>
            redis_Addr = stringDefault (rredis_Addr (r_Redis r)) ''localhost:6379'',
            redis_Password = rredis_Password (r_Redis r),
            redis_DB = rredis_DB (r_Redis r)\<rparr>,
          c_Kafka = \<lparr>
            kafka_Brokers = sliceDefault (rkafka_Brokers (r_Kafka r)) [''localhost:9092''],
            kafka_TopicConfirmed = stringDefault (rkafka_TopicConfirmed (r_Kafka r)) ''payment.confirmed'',
            kafka_TopicDLQ = stringDefault (rkafka_TopicDLQ (r_Kafka r)) ''payment.confirmed.dlq'',
            kafka_ConsumerGroup = stringDefault (rkafka_ConsumerGroup (r_Kafka r)) ''payment-engine''\<rparr>,
          c_Stripe = \<lparr>
            stripe_SecretKey = rstripe_SecretKey (r_Stripe r),
            stripe_PublishableKey = rstripe_PublishableKey (r_Stripe r),
            stripe_WebhookSecret = rstripe_WebhookSecret (r_Stripe r),
            stripe_APIVersion = stringDefault (rstripe_APIVersion (r_Stripe r)) ''2024-06-20'',
            stripe_DefaultCurrency = stringDefault (rstripe_DefaultCurrency (r_Stripe r)) ''USD'',
            stripe_Mode = stringDefault (rstripe_Mode (r_Stripe r)) ''live''\<rparr>,
          c_Blockchain = \<lparr>
            chain_RPCWebsocket = rchain_RPCWebsocket (r_Blockchain r),
            chain_RPCHTTP = rchain_RPCHTTP (r_Blockchain r),
            chain_ContractAddress = rchain_ContractAddress (r_Blockchain r),
            chain_ChainID = int64Default (rchain_ChainID (r_Blockchain r)) 11155111,
            chain_RequiredConfirmations =
              nonNegUint64 (int64Default (rchain_RequiredConfirmations (r_Blockchain r)) 12),
            chain_StartBlock = nonNegUint64 (rchain_StartBlock (r_Blockchain r))\<rparr>,
          c_Security = \<lparr>
            sec_HMACSecret = rsec_HMACSecret (r_Security r),
            sec_HMACTimestampSkew = hmacSkew,
            sec_AdminAPIKey = rsec_AdminAPIKey (r_Security r)\<rparr>\<rparr>))"

section \<open>Validation\<close>

fun validate_shards :: "ShardDBConfig list \<Rightarrow> unit result" where
  "validate_shards [] = Inr ()"
| "validate_shards (s # ss) =
     (if shard_DSN s = [] then Inl (ErrNew ''db.shards[i].dsn is required'') else validate_shards ss)"

definition validate_count :: "nat \<Rightarrow> nat \<Rightarrow> unit result" where
  "validate_count L n =
     (if n > 0
      then if L < n then Inl (ErrNew ''app.logical_shard_count must be >= len(db.shards)'')
           else if L mod n \<noteq> 0 then Inl (ErrNew ''app.logical_shard_count must be divisible by len(db.shards)'')
           else Inr ()
      else Inr ())"

definition validate_stripe :: "StripeConfig \<Rightarrow> unit result" where
  "validate_stripe s =
     (if stripe_Mode s = ''live''
      then if stripe_SecretKey s = [] then Inl (ErrNew ''stripe.secret_key required when stripe.mode=live'')
           else if stripe_WebhookSecret s = []
           then Inl (ErrNew ''stripe.webhook_secret required when stripe.mode=live'')
           else Inr ()
      else if stripe_Mode s = ''fake'' then Inr ()
      else Inl (ErrNew ''invalid stripe.mode''))"

definition validate :: "Config \<Rightarrow> unit result" where
  "validate c =
     (if length (db_Shards (c_DB c)) = 0 \<and> db_DSN (c_DB c) = []
      then Inl (ErrNew ''db.dsn or db.shards is required'')
      else case validate_shards (db_Shards (c_DB c)) of
        Inl e \<Rightarrow> Inl e
      | Inr _ \<Rightarrow>
     (case validate_count (unat (app_LogicalShardCount (c_App c))) (length (db_Shards (c_DB c))) of
        Inl e \<Rightarrow> Inl e
      | Inr _ \<Rightarrow>
     (if app_Port (c_App c) \<le> 0 \<or> app_Port (c_App c) > 65535 then Inl (ErrNew ''invalid app.port'')
      else if length (sec_HMACSecret (c_Security c)) < 16
      then Inl (ErrNew ''security.hmac_secret must be at least 16 chars'')
      else validate_stripe (c_Stripe c))))"

definition Load :: "(string \<Rightarrow> rawConfig result) \<Rightarrow> (string \<Rightarrow> int result) \<Rightarrow> string \<Rightarrow> Config result" where
  "Load read_yaml ParseDuration path =
     (if path = [] then Inl (ErrNew ''config path is empty'')
      else case read_yaml path of
        Inl e \<Rightarrow> Inl e
      | Inr raw \<Rightarrow>
     (case toConfig ParseDuration raw of
        Inl e \<Rightarrow> Inl (Wrapf ''config'' e)
      | Inr cfg \<Rightarrow>
     (case validate cfg of
        Inl e \<Rightarrow> Inl e
      | Inr _ \<Rightarrow> Inr cfg)))"

section \<open>What an accepted configuration guarantees\<close>

lemma shardCount_bounds: "1 \<le> unat (shardCount v) \<and> unat (shardCount v) \<le> 255"
proof (cases "1 \<le> v \<and> v \<le> 255")
  case True
  then have "unat (word_of_int v :: uint8) = nat v"
    by (simp add: unat_eq_nat_uint uint_word_of_int)
  with True show ?thesis
    by (auto simp: shardCount_def)
qed (auto simp: shardCount_def)

lemma shardCount_pos [simp]: "0 < unat (shardCount v)"
  using shardCount_bounds [of v] by simp

lemma unat_shardCount: "unat (shardCount v) = nat (max 1 (min 255 v))"
proof (cases "1 \<le> v \<and> v \<le> 255")
  case True
  then show ?thesis
    by (auto simp: shardCount_def unat_eq_nat_uint uint_word_of_int)
qed (auto simp: shardCount_def)

lemma validate_shards_Inr_iff: "validate_shards ss = Inr () \<longleftrightarrow> list_all (\<lambda>s. shard_DSN s \<noteq> []) ss"
  by (induction ss) auto

lemma validate_count_Inr_iff: "validate_count L n = Inr () \<longleftrightarrow> n = 0 \<or> n \<le> L \<and> n dvd L"
  by (auto simp: validate_count_def dvd_eq_mod_eq_0)

lemma validate_stripe_Inr_iff:
  "validate_stripe s = Inr () \<longleftrightarrow>
    stripe_Mode s = ''fake'' \<or>
    stripe_Mode s = ''live'' \<and> stripe_SecretKey s \<noteq> [] \<and> stripe_WebhookSecret s \<noteq> []"
  by (auto simp: validate_stripe_def)

lemma validate_Inr_iff:
  "validate c = Inr () \<longleftrightarrow>
    (db_Shards (c_DB c) = [] \<longrightarrow> db_DSN (c_DB c) \<noteq> []) \<and>
    list_all (\<lambda>s. shard_DSN s \<noteq> []) (db_Shards (c_DB c)) \<and>
    validate_count (unat (app_LogicalShardCount (c_App c))) (length (db_Shards (c_DB c))) = Inr () \<and>
    1 \<le> app_Port (c_App c) \<and> app_Port (c_App c) \<le> 65535 \<and>
    16 \<le> length (sec_HMACSecret (c_Security c)) \<and>
    validate_stripe (c_Stripe c) = Inr ()"
  by (auto simp: validate_def validate_shards_Inr_iff [symmetric] split: sum.splits)

lemma toConfig_LogicalShardCount:
  "toConfig pd r = Inr c \<Longrightarrow>
    app_LogicalShardCount (c_App c) = shardCount (intDefault (rapp_LogicalShardCount (r_App r)) 16)"
  by (auto simp: toConfig_def Let_def split: sum.splits)

lemma Load_InrD:
  assumes "Load rd pd path = Inr c"
  shows "validate c = Inr ()" and "1 \<le> unat (app_LogicalShardCount (c_App c))"
  using assms
  by (auto simp: Load_def toConfig_LogicalShardCount Suc_le_eq split: if_splits sum.splits)

end
