(* ===== verification/ShardRouter.thy ===== *)
theory ShardRouter
  imports Config "HOL-Library.Multiset"
begin

text \<open>
  \<^verbatim>\<open>internal/repository/shard_router.go\<close> and \<^verbatim>\<open>internal/repository/mysql.go\<close>: opening the
  physical pools, the table that routes a logical shard index to a pool, and the runner of the
  migrations. A \<^verbatim>\<open>*sql.DB\<close> is a value of a type \<open>'db\<close>; \<^verbatim>\<open>sql.Open\<close>, the ping, the close and the
  execution of a statement, which belong to the driver, are arguments. The locale
  \<open>shard_router\<close> is the contract of the interface \<^verbatim>\<open>ShardRouter\<close>.
\<close>

section \<open>Pools\<close>

definition withClientFoundRows :: "string \<Rightarrow> string" where
  "withClientFoundRows dsn =
     (if dsn = [] \<or> Contains dsn ''clientFoundRows='' then dsn
      else dsn @ (if Contains dsn ''?'' then ''&'' else ''?'') @ ''clientFoundRows=true'')"

record 'db Pool =
  pool_DB :: 'db
  pool_MaxOpenConns :: int
  pool_MaxIdleConns :: int
  pool_ConnMaxIdleTime :: int
  pool_ConnMaxLifetime :: int

text \<open>
  A function that opens pools returns the handles it closed again together with its result.
\<close>

definition openPool ::
  "(string \<Rightarrow> 'db result) \<Rightarrow> ('db \<Rightarrow> unit result) \<Rightarrow> string \<Rightarrow> int \<Rightarrow> int \<Rightarrow> 'db list \<times> 'db Pool result" where
  "openPool sqlOpen ping dsn maxOpen maxIdle =
     (case sqlOpen (withClientFoundRows dsn) of
        Inl e \<Rightarrow> ([], Inl (Wrapf ''open mysql'' e))
      | Inr db \<Rightarrow>
          (case ping db of
             Inl e \<Rightarrow> ([db], Inl (Wrapf ''ping mysql'' e))
           | Inr _ \<Rightarrow>
               ([], Inr \<lparr>pool_DB = db, pool_MaxOpenConns = maxOpen, pool_MaxIdleConns = maxIdle,
                         pool_ConnMaxIdleTime = 5 * 60 * 1000000000,
                         pool_ConnMaxLifetime = 30 * 60 * 1000000000\<rparr>)))"

definition OpenMySQL ::
  "(string \<Rightarrow> 'db result) \<Rightarrow> ('db \<Rightarrow> unit result) \<Rightarrow> DBConfig \<Rightarrow> 'db list \<times> 'db Pool result" where
  "OpenMySQL sqlOpen ping cfg =
     openPool sqlOpen ping (db_DSN cfg) (db_MaxOpenConns cfg) (db_MaxIdleConns cfg)"

section \<open>The router\<close>

record 'p multiShardRouter =
  pools :: "'p list"
  logicalToDB :: "'p list"
  logicalCount :: uint8

definition effective_shards :: "DBConfig \<Rightarrow> ShardDBConfig list" where
  "effective_shards cfg =
     (if length (db_Shards cfg) = 0
      then [\<lparr>shard_DSN = db_DSN cfg, shard_MaxOpenConns = db_MaxOpenConns cfg,
             shard_MaxIdleConns = db_MaxIdleConns cfg\<rparr>]
      else db_Shards cfg)"

text \<open>The opening loop: \<open>opened\<close> are the pools opened so far, all closed again on a failure.\<close>

fun open_pools ::
  "(string \<Rightarrow> int \<Rightarrow> int \<Rightarrow> 'db list \<times> 'db Pool result) \<Rightarrow> DBConfig \<Rightarrow> ShardDBConfig list \<Rightarrow>
    'db Pool list \<Rightarrow> 'db list \<times> 'db Pool list result" where
  "open_pools open1 cfg [] opened = ([], Inr opened)"
| "open_pools open1 cfg (sc # scs) opened =
     (let mopen = (if shard_MaxOpenConns sc = 0 then db_MaxOpenConns cfg else shard_MaxOpenConns sc);
          midle = (if shard_MaxIdleConns sc = 0 then db_MaxIdleConns cfg else shard_MaxIdleConns sc)
      in case open1 (shard_DSN sc) mopen midle of
           (closed, Inl e) \<Rightarrow> (closed @ map pool_DB opened, Inl (Wrapf ''shard'' e))
         | (closed, Inr db) \<Rightarrow> open_pools open1 cfg scs (opened @ [db]))"

text \<open>
  The routing table. Its loop counter is a \<^verbatim>\<open>uint8\<close> below \<^verbatim>\<open>logicalCount\<close>, which is at most
  255, so it does not wrap.
\<close>

definition route_table :: "'p list \<Rightarrow> uint8 \<Rightarrow> 'p list" where
  "route_table ps L = map (\<lambda>i. ps ! (i * length ps div unat L)) [0..<unat L]"

definition OpenShards ::
  "(string \<Rightarrow> 'db result) \<Rightarrow> ('db \<Rightarrow> unit result) \<Rightarrow> DBConfig \<Rightarrow> uint8 \<Rightarrow>
    'db list \<times> 'db Pool multiShardRouter result" where
  "OpenShards sqlOpen ping cfg L =
     (if L = 0 then ([], Inl (ErrNew ''logicalCount must be > 0''))
      else let shardCfgs = effective_shards cfg; n = length shardCfgs
      in if unat L < n then ([], Inl (ErrNew ''logical_shard_count < len(shards)''))
         else if unat L mod n \<noteq> 0
         then ([], Inl (ErrNew ''logical_shard_count not divisible by len(shards)''))
         else (case open_pools (openPool sqlOpen ping) cfg shardCfgs [] of
                 (closed, Inl e) \<Rightarrow> (closed, Inl e)
               | (closed, Inr ps) \<Rightarrow>
                   (closed, Inr \<lparr>pools = ps, logicalToDB = route_table ps L, logicalCount = L\<rparr>)))"

definition router_For :: "'p multiShardRouter \<Rightarrow> uint8 \<Rightarrow> 'p result" where
  "router_For r shardIndex =
     (if shardIndex \<ge> logicalCount r then Inl (Wrapf ''router'' (Sentinel ErrUnknownShard))
      else Inr (logicalToDB r ! unat shardIndex))"

definition router_All :: "'p multiShardRouter \<Rightarrow> 'p list" where
  "router_All r = pools r"

definition router_Control :: "'p multiShardRouter \<Rightarrow> 'p" where
  "router_Control r = pools r ! 0"

definition router_LogicalCount :: "'p multiShardRouter \<Rightarrow> uint8" where
  "router_LogicalCount r = logicalCount r"

text \<open>\<open>Close\<close> closes every pool and returns the first error.\<close>

fun close_pools :: "('p \<Rightarrow> unit result) \<Rightarrow> 'p list \<Rightarrow> goerr option \<Rightarrow> goerr option" where
  "close_pools close1 [] firstErr = firstErr"
| "close_pools close1 (db # dbs) firstErr =
     close_pools close1 dbs
       (case close1 db of Inl e \<Rightarrow> (if firstErr = None then Some e else firstErr) | Inr _ \<Rightarrow> firstErr)"

definition router_Close :: "('p \<Rightarrow> unit result) \<Rightarrow> 'p multiShardRouter \<Rightarrow> unit result" where
  "router_Close close1 r = (case close_pools close1 (pools r) None of Some e \<Rightarrow> Inl e | None \<Rightarrow> Inr ())"

definition NewSingleShardRouter :: "'p \<Rightarrow> uint8 \<Rightarrow> 'p multiShardRouter" where
  "NewSingleShardRouter db L =
     (let L = (if L = 0 then 1 else L)
      in \<lparr>pools = [db], logicalToDB = replicate (unat L) db, logicalCount = L\<rparr>)"

text \<open>
  \<^verbatim>\<open>physicalToFirstLogical\<close> of \<^verbatim>\<open>transaction_repo.go\<close>: the first logical index of each physical
  pool, which the scatter-gather reads stamp on the rows they find. A router has at least one
  pool, so the division by zero of the source at no pools does not arise.
\<close>

definition physicalToFirstLogical :: "'p multiShardRouter \<Rightarrow> nat \<Rightarrow> uint8 list" where
  "physicalToFirstLogical r physicalCount =
     map (\<lambda>i. of_nat (i * (unat (router_LogicalCount r) div physicalCount))) [0..<physicalCount]"

fun ping_all :: "('p \<Rightarrow> unit result) \<Rightarrow> 'p list \<Rightarrow> unit result" where
  "ping_all ping [] = Inr ()"
| "ping_all ping (db # dbs) = (case ping db of Inl e \<Rightarrow> Inl (Wrapf ''shard'' e) | Inr _ \<Rightarrow> ping_all ping dbs)"

definition ShardRouterPinger_Ping :: "('p \<Rightarrow> unit result) \<Rightarrow> 'p multiShardRouter \<Rightarrow> unit result" where
  "ShardRouterPinger_Ping ping r = ping_all ping (router_All r)"

section \<open>Migrations\<close>

definition is_comment_line :: "string \<Rightarrow> bool" where
  "is_comment_line line \<longleftrightarrow> HasPrefix (dropWhile (\<lambda>c. c = CHR '' '' \<or> c = CHR 0x09) line) ''--''"

definition sanitize :: "string \<Rightarrow> string" where
  "sanitize body =
     concat (map (\<lambda>line. line @ [CHR 0x0A])
       (filter (\<lambda>line. \<not> is_comment_line line) (Split body (CHR 0x0A))))"

definition splitSQLStatements :: "string \<Rightarrow> string list" where
  "splitSQLStatements body = filter (\<lambda>s. s \<noteq> []) (map TrimSpace (Split (sanitize body) CHR '';''))"

text \<open>The three nested loops of \<open>RunMigrationsAll\<close>, with the state \<open>'s\<close> of the databases.\<close>

fun exec_stmts :: "(string \<Rightarrow> 's \<Rightarrow> 's \<times> unit result) \<Rightarrow> string list \<Rightarrow> 's \<Rightarrow> 's \<times> unit result" where
  "exec_stmts exec [] s = (s, Inr ())"
| "exec_stmts exec (stmt # stmts) s =
     (case exec stmt s of
        (s', Inl e) \<Rightarrow> (s', Inl (Wrapf ''apply'' e))
      | (s', Inr _) \<Rightarrow> exec_stmts exec stmts s')"

fun exec_pools :: "('p \<Rightarrow> string \<Rightarrow> 's \<Rightarrow> 's \<times> unit result) \<Rightarrow> string list \<Rightarrow> 'p list \<Rightarrow> 's \<Rightarrow> 's \<times> unit result" where
  "exec_pools exec stmts [] s = (s, Inr ())"
| "exec_pools exec stmts (db # dbs) s =
     (case exec_stmts (exec db) stmts s of
        (s', Inl e) \<Rightarrow> (s', Inl e)
      | (s', Inr _) \<Rightarrow> exec_pools exec stmts dbs s')"

fun exec_files ::
  "('p \<Rightarrow> string \<Rightarrow> 's \<Rightarrow> 's \<times> unit result) \<Rightarrow> 'p list \<Rightarrow> string result list \<Rightarrow> 's \<Rightarrow> 's \<times> unit result" where
  "exec_files exec ps [] s = (s, Inr ())"
| "exec_files exec ps (f # fs) s =
     (case f of
        Inl e \<Rightarrow> (s, Inl (Wrapf ''read'' e))
      | Inr body \<Rightarrow>
          (case exec_pools exec (splitSQLStatements body) ps s of
             (s', Inl e) \<Rightarrow> (s', Inl e)
           | (s', Inr _) \<Rightarrow> exec_files exec ps fs s'))"

definition RunMigrationsAll ::
  "('p \<Rightarrow> string \<Rightarrow> 's \<Rightarrow> 's \<times> unit result) \<Rightarrow> 'p multiShardRouter \<Rightarrow> string result list \<Rightarrow> 's \<Rightarrow> 's \<times> unit result" where
  "RunMigrationsAll exec r files s = exec_files exec (router_All r) files s"

section \<open>The contract of a shard router\<close>

locale shard_router =
  fixes invar :: "'r \<Rightarrow> bool"
    and For :: "'r \<Rightarrow> uint8 \<Rightarrow> 'p result"
    and All :: "'r \<Rightarrow> 'p list"
    and Control :: "'r \<Rightarrow> 'p"
    and LogicalCount :: "'r \<Rightarrow> uint8"
    and first_logical :: "'r \<Rightarrow> nat \<Rightarrow> uint8 list"
  assumes some_pool: "invar r \<Longrightarrow> All r \<noteq> []"
    and control: "invar r \<Longrightarrow> Control r = All r ! 0"
    and for_known: "invar r \<Longrightarrow> i < LogicalCount r \<Longrightarrow> \<exists>p < length (All r). For r i = Inr (All r ! p)"
    and for_unknown: "invar r \<Longrightarrow> LogicalCount r \<le> i \<Longrightarrow> \<exists>e. For r i = Inl e \<and> errors_Is e ErrUnknownShard"
    and first_length: "invar r \<Longrightarrow> length (first_logical r (length (All r))) = length (All r)"
    and for_first: "invar r \<Longrightarrow> p < length (All r) \<Longrightarrow>
      For r (first_logical r (length (All r)) ! p) = Inr (All r ! p)"
begin

lemma for_in_all: "invar r \<Longrightarrow> For r i = Inr db \<Longrightarrow> db \<in> set (All r)"
  using for_known [of r i] for_unknown [of r i] by (cases "i < LogicalCount r") (auto simp: not_less)

lemma for_total_iff: "invar r \<Longrightarrow> (\<exists>db. For r i = Inr db) \<longleftrightarrow> i < LogicalCount r"
  using for_known [of r i] for_unknown [of r i] by (cases "i < LogicalCount r") (auto simp: not_less)

lemma every_pool_routed: "invar r \<Longrightarrow> db \<in> set (All r) \<Longrightarrow> \<exists>i < LogicalCount r. For r i = Inr db"
  using for_first for_total_iff by (metis in_set_conv_nth)

lemma for_first_all: "invar r \<Longrightarrow> map (For r) (first_logical r (length (All r))) = map Inr (All r)"
  by (rule nth_equalityI) (simp_all add: first_length for_first)

end

section \<open>Well-formed routers\<close>

definition wf_router :: "'p multiShardRouter \<Rightarrow> bool" where
  "wf_router r \<longleftrightarrow>
     pools r \<noteq> [] \<and> logicalCount r \<noteq> 0 \<and> length (pools r) dvd unat (logicalCount r) \<and>
     logicalToDB r = route_table (pools r) (logicalCount r)"

lemma block_div:
  assumes "(n :: nat) dvd L" and "L \<noteq> 0"
  shows "i * n div L = i div (L div n)" and "0 < L div n" and "0 < n" and "n * (L div n) = L"
  using assms by auto

lemma block_less: "(n :: nat) dvd L \<Longrightarrow> L \<noteq> 0 \<Longrightarrow> i < L \<Longrightarrow> i div (L div n) < n"
  by (metis block_div(2,4) div_less_iff_less_mult)

lemma router_For_wf:
  assumes "wf_router r" and "i < logicalCount r"
  shows "router_For r i = Inr (pools r ! (unat i div (unat (logicalCount r) div length (pools r))))"
    and "unat i div (unat (logicalCount r) div length (pools r)) < length (pools r)"
proof -
  have "unat i < unat (logicalCount r)" and "unat (logicalCount r) \<noteq> 0"
    using assms by (simp_all add: word_less_nat_alt wf_router_def unat_eq_zero)
  with assms show "router_For r i = Inr (pools r ! (unat i div (unat (logicalCount r) div length (pools r))))"
    and "unat i div (unat (logicalCount r) div length (pools r)) < length (pools r)"
    by (auto simp: router_For_def wf_router_def route_table_def block_div intro: block_less)
qed

lemma first_logical_unat:
  assumes "wf_router r" and "p < length (pools r)"
  shows "unat (physicalToFirstLogical r (length (pools r)) ! p) =
      p * (unat (logicalCount r) div length (pools r))" (is "_ = p * ?k")
    and "physicalToFirstLogical r (length (pools r)) ! p < logicalCount r"
proof -
  have L: "unat (logicalCount r) \<noteq> 0" "length (pools r) dvd unat (logicalCount r)"
    using assms by (simp_all add: wf_router_def unat_eq_zero)
  have "p * ?k < length (pools r) * ?k"
    using assms block_div(2) [OF L(2,1)] by simp
  then have less: "p * ?k < unat (logicalCount r)"
    using block_div(4) [OF L(2,1)] by simp
  also have "\<dots> < 256"
    by simp
  finally show un: "unat (physicalToFirstLogical r (length (pools r)) ! p) = p * ?k"
    using assms by (simp add: physicalToFirstLogical_def router_LogicalCount_def unat_of_nat del: of_nat_mult)
  show "physicalToFirstLogical r (length (pools r)) ! p < logicalCount r"
    using less un by (simp add: word_less_nat_alt)
qed

interpretation rt: shard_router wf_router router_For router_All router_Control router_LogicalCount
  physicalToFirstLogical
proof unfold_locales
  fix r :: "'p multiShardRouter" and i p
  assume wf: "wf_router r"
  then show "router_All r \<noteq> []" and "router_Control r = router_All r ! 0"
    by (simp_all add: wf_router_def router_All_def router_Control_def)
  show "length (physicalToFirstLogical r (length (router_All r))) = length (router_All r)"
    by (simp add: physicalToFirstLogical_def)
  show "\<exists>p<length (router_All r). router_For r i = Inr (router_All r ! p)"
    if "i < router_LogicalCount r"
    using router_For_wf [OF wf] that by (auto simp: router_LogicalCount_def router_All_def)
  show "\<exists>e. router_For r i = Inl e \<and> errors_Is e ErrUnknownShard" if "router_LogicalCount r \<le> i"
    using that by (simp add: router_For_def router_LogicalCount_def)
  show "router_For r (physicalToFirstLogical r (length (router_All r)) ! p) = Inr (router_All r ! p)"
    if p: "p < length (router_All r)"
  proof -
    have "0 < unat (logicalCount r) div length (pools r)"
      using wf block_div(2) [of "length (pools r)" "unat (logicalCount r)"]
      by (simp add: wf_router_def unat_eq_zero)
    then show ?thesis
      using router_For_wf(1) [OF wf first_logical_unat(2) [OF wf]] first_logical_unat(1) [OF wf] p
      by (simp add: router_All_def)
  qed
qed

section \<open>What OpenShards returns\<close>

lemma wf_NewSingleShardRouter: "wf_router (NewSingleShardRouter db L)"
  by (auto simp: wf_router_def NewSingleShardRouter_def Let_def route_table_def intro!: nth_equalityI)

lemma open_pools_Inr:
  "open_pools open1 cfg scs opened = (closed, Inr ps) \<Longrightarrow> closed = [] \<and> length ps = length opened + length scs"
proof (induction scs arbitrary: opened)
  case (Cons sc scs)
  then show ?case
    by (fastforce simp: Let_def split: prod.splits sum.splits)
qed simp

lemma OpenShards_Inr:
  assumes "OpenShards sqlOpen ping cfg L = (closed, Inr r)"
  shows "wf_router r" and "closed = []" and "logicalCount r = L"
    and "length (pools r) = length (effective_shards cfg)"
proof -
  have ne: "effective_shards cfg \<noteq> []"
    by (simp add: effective_shards_def)
  obtain ps where ps: "open_pools (openPool sqlOpen ping) cfg (effective_shards cfg) [] = (closed, Inr ps)"
    and r: "r = \<lparr>pools = ps, logicalToDB = route_table ps L, logicalCount = L\<rparr>"
    and L: "L \<noteq> 0" "unat L mod length (effective_shards cfg) = 0"
    using assms by (auto simp: OpenShards_def Let_def split: if_splits prod.splits sum.splits)
  from open_pools_Inr [OF ps] have "closed = []" and len: "length ps = length (effective_shards cfg)"
    by simp_all
  then show "wf_router r" and "closed = []" and "logicalCount r = L"
    and "length (pools r) = length (effective_shards cfg)"
    using r L ne by (auto simp: wf_router_def dvd_eq_mod_eq_0)
qed

text \<open>The handles \<^verbatim>\<open>sql.Open\<close> returned for a list of shards.\<close>

definition opened_handles :: "(string \<Rightarrow> 'db result) \<Rightarrow> ShardDBConfig list \<Rightarrow> 'db list" where
  "opened_handles sqlOpen scs =
     concat (map (\<lambda>sc. case sqlOpen (withClientFoundRows (shard_DSN sc)) of Inl _ \<Rightarrow> [] | Inr db \<Rightarrow> [db]) scs)"

lemma openPool_cases:
  obtains (open_fails) e where "sqlOpen (withClientFoundRows dsn) = Inl e"
      "openPool sqlOpen ping dsn a b = ([], Inl (Wrapf ''open mysql'' e))"
  | (ping_fails) db e where "sqlOpen (withClientFoundRows dsn) = Inr db" "ping db = Inl e"
      "openPool sqlOpen ping dsn a b = ([db], Inl (Wrapf ''ping mysql'' e))"
  | (ok) db p where "sqlOpen (withClientFoundRows dsn) = Inr db" "ping db = Inr ()"
      "openPool sqlOpen ping dsn a b = ([], Inr p)" "pool_DB p = db"
  by (cases "sqlOpen (withClientFoundRows dsn)"; cases "ping (projr (sqlOpen (withClientFoundRows dsn)))")
    (auto simp: openPool_def)

lemma open_pools_Inl:
  "open_pools (openPool sqlOpen ping) cfg scs opened = (closed, Inl e) \<Longrightarrow>
    \<exists>k < length scs. mset closed = mset (map pool_DB opened) + mset (opened_handles sqlOpen (take (Suc k) scs))"
proof (induction scs arbitrary: opened)
  case (Cons sc scs)
  define a where "a = (if shard_MaxOpenConns sc = 0 then db_MaxOpenConns cfg else shard_MaxOpenConns sc)"
  define b where "b = (if shard_MaxIdleConns sc = 0 then db_MaxIdleConns cfg else shard_MaxIdleConns sc)"
  show ?case
  proof (cases rule: openPool_cases [of sqlOpen "shard_DSN sc" ping a b])
    case (open_fails e')
    with Cons.prems show ?thesis
      by (intro exI [of _ 0]) (auto simp: Let_def a_def b_def opened_handles_def)
  next
    case (ping_fails db e')
    with Cons.prems show ?thesis
      by (intro exI [of _ 0]) (auto simp: Let_def a_def b_def opened_handles_def)
  next
    case (ok db p)
    with Cons.prems have "open_pools (openPool sqlOpen ping) cfg scs (opened @ [p]) = (closed, Inl e)"
      by (simp add: Let_def a_def b_def)
    from Cons.IH [OF this] ok show ?thesis
      by (auto simp: opened_handles_def)
  qed
qed simp

lemma open_pools_all_ok:
  "list_all (\<lambda>sc. \<exists>db. sqlOpen (withClientFoundRows (shard_DSN sc)) = Inr db \<and> ping db = Inr ()) scs \<Longrightarrow>
    \<exists>ps. open_pools (openPool sqlOpen ping) cfg scs opened = ([], Inr ps)"
  by (induction scs arbitrary: opened) (auto simp: openPool_def Let_def)

text \<open>C33. The routing table is a partition of the logical shards into equal consecutive blocks:
  when \<^verbatim>\<open>OpenShards\<close> succeeds for \<open>n\<close> shards and \<open>L\<close> logical indexes, index \<open>i < L\<close> is served by the
  pool \<open>i div (L div n)\<close>, an index beyond \<open>L\<close> is refused with \<^verbatim>\<open>ErrUnknownShard\<close>, nothing opened
  has been closed, and the first logical index computed for a pool routes back to that pool.\<close>

theorem OpenShards_partition:
  assumes "OpenShards sqlOpen ping cfg L = (closed, Inr r)"
  shows "closed = [] \<and> length (router_All r) = length (effective_shards cfg) \<and>
    (\<forall>i. router_For r i =
       (if i < L then Inr (router_All r ! (unat i div (unat L div length (router_All r))))
        else Inl (Wrapf ''router'' (Sentinel ErrUnknownShard)))) \<and>
    map (router_For r) (physicalToFirstLogical r (length (router_All r))) = map Inr (router_All r)"
  using OpenShards_Inr [OF assms] router_For_wf(1) [of r] rt.for_first_all [of r]
  by (auto simp: router_All_def router_For_def not_less)

text \<open>Three shards of a 12-way configuration whose driver opens every DSN.\<close>

definition demo_db :: DBConfig where
  "demo_db = \<lparr>db_DSN = [], db_MaxOpenConns = 100, db_MaxIdleConns = 25,
     db_Shards = map (\<lambda>d. \<lparr>shard_DSN = d, shard_MaxOpenConns = 0, shard_MaxIdleConns = 5\<rparr>) [''a'', ''b'', ''c'']\<rparr>"

theorem OpenShards_partition_witness:
  "\<exists>r. OpenShards Inr (\<lambda>_. Inr ()) demo_db 12 = ([], Inr r) \<and>
    length (router_All r) = 3 \<and> router_For r 7 = Inr (router_All r ! 1) \<and>
    router_For r 12 = Inl (Wrapf ''router'' (Sentinel ErrUnknownShard))"
proof -
  obtain r where r: "OpenShards Inr (\<lambda>_. Inr ()) demo_db 12 = ([], Inr r)"
    by (simp add: OpenShards_def demo_db_def effective_shards_def openPool_def Let_def)
  from OpenShards_partition [OF r] show ?thesis
    using r by (auto simp: demo_db_def effective_shards_def)
qed

text \<open>A failed start leaks no connection: when \<^verbatim>\<open>OpenShards\<close> fails after its count checks, the
  handles it closed are exactly the handles \<^verbatim>\<open>sql.Open\<close> had returned for the shards up to and
  including the failing one, each closed once.\<close>

theorem OpenShards_rollback:
  assumes "OpenShards sqlOpen ping cfg L = (closed, Inl e)"
    and "L \<noteq> 0" and "length (effective_shards cfg) dvd unat L"
  shows "\<exists>k < length (effective_shards cfg).
    mset closed = mset (opened_handles sqlOpen (take (Suc k) (effective_shards cfg)))"
proof -
  have "length (effective_shards cfg) \<le> unat L"
    using assms by (simp add: dvd_imp_le unat_gt_0)
  then have "open_pools (openPool sqlOpen ping) cfg (effective_shards cfg) [] = (closed, Inl e)"
    using assms by (auto simp: OpenShards_def Let_def dvd_eq_mod_eq_0 split: if_splits prod.splits sum.splits)
  from open_pools_Inl [OF this] show ?thesis
    by simp
qed

definition demo_ping :: "string \<Rightarrow> unit result" where
  "demo_ping db = (if HasPrefix db ''c'' then Inl (ErrNew ''refused'') else Inr ())"

theorem OpenShards_rollback_witness:
  "OpenShards Inr demo_ping demo_db 12 =
     ([''c?clientFoundRows=true'', ''a?clientFoundRows=true'', ''b?clientFoundRows=true''],
      Inl (Wrapf ''shard'' (Wrapf ''ping mysql'' (ErrNew ''refused'')))) \<and>
   (\<exists>k < 3. mset [''c?clientFoundRows=true'', ''a?clientFoundRows=true'', ''b?clientFoundRows=true''] =
     mset (opened_handles Inr (take (Suc k) (effective_shards demo_db))))"
proof -
  have o: "OpenShards Inr demo_ping demo_db 12 =
     ([''c?clientFoundRows=true'', ''a?clientFoundRows=true'', ''b?clientFoundRows=true''],
      Inl (Wrapf ''shard'' (Wrapf ''ping mysql'' (ErrNew ''refused''))))"
    by (simp add: OpenShards_def demo_db_def effective_shards_def openPool_def Let_def demo_ping_def
        withClientFoundRows_def)
  have n: "length (effective_shards demo_db) = 3"
    by (simp add: demo_db_def effective_shards_def)
  show ?thesis
    using OpenShards_rollback [OF o] o unfolding n by simp
qed

text \<open>An accepted configuration always yields a router: if \<^verbatim>\<open>Load\<close> returns a configuration and
  every configured database opens and answers its ping, \<^verbatim>\<open>OpenShards\<close> returns a well-formed router
  over the configured logical shards, so the count checks it repeats never fire.\<close>

theorem Load_OpenShards:
  assumes "Load read_yaml ParseDuration path = Inr c"
    and "list_all (\<lambda>sc. \<exists>db. sqlOpen (withClientFoundRows (shard_DSN sc)) = Inr db \<and> ping db = Inr ())
      (effective_shards (c_DB c))"
  shows "\<exists>r. OpenShards sqlOpen ping (c_DB c) (app_LogicalShardCount (c_App c)) = ([], Inr r) \<and>
    wf_router r \<and> logicalCount r = app_LogicalShardCount (c_App c)"
proof -
  let ?L = "app_LogicalShardCount (c_App c)" and ?n = "length (effective_shards (c_DB c))"
  have L: "?L \<noteq> 0"
    using Load_InrD(2) [OF assms(1)] by auto
  have "?n dvd unat ?L \<and> ?n \<le> unat ?L"
    using Load_InrD [OF assms(1)]
    by (auto simp: validate_Inr_iff validate_count_Inr_iff effective_shards_def)
  then obtain r where "OpenShards sqlOpen ping (c_DB c) ?L = ([], Inr r)"
    using L open_pools_all_ok [OF assms(2), of "c_DB c" "[]"]
    by (auto simp: OpenShards_def Let_def dvd_eq_mod_eq_0)
  with OpenShards_Inr [OF this] show ?thesis
    by blast
qed

definition demo_raw :: rawConfig where
  "demo_raw = \<lparr>
     r_App = \<lparr>rapp_Env = [], rapp_Port = 0, rapp_LogLevel = [], rapp_PublicBaseURL = ''https://pay.example/'',
       rapp_LazyCheckout = True, rapp_CheckoutTokenSecret = ''s'', rapp_CheckoutTokenTTL = [],
       rapp_StripeRateLimit = 0, rapp_CheckoutDefaultSuccessURL = [], rapp_CheckoutDefaultCancelURL = [],
       rapp_LogicalShardCount = 12\<rparr>,
     r_DB = \<lparr>rdb_DSN = [], rdb_MaxOpenConns = 0, rdb_MaxIdleConns = 0,
       rdb_Shards = map (\<lambda>d. \<lparr>rshard_DSN = d, rshard_MaxOpenConns = 0, rshard_MaxIdleConns = 5\<rparr>) [''a'', ''b'', ''c'']\<rparr>,
     r_Redis = \<lparr>rredis_Addr = [], rredis_Password = [], rredis_DB = 0\<rparr>,
     r_Kafka = \<lparr>rkafka_Brokers = [], rkafka_TopicConfirmed = [], rkafka_TopicDLQ = [], rkafka_ConsumerGroup = []\<rparr>,
     r_Stripe = \<lparr>rstripe_SecretKey = [], rstripe_PublishableKey = [], rstripe_WebhookSecret = [],
       rstripe_APIVersion = [], rstripe_DefaultCurrency = [], rstripe_Mode = ''fake''\<rparr>,
     r_Blockchain = \<lparr>rchain_RPCWebsocket = [], rchain_RPCHTTP = [], rchain_ContractAddress = [], rchain_ChainID = 0,
       rchain_RequiredConfirmations = 0, rchain_StartBlock = 0\<rparr>,
     r_Security = \<lparr>rsec_HMACSecret = ''0123456789abcdef'', rsec_HMACTimestampSkew = [], rsec_AdminAPIKey = []\<rparr>\<rparr>"

lemma demo_Load:
  "\<exists>c. Load (\<lambda>_. Inr demo_raw) (\<lambda>_. Inl (ErrNew ''no duration'')) ''config.yaml'' = Inr c \<and>
    c_DB c = demo_db \<and> app_LogicalShardCount (c_App c) = 12"
  by (simp add: Load_def toConfig_def demo_raw_def demo_db_def Let_def parseDurationDefault_def validate_def
      validate_count_def validate_stripe_def intDefault_def shardCount_def stringDefault_def toShardDBConfigs_def)

theorem Load_OpenShards_witness:
  "\<exists>c r. Load (\<lambda>_. Inr demo_raw) (\<lambda>_. Inl (ErrNew ''no duration'')) ''config.yaml'' = Inr c \<and>
    OpenShards Inr (\<lambda>_. Inr ()) (c_DB c) (app_LogicalShardCount (c_App c)) = ([], Inr r) \<and>
    wf_router r \<and> logicalCount r = 12"
proof -
  obtain c where c: "Load (\<lambda>_. Inr demo_raw) (\<lambda>_. Inl (ErrNew ''no duration'')) ''config.yaml'' = Inr c"
    and "app_LogicalShardCount (c_App c) = 12"
    using demo_Load by blast
  then show ?thesis
    using Load_OpenShards [OF c, of Inr "\<lambda>_. Inr ()"] by (auto simp: list_all_iff)
qed

section \<open>DSN flag and statement splitting\<close>

lemma Contains_append: "Contains (a @ sub @ b) sub"
  by (auto simp: Contains_iff)

lemma withClientFoundRows_idem: "withClientFoundRows (withClientFoundRows dsn) = withClientFoundRows dsn"
proof -
  have "Contains (dsn @ q @ ''clientFoundRows=true'') ''clientFoundRows=''" for q
    using Contains_append [of "dsn @ q" "''clientFoundRows=''" "''true''"] by simp
  then show ?thesis
    by (simp add: withClientFoundRows_def)
qed

lemma TrimSpace_no_space:
  "TrimSpace s \<noteq> [] \<Longrightarrow> \<not> is_space (hd (TrimSpace s)) \<and> \<not> is_space (last (TrimSpace s))"
proof -
  assume ne: "TrimSpace s \<noteq> []"
  let ?t = "dropWhile is_space s"
  from ne have r: "dropWhile is_space (rev ?t) \<noteq> []"
    by (simp only: TrimSpace_def rev_is_Nil_conv not_False_eq_True)
  then have t: "?t \<noteq> []"
    by (metis dropWhile.simps(1) rev.simps(1))
  have "takeWhile is_space (rev ?t) @ dropWhile is_space (rev ?t) = rev ?t"
    by simp
  then have "rev (dropWhile is_space (rev ?t)) @ rev (takeWhile is_space (rev ?t)) = ?t"
    by (metis rev_append rev_rev_ident)
  then have "hd (TrimSpace s) = hd ?t"
    using r unfolding TrimSpace_def by (metis hd_append2 rev_is_Nil_conv)
  moreover have "last (TrimSpace s) = hd (dropWhile is_space (rev ?t))"
    using r by (simp add: TrimSpace_def last_rev)
  ultimately show ?thesis
    using hd_dropWhile [OF t] hd_dropWhile [OF r] by simp
qed

lemma set_TrimSpace: "set (TrimSpace s) \<subseteq> set s"
  unfolding TrimSpace_def by (metis set_dropWhileD set_rev subsetI)

text \<open>The statements handed to the databases are clean: none is empty, none contains a
  semicolon, none begins or ends with white space, and a comment line in front of the file, even
  one that contains semicolons, does not change them.\<close>

theorem splitSQLStatements_clean:
  "list_all (\<lambda>s. s \<noteq> [] \<and> CHR '';'' \<notin> set s \<and> \<not> is_space (hd s) \<and> \<not> is_space (last s)) (splitSQLStatements body) \<and>
   (is_comment_line line \<and> CHR 0x0A \<notin> set line \<longrightarrow>
     splitSQLStatements (line @ CHR 0x0A # body) = splitSQLStatements body)"
proof (intro conjI impI)
  have "s \<in> set (splitSQLStatements body) \<Longrightarrow>
      s \<noteq> [] \<and> CHR '';'' \<notin> set s \<and> \<not> is_space (hd s) \<and> \<not> is_space (last s)" for s
    using TrimSpace_no_space set_TrimSpace Split_no_sep by (fastforce simp: splitSQLStatements_def)
  then show "list_all (\<lambda>s. s \<noteq> [] \<and> CHR '';'' \<notin> set s \<and> \<not> is_space (hd s) \<and> \<not> is_space (last s))
      (splitSQLStatements body)"
    by (simp add: list_all_iff)
qed (simp add: splitSQLStatements_def sanitize_def Split_append)

theorem splitSQLStatements_clean_witness:
  "splitSQLStatements (''-- a; b'' @ CHR 0x0A # ''SELECT 1;'') = [''SELECT 1'']"
  using splitSQLStatements_clean [of "''SELECT 1;''" "''-- a; b''"]
  by (simp add: is_comment_line_def splitSQLStatements_def sanitize_def go_defs)

end
