(* ===== verification/TransactionRepo.thy ===== *)
theory TransactionRepo
  imports Codec ShardRouter "HOL-Library.Char_ord" "HOL-Library.List_Lexorder"
begin

text \<open>
  \<^verbatim>\<open>internal/repository/transaction_repo.go\<close> over a model of the \<^verbatim>\<open>transactions\<close> table of
  \<^verbatim>\<open>migrations/001\<close>. Every pool of the router is a list of rows in primary-key order, and a
  statement of the source is a function on it:

  \<^item> \<^verbatim>\<open>INSERT\<close> appends a row, unless \<^verbatim>\<open>transaction_id\<close> (the only unique key) is taken or a value
    is longer than its column (strict mode);
  \<^item> \<^verbatim>\<open>SELECT ... LIMIT 1\<close> returns the first matching row;
  \<^item> \<^verbatim>\<open>UPDATE\<close> rewrites the matching rows and reports how many matched, as \<^verbatim>\<open>clientFoundRows=true\<close>
    makes it.

  What the database server decides is the environment \<open>db_env\<close>: equality of the \<^verbatim>\<open>VARCHAR\<close> columns
  under the collation of the schema, the instant a \<^verbatim>\<open>TIMESTAMP\<close> column stores, the statements that
  fail, the clock, and the order in which the answers of a scatter-gather arrive. Statements are
  numbered; the environment is a function of the number.
\<close>

section \<open>The table\<close>

record txn_row =
  row_transaction_id :: string
  row_merchant_id :: string
  row_order_id :: string
  row_amount :: uint64
  row_currency_code :: uint16
  row_status :: uint8
  row_payment_method :: uint8
  row_stripe_pi_id :: "string option"
  row_stripe_session :: "string option"
  row_created_at :: int
  row_updated_at :: int

record db_env =
  env_coll :: "string \<Rightarrow> string \<Rightarrow> bool"
  env_timestamp :: "int \<Rightarrow> int"
  env_fault :: "nat \<Rightarrow> nat \<Rightarrow> goerr option"
  env_clock :: "nat \<Rightarrow> int"
  env_arrival :: "nat \<Rightarrow> nat list"

record txn_store =
  tables :: "nat \<Rightarrow> txn_row list"
  stmts :: nat

definition step_store :: "'a txn_store_scheme \<Rightarrow> 'a txn_store_scheme" where
  "step_store s = s\<lparr>stmts := Suc (stmts s)\<rparr>"

text \<open>The texts of the driver's errors for \<^verbatim>\<open>ER_DUP_ENTRY\<close> and \<^verbatim>\<open>ER_DATA_TOO_LONG\<close>.\<close>

definition dup_entry :: goerr where
  "dup_entry = ErrNew ''Error 1062 (23000): Duplicate entry for key uniq_transaction_id''"

definition data_too_long :: goerr where
  "data_too_long = ErrNew ''Error 1406 (22001): Data too long for column''"

definition opt_fits :: "nat \<Rightarrow> string option \<Rightarrow> bool" where
  "opt_fits n v \<longleftrightarrow> (case v of None \<Rightarrow> True | Some b \<Rightarrow> length b \<le> n)"

definition row_fits :: "txn_row \<Rightarrow> bool" where
  "row_fits row \<longleftrightarrow> length (row_merchant_id row) \<le> 16 \<and> length (row_order_id row) \<le> 64 \<and>
     opt_fits 64 (row_stripe_pi_id row) \<and> opt_fits 96 (row_stripe_session row)"

definition exec_insert :: "db_env \<Rightarrow> nat \<Rightarrow> txn_row \<Rightarrow> 'a txn_store_scheme \<Rightarrow> 'a txn_store_scheme \<times> unit result" where
  "exec_insert env p row s =
     (case env_fault env (stmts s) p of
        Some e \<Rightarrow> (step_store s, Inl e)
      | None \<Rightarrow>
          if \<not> row_fits row then (step_store s, Inl data_too_long)
          else if row_transaction_id row \<in> row_transaction_id ` set (tables s p)
          then (step_store s, Inl dup_entry)
          else (step_store (s\<lparr>tables := (tables s)(p := tables s p @ [row])\<rparr>), Inr ()))"

definition query_row ::
  "db_env \<Rightarrow> nat \<Rightarrow> (txn_row \<Rightarrow> bool) \<Rightarrow> 'a txn_store_scheme \<Rightarrow> 'a txn_store_scheme \<times> txn_row option result" where
  "query_row env p P s =
     (step_store s,
      case env_fault env (stmts s) p of Some e \<Rightarrow> Inl e | None \<Rightarrow> Inr (find P (tables s p)))"

definition exec_update ::
  "db_env \<Rightarrow> nat \<Rightarrow> (txn_row \<Rightarrow> bool) \<Rightarrow> (txn_row \<Rightarrow> txn_row) \<Rightarrow> 'a txn_store_scheme \<Rightarrow> 'a txn_store_scheme \<times> nat result" where
  "exec_update env p P f s =
     (case env_fault env (stmts s) p of
        Some e \<Rightarrow> (step_store s, Inl e)
      | None \<Rightarrow>
          let hits = filter P (tables s p)
          in if \<not> list_all (\<lambda>row. row_fits (f row)) hits then (step_store s, Inl data_too_long)
             else (step_store (s\<lparr>tables := (tables s)(p := map (\<lambda>row. if P row then f row else row) (tables s p))\<rparr>),
                   Inr (length hits)))"

section \<open>Rows and transactions\<close>

text \<open>\<^verbatim>\<open>err.Error()\<close>.\<close>

fun sentinel_text :: "sentinel \<Rightarrow> string" where
  "sentinel_text ErrInvalidOrderID = ''invalid order_id''"
| "sentinel_text ErrUnknownShard = ''unknown shard_index''"
| "sentinel_text ErrNotFound = ''transaction not found''"
| "sentinel_text ErrDuplicateTransaction = ''duplicate transaction (transaction_id)''"
| "sentinel_text ErrMerchantNotFound = ''merchant not found''"
| "sentinel_text ErrOnchainTxNotFound = ''onchain tx not found''"
| "sentinel_text ErrInvalidRequest = ''invalid request''"
| "sentinel_text ErrUnsupportedMethod = ''unsupported payment method''"
| "sentinel_text ErrTransactionConflict = ''order_id conflicts with existing payment''"
| "sentinel_text ErrWebhookDuplicate = ''duplicate webhook event''"
| "sentinel_text ErrWebhookOrderMissing = ''webhook order_id not found in DB''"
| "sentinel_text ErrOrderNotFound = ''order not found''"
| "sentinel_text ErrOrderNotReady = ''order not yet available''"
| "sentinel_text ErrUnavailable = ''checkout temporarily unavailable''"
| "sentinel_text ErrLockNotAcquired = ''lock not acquired''"
| "sentinel_text ErrRateLimited = ''rate limited''"
| "sentinel_text ErrCircuitOpen = ''stripe circuit breaker open''"
| "sentinel_text ErrSignatureMissing = ''stripe-signature header missing''"
| "sentinel_text ErrSignatureFormat = ''stripe-signature malformed''"
| "sentinel_text ErrSignatureMismatch = ''stripe signature mismatch''"
| "sentinel_text ErrSignatureExpired = ''stripe signature timestamp outside tolerance''"
| "sentinel_text ErrMalformed = ''checkout token malformed''"
| "sentinel_text ErrExpired = ''checkout token expired''"
| "sentinel_text ErrSignature = ''checkout token signature mismatch''"
| "sentinel_text ErrUnexpectedLog = ''log shape does not match PaymentReceived''"
| "sentinel_text ErrOpenState = ''circuit breaker is open''"
| "sentinel_text ErrTooManyRequests = ''too many requests''"
| "sentinel_text Canceled = ''context canceled''"
| "sentinel_text DeadlineExceeded = ''context deadline exceeded''"
| "sentinel_text RedisNil = ''redis: nil''"

fun Error :: "goerr \<Rightarrow> string" where
  "Error (Sentinel s) = sentinel_text s"
| "Error (ErrNew m) = m"
| "Error (Wrapf m e) = m @ '': '' @ Error e"
| "Error (ProviderError op cat e) = op @ '': '' @ cat @ '': '' @ Error e"

definition isDuplicateKeyErr :: "goerr \<Rightarrow> bool" where
  "isDuplicateKeyErr err \<longleftrightarrow> Contains (Error err) ''Error 1062'' \<or> Contains (Error err) ''Duplicate entry''"

definition nullBytes :: "string \<Rightarrow> string option" where
  "nullBytes s = (if s = [] then None else Some s)"

definition bytes_string :: "string option \<Rightarrow> string" where
  "bytes_string b = (case b of None \<Rightarrow> [] | Some s \<Rightarrow> s)"

definition scanTransaction :: "txn_row option result \<Rightarrow> Transaction result" where
  "scanTransaction res =
     (case res of
        Inl e \<Rightarrow> Inl (Wrapf ''scan transaction'' e)
      | Inr None \<Rightarrow> Inl (Sentinel ErrNotFound)
      | Inr (Some row) \<Rightarrow>
          (case decodeCurrency (row_currency_code row) of
             Inl e \<Rightarrow> Inl e
           | Inr cur \<Rightarrow>
          (case decodeStatus (row_status row) of
             Inl e \<Rightarrow> Inl e
           | Inr st \<Rightarrow>
               Inr \<lparr>t_MerchantID = row_merchant_id row,
                    t_TransactionID = hexLower (row_transaction_id row),
                    t_OrderID = row_order_id row,
                    t_Amount = sint (row_amount row),
                    t_Currency = cur,
                    t_Status = st,
                    t_PaymentMethod = decodeMethod (row_payment_method row),
                    t_StripeSessionID = bytes_string (row_stripe_session row),
                    t_StripePaymentIntentID = bytes_string (row_stripe_pi_id row),
                    t_CreatedAt = row_created_at row,
                    t_UpdatedAt = row_updated_at row,
                    t_ShardIndex = 0\<rparr>)))"

section \<open>Insert\<close>

text \<open>
  The checks and encodings in front of the statement, the row it writes, and \<open>Insert\<close>, which
  writes the times it fills in back to its argument, so it returns the transaction too.
\<close>

definition insert_checks :: "Transaction \<Rightarrow> (string \<times> uint16 \<times> uint8) result" where
  "insert_checks t =
     (if length (t_MerchantID t) > 16 then Inl (ErrNew ''merchant_id too long (max 16)'')
      else case decodeHex16 (t_TransactionID t) of
        Inl e \<Rightarrow> Inl (Wrapf ''transaction_id'' e)
      | Inr txn \<Rightarrow>
     (case ValidateOrderID (t_OrderID t) of
        Inl e \<Rightarrow> Inl (Wrapf ''order_id'' e)
      | Inr _ \<Rightarrow>
     (if t_Amount t < 0 then Inl (ErrNew ''amount must be >= 0'')
      else case encodeCurrency (t_Currency t) of
        Inl e \<Rightarrow> Inl e
      | Inr cur \<Rightarrow>
     (case encodeStatus (t_Status t) of
        Inl e \<Rightarrow> Inl e
      | Inr st \<Rightarrow> Inr (txn, cur, st)))))"

definition insert_row :: "db_env \<Rightarrow> Transaction \<Rightarrow> string \<times> uint16 \<times> uint8 \<Rightarrow> txn_row" where
  "insert_row env t enc =
     (case enc of (txn, cur, st) \<Rightarrow>
        \<lparr>row_transaction_id = txn, row_merchant_id = t_MerchantID t, row_order_id = t_OrderID t,
         row_amount = word_of_int (t_Amount t), row_currency_code = cur, row_status = st,
         row_payment_method = encodeMethod (t_PaymentMethod t),
         row_stripe_pi_id = nullBytes (t_StripePaymentIntentID t),
         row_stripe_session = nullBytes (t_StripeSessionID t),
         row_created_at = env_timestamp env (t_CreatedAt t),
         row_updated_at = env_timestamp env (t_UpdatedAt t)\<rparr>)"

definition with_times :: "int \<Rightarrow> Transaction \<Rightarrow> Transaction" where
  "with_times now t =
     t\<lparr>t_CreatedAt := (if t_CreatedAt t = zero_time then now else t_CreatedAt t), t_UpdatedAt := now\<rparr>"

definition txn_Insert ::
  "db_env \<Rightarrow> nat multiShardRouter \<Rightarrow> Transaction \<Rightarrow> 'a txn_store_scheme \<Rightarrow> 'a txn_store_scheme \<times> Transaction \<times> unit result" where
  "txn_Insert env r t s =
     (case insert_checks t of
        Inl e \<Rightarrow> (s, t, Inl e)
      | Inr enc \<Rightarrow>
     (let t = with_times (env_clock env (stmts s)) t
      in case router_For r (t_ShardIndex t) of
        Inl e \<Rightarrow> (s, t, Inl (Wrapf ''route'' e))
      | Inr db \<Rightarrow>
     (case exec_insert env db (insert_row env t enc) s of
        (s', Inl err) \<Rightarrow>
          (s', t, if isDuplicateKeyErr err then Inl (Sentinel ErrDuplicateTransaction)
                  else Inl (Wrapf ''insert transaction'' err))
      | (s', Inr _) \<Rightarrow> (s', t, Inr ()))))"

section \<open>Lookups of one merchant\<close>

definition matches :: "db_env \<Rightarrow> string \<Rightarrow> string \<Rightarrow> txn_row \<Rightarrow> bool" where
  "matches env merchantID orderID row \<longleftrightarrow>
     env_coll env (row_merchant_id row) merchantID \<and> env_coll env (row_order_id row) orderID"

definition stamp :: "uint8 \<Rightarrow> Transaction result \<Rightarrow> Transaction result" where
  "stamp i res = (case res of Inl e \<Rightarrow> Inl e | Inr t \<Rightarrow> Inr (t\<lparr>t_ShardIndex := i\<rparr>))"

definition GetByTransactionID ::
  "db_env \<Rightarrow> nat multiShardRouter \<Rightarrow> uint8 \<Rightarrow> string \<Rightarrow> string \<Rightarrow> 'a txn_store_scheme \<Rightarrow>
    'a txn_store_scheme \<times> Transaction result" where
  "GetByTransactionID env r shardIdx merchantID transactionID s =
     (case router_For r shardIdx of
        Inl e \<Rightarrow> (s, Inl (Wrapf ''route'' e))
      | Inr db \<Rightarrow>
     (case decodeHex16 transactionID of
        Inl e \<Rightarrow> (s, Inl (Wrapf ''transaction_id'' e))
      | Inr txn \<Rightarrow>
     (case query_row env db
             (\<lambda>row. env_coll env (row_merchant_id row) merchantID \<and> row_transaction_id row = txn) s of
        (s', res) \<Rightarrow> (s', stamp shardIdx (scanTransaction res)))))"

definition GetByMerchantOrderID ::
  "db_env \<Rightarrow> nat multiShardRouter \<Rightarrow> uint8 \<Rightarrow> string \<Rightarrow> string \<Rightarrow> 'a txn_store_scheme \<Rightarrow>
    'a txn_store_scheme \<times> Transaction result" where
  "GetByMerchantOrderID env r shardIdx merchantID orderID s =
     (case ValidateOrderID orderID of
        Inl e \<Rightarrow> (s, Inl e)
      | Inr _ \<Rightarrow>
     (case router_For r shardIdx of
        Inl e \<Rightarrow> (s, Inl (Wrapf ''route'' e))
      | Inr db \<Rightarrow>
     (case query_row env db (matches env merchantID orderID) s of
        (s', res) \<Rightarrow> (s', stamp shardIdx (scanTransaction res)))))"

section \<open>Scatter-gather lookups\<close>

text \<open>
  The answers of the pools in the order they arrive: the first match wins; a miss is counted and
  the first error is kept.
\<close>

fun gather_first ::
  "(nat \<times> Transaction result) list \<Rightarrow> uint8 list \<Rightarrow> nat \<Rightarrow> goerr option \<Rightarrow> nat \<Rightarrow> Transaction result" where
  "gather_first [] logical misses firstErr n =
     (if misses = n then Inl (Sentinel ErrNotFound)
      else case firstErr of Some e \<Rightarrow> Inl e | None \<Rightarrow> Inl (ErrNew ''nil error''))"
| "gather_first ((i, res) # rest) logical misses firstErr n =
     (case res of
        Inl e \<Rightarrow>
          if errors_Is e ErrNotFound then gather_first rest logical (Suc misses) firstErr n
          else gather_first rest logical misses (if firstErr = None then Some e else firstErr) n
      | Inr t \<Rightarrow> Inr (t\<lparr>t_ShardIndex := logical ! i\<rparr>))"

definition scatterFirst ::
  "db_env \<Rightarrow> nat multiShardRouter \<Rightarrow> (txn_row \<Rightarrow> bool) \<Rightarrow> 'a txn_store_scheme \<Rightarrow>
    'a txn_store_scheme \<times> Transaction result" where
  "scatterFirst env r P s =
     (let ps = router_All r;
          logicalForPhysical = physicalToFirstLogical r (length ps);
          answers = map (\<lambda>i. (i, scanTransaction (snd (query_row env (ps ! i) P s)))) (env_arrival env (stmts s))
      in (step_store s, gather_first answers logicalForPhysical 0 None (length ps)))"

definition GetByOrderIDAny ::
  "db_env \<Rightarrow> nat multiShardRouter \<Rightarrow> string \<Rightarrow> 'a txn_store_scheme \<Rightarrow> 'a txn_store_scheme \<times> Transaction result" where
  "GetByOrderIDAny env r orderID s =
     (case ValidateOrderID orderID of
        Inl e \<Rightarrow> (s, Inl e)
      | Inr _ \<Rightarrow> scatterFirst env r (\<lambda>row. env_coll env (row_order_id row) orderID) s)"

definition GetByPaymentIntentID ::
  "db_env \<Rightarrow> nat multiShardRouter \<Rightarrow> string \<Rightarrow> 'a txn_store_scheme \<Rightarrow> 'a txn_store_scheme \<times> Transaction result" where
  "GetByPaymentIntentID env r pi s =
     (if pi = [] then (s, Inl (Sentinel ErrNotFound))
      else scatterFirst env r (\<lambda>row. row_stripe_pi_id row = Some pi) s)"

section \<open>Updates\<close>

text \<open>\<^verbatim>\<open>COALESCE(NULLIF(?, _binary''), column)\<close>.\<close>

definition coalesce :: "string \<Rightarrow> string option \<Rightarrow> string option" where
  "coalesce v col = (if v = [] then col else Some v)"

definition UpdateStatus ::
  "db_env \<Rightarrow> nat multiShardRouter \<Rightarrow> uint8 \<Rightarrow> string \<Rightarrow> string \<Rightarrow> string \<Rightarrow> string \<Rightarrow> 'a txn_store_scheme \<Rightarrow>
    'a txn_store_scheme \<times> unit result" where
  "UpdateStatus env r shardIdx merchantID orderID status stripePaymentIntentID s =
     (case ValidateOrderID orderID of
        Inl e \<Rightarrow> (s, Inl e)
      | Inr _ \<Rightarrow>
     (case encodeStatus status of
        Inl e \<Rightarrow> (s, Inl e)
      | Inr st \<Rightarrow>
     (case router_For r shardIdx of
        Inl e \<Rightarrow> (s, Inl (Wrapf ''route'' e))
      | Inr db \<Rightarrow>
     (case exec_update env db (matches env merchantID orderID)
             (\<lambda>row. row\<lparr>row_status := st,
                        row_updated_at := env_timestamp env (env_clock env (stmts s)),
                        row_stripe_pi_id := coalesce stripePaymentIntentID (row_stripe_pi_id row)\<rparr>) s of
        (s', Inl e) \<Rightarrow> (s', Inl (Wrapf ''update status'' e))
      | (s', Inr n) \<Rightarrow> (s', if n = 0 then Inl (Sentinel ErrNotFound) else Inr ())))))"

definition UpdateCheckout ::
  "db_env \<Rightarrow> nat multiShardRouter \<Rightarrow> uint8 \<Rightarrow> string \<Rightarrow> string \<Rightarrow> string \<Rightarrow> string \<Rightarrow> 'a txn_store_scheme \<Rightarrow>
    'a txn_store_scheme \<times> unit result" where
  "UpdateCheckout env r shardIdx merchantID orderID sessionID piID s =
     (case ValidateOrderID orderID of
        Inl e \<Rightarrow> (s, Inl e)
      | Inr _ \<Rightarrow>
     (case router_For r shardIdx of
        Inl e \<Rightarrow> (s, Inl (Wrapf ''route'' e))
      | Inr db \<Rightarrow>
     (case exec_update env db (matches env merchantID orderID)
             (\<lambda>row. row\<lparr>row_stripe_session := coalesce sessionID (row_stripe_session row),
                        row_stripe_pi_id := coalesce piID (row_stripe_pi_id row),
                        row_updated_at := env_timestamp env (env_clock env (stmts s))\<rparr>) s of
        (s', Inl e) \<Rightarrow> (s', Inl (Wrapf ''update checkout'' e))
      | (s', Inr n) \<Rightarrow> (s', if n = 0 then Inl (Sentinel ErrNotFound) else Inr ()))))"

section \<open>GetPendingBefore\<close>

text \<open>The order test of the insertion sort: \<open>a\<close> may stay in front of \<open>b\<close>.\<close>

definition in_order :: "Transaction \<Rightarrow> Transaction \<Rightarrow> bool" where
  "in_order a b \<longleftrightarrow>
     t_CreatedAt a < t_CreatedAt b \<or> (t_CreatedAt a = t_CreatedAt b \<and> t_TransactionID a \<le> t_TransactionID b)"

text \<open>The inner loop, which moves the element at \<open>j\<close> to the left, and the outer loop.\<close>

fun sift :: "nat \<Rightarrow> Transaction list \<Rightarrow> Transaction list" where
  "sift 0 xs = xs"
| "sift (Suc j) xs =
     (if in_order (xs ! j) (xs ! Suc j) then xs
      else sift j (xs[j := xs ! Suc j, Suc j := xs ! j]))"

definition sortTransactionsByCreatedAt :: "Transaction list \<Rightarrow> Transaction list" where
  "sortTransactionsByCreatedAt txns = fold sift [1..<length txns] txns"

fun scan_rows :: "uint8 \<Rightarrow> txn_row list \<Rightarrow> Transaction list result" where
  "scan_rows i [] = Inr []"
| "scan_rows i (row # rows) =
     (case stamp i (scanTransaction (Inr (Some row))) of
        Inl e \<Rightarrow> Inl (Wrapf ''scan shard'' e)
      | Inr t \<Rightarrow> (case scan_rows i rows of Inl e \<Rightarrow> Inl e | Inr ts \<Rightarrow> Inr (t # ts)))"

text \<open>\<^verbatim>\<open>status IN (created, pending) AND created_at < cutoff\<close>.\<close>

definition is_stuck :: "int \<Rightarrow> txn_row \<Rightarrow> bool" where
  "is_stuck before row \<longleftrightarrow> (row_status row = 0 \<or> row_status row = 1) \<and> row_created_at row < before"

definition pending_rows :: "int \<Rightarrow> nat \<Rightarrow> txn_row list \<Rightarrow> txn_row list" where
  "pending_rows cutoff limit rows =
     take limit (sort_key row_created_at (filter (is_stuck cutoff) rows))"

definition pending_shard ::
  "db_env \<Rightarrow> int \<Rightarrow> nat \<Rightarrow> nat \<Rightarrow> uint8 \<Rightarrow> 'a txn_store_scheme \<Rightarrow> Transaction list result" where
  "pending_shard env cutoff limit p i s =
     (case env_fault env (stmts s) p of
        Some e \<Rightarrow> Inl (Wrapf ''query pending shard'' e)
      | None \<Rightarrow> scan_rows i (pending_rows cutoff limit (tables s p)))"

fun gather_all :: "Transaction list result list \<Rightarrow> Transaction list \<Rightarrow> goerr option \<Rightarrow> Transaction list result" where
  "gather_all [] all firstErr = (case firstErr of Some e \<Rightarrow> Inl e | None \<Rightarrow> Inr all)"
| "gather_all (res # rest) all firstErr =
     (case res of
        Inl e \<Rightarrow> gather_all rest all (if firstErr = None then Some e else firstErr)
      | Inr ts \<Rightarrow> gather_all rest (all @ ts) firstErr)"

definition GetPendingBefore ::
  "db_env \<Rightarrow> nat multiShardRouter \<Rightarrow> int \<Rightarrow> int \<Rightarrow> 'a txn_store_scheme \<Rightarrow> 'a txn_store_scheme \<times> Transaction list result" where
  "GetPendingBefore env r before limit s =
     (if limit \<le> 0 then (s, Inr [])
      else
        let ps = router_All r;
            logicalForPhysical = physicalToFirstLogical r (length ps);
            answers = map (\<lambda>i. pending_shard env before (nat limit) (ps ! i) (logicalForPhysical ! i) s)
                        (env_arrival env (stmts s))
        in (step_store s,
            case gather_all answers [] None of
              Inl e \<Rightarrow> Inl e
            | Inr all \<Rightarrow> Inr (take (nat limit) (sortTransactionsByCreatedAt all))))"

section \<open>The table invariant\<close>

text \<open>
  A row as \<open>Insert\<close> writes it, and a table whose unique key holds. Every operation keeps the
  invariant, with or without failing statements.
\<close>

definition row_ok :: "txn_row \<Rightarrow> bool" where
  "row_ok row \<longleftrightarrow>
     length (row_transaction_id row) = 16 \<and> valid_order_id (row_order_id row) \<and> row_fits row \<and>
     codeToCurrency (row_currency_code row) \<noteq> None \<and> row_status row \<le> 5 \<and> row_payment_method row \<le> 9 \<and>
     row_stripe_pi_id row \<noteq> Some [] \<and> row_stripe_session row \<noteq> Some []"

definition table_ok :: "txn_row list \<Rightarrow> bool" where
  "table_ok rows \<longleftrightarrow> distinct (map row_transaction_id rows) \<and> list_all row_ok rows"

definition txn_inv :: "'a txn_store_scheme \<Rightarrow> bool" where
  "txn_inv s \<longleftrightarrow> (\<forall>p. table_ok (tables s p))"

lemma tables_step_store [simp]: "tables (step_store s) = tables s"
  by (simp add: step_store_def)

lemma txn_inv_step_store [simp]: "txn_inv (step_store s) = txn_inv s"
  by (simp add: txn_inv_def)

lemma txn_inv_upd: "txn_inv s \<Longrightarrow> table_ok rows \<Longrightarrow> txn_inv (s\<lparr>tables := (tables s)(p := rows)\<rparr>)"
  by (simp add: txn_inv_def)

lemma exec_insert_inv:
  "txn_inv s \<Longrightarrow> (row_fits row \<Longrightarrow> row_ok row) \<Longrightarrow> txn_inv (fst (exec_insert env p row s))"
  by (auto simp: exec_insert_def split: option.split)
    (auto intro!: txn_inv_upd simp: txn_inv_def table_ok_def)

lemma query_row_fst [simp]: "fst (query_row env p P s) = step_store s"
  by (simp add: query_row_def)

lemma exec_update_inv:
  assumes "txn_inv s" and "\<And>row. row_transaction_id (f row) = row_transaction_id row"
    and "\<And>row. row_ok row \<Longrightarrow> row_fits (f row) \<Longrightarrow> row_ok (f row)"
  shows "txn_inv (fst (exec_update env p P f s))"
proof -
  have "table_ok (map (\<lambda>row. if P row then f row else row) rows)"
    if "table_ok rows" "list_all (\<lambda>row. row_fits (f row)) (filter P rows)" for rows
  proof -
    have "row_transaction_id \<circ> (\<lambda>row. if P row then f row else row) = row_transaction_id"
      by (auto simp: assms(2))
    with that assms(3) show ?thesis
      by (auto simp: table_ok_def list_all_iff)
  qed
  with assms(1) show ?thesis
    by (auto simp: exec_update_def Let_def intro!: txn_inv_upd split: option.split) (simp_all add: txn_inv_def)
qed

lemma codeToCurrency_encode: "encodeCurrency c = Inr v \<Longrightarrow> codeToCurrency v \<noteq> None"
  by (rule currency.enc_stored)

lemma encodeStatus_le: "encodeStatus st = Inr v \<Longrightarrow> v \<le> 5"
  by (rule status.enc_stored)

lemma insert_checks_Inr:
  "insert_checks t = Inr (txn, cur, st) \<longleftrightarrow>
     length (t_MerchantID t) \<le> 16 \<and> decodeHex16 (t_TransactionID t) = Inr txn \<and> valid_order_id (t_OrderID t) \<and>
     0 \<le> t_Amount t \<and> encodeCurrency (t_Currency t) = Inr cur \<and> encodeStatus (t_Status t) = Inr st"
  by (cases rule: ValidateOrderID_cases [of "t_OrderID t"])
    (auto simp: insert_checks_def split: sum.splits)

lemma nullBytes_simps [simp]:
  "nullBytes s \<noteq> Some []" "bytes_string (nullBytes s) = s" "opt_fits n (nullBytes s) \<longleftrightarrow> length s \<le> n"
  by (simp_all add: nullBytes_def bytes_string_def opt_fits_def)

lemma insert_row_ok:
  "insert_checks t = Inr enc \<Longrightarrow> row_fits (insert_row env (with_times now t) enc) \<Longrightarrow>
    row_ok (insert_row env (with_times now t) enc)"
  by (cases enc)
    (auto simp: insert_checks_Inr insert_row_def row_ok_def with_times_def encodeMethod_le
      dest: codeToCurrency_encode encodeStatus_le decodeHex16_InrD)

lemma txn_Insert_inv: "txn_inv s \<Longrightarrow> txn_inv (fst (txn_Insert env r t s))"
proof -
  assume s: "txn_inv s"
  have "txn_inv (fst (exec_insert env db (insert_row env (with_times now t) enc) s))"
    if "insert_checks t = Inr enc" for db enc now
    using s insert_row_ok [OF that] by (rule exec_insert_inv)
  with s show ?thesis
    by (fastforce simp: txn_Insert_def Let_def split: sum.split prod.split dest: arg_cong [where f = fst])
qed

lemma UpdateStatus_inv: "txn_inv s \<Longrightarrow> txn_inv (fst (UpdateStatus env r i m oid st pi s))"
proof -
  assume s: "txn_inv s"
  have "txn_inv (fst (exec_update env p P
      (\<lambda>row. row\<lparr>row_status := v, row_updated_at := u, row_stripe_pi_id := coalesce pi (row_stripe_pi_id row)\<rparr>) s))"
    if "encodeStatus st = Inr v" for p P v u
    using s encodeStatus_le [OF that]
    by (rule_tac exec_update_inv) (auto simp: row_ok_def coalesce_def)
  with s show ?thesis
    by (fastforce simp: UpdateStatus_def split: sum.split prod.split dest: arg_cong [where f = fst])
qed

lemma UpdateCheckout_inv: "txn_inv s \<Longrightarrow> txn_inv (fst (UpdateCheckout env r i m oid sess pi s))"
proof -
  assume s: "txn_inv s"
  have "txn_inv (fst (exec_update env p P
      (\<lambda>row. row\<lparr>row_stripe_session := coalesce sess (row_stripe_session row),
        row_stripe_pi_id := coalesce pi (row_stripe_pi_id row), row_updated_at := u\<rparr>) s))" for p P u
    using s by (rule exec_update_inv) (auto simp: row_ok_def coalesce_def)
  with s show ?thesis
    by (fastforce simp: UpdateCheckout_def split: sum.split prod.split dest: arg_cong [where f = fst])
qed

text \<open>The reads change no table.\<close>

lemma reads_tables [simp]:
  "tables (fst (GetByTransactionID env r i m tid s)) = tables s"
  "tables (fst (GetByMerchantOrderID env r i m oid s)) = tables s"
  "tables (fst (GetByOrderIDAny env r oid s)) = tables s"
  "tables (fst (GetByPaymentIntentID env r pi s)) = tables s"
  "tables (fst (GetPendingBefore env r before limit s)) = tables s"
  by (simp_all add: GetByTransactionID_def GetByMerchantOrderID_def GetByOrderIDAny_def GetByPaymentIntentID_def
      GetPendingBefore_def scatterFirst_def query_row_def Let_def split: sum.split)

section \<open>The contract of the repository\<close>

text \<open>
  What the services rely on when no statement fails. \<open>view s i tid\<close> is the transaction with the
  id \<open>tid\<close> that the pool of the logical shard \<open>i\<close> holds; the operations are specified by what they
  return and by what they do to the view.
\<close>

locale transaction_repository =
  fixes invar :: "'s \<Rightarrow> bool"
    and view :: "'s \<Rightarrow> uint8 \<Rightarrow> string \<Rightarrow> Transaction option"
    and same :: "string \<Rightarrow> string \<Rightarrow> bool"
    and known :: "uint8 \<Rightarrow> bool"
    and colocated :: "uint8 \<Rightarrow> uint8 \<Rightarrow> bool"
    and accepts :: "Transaction \<Rightarrow> bool"
    and stored :: "Transaction \<Rightarrow> Transaction"
    and Insert :: "Transaction \<Rightarrow> 's \<Rightarrow> 's \<times> Transaction \<times> unit result"
    and GetTxn :: "uint8 \<Rightarrow> string \<Rightarrow> string \<Rightarrow> 's \<Rightarrow> 's \<times> Transaction result"
    and GetOrder :: "uint8 \<Rightarrow> string \<Rightarrow> string \<Rightarrow> 's \<Rightarrow> 's \<times> Transaction result"
    and UpdStatus :: "uint8 \<Rightarrow> string \<Rightarrow> string \<Rightarrow> string \<Rightarrow> string \<Rightarrow> 's \<Rightarrow> 's \<times> unit result"
    and UpdCheckout :: "uint8 \<Rightarrow> string \<Rightarrow> string \<Rightarrow> string \<Rightarrow> string \<Rightarrow> 's \<Rightarrow> 's \<times> unit result"
  assumes same_refl: "invar s \<Longrightarrow> same x x"
    and colocated_refl: "colocated i i"
    and view_shape: "view s i tid = Some t \<Longrightarrow> t_ShardIndex t = i \<and> t_TransactionID t = ToLower tid"
    and view_case: "view s i (ToLower tid) = view s i tid"
    and insert_new: "invar s \<Longrightarrow> accepts t \<Longrightarrow> known (t_ShardIndex t) \<Longrightarrow>
      view s (t_ShardIndex t) (t_TransactionID t) = None \<Longrightarrow>
      \<exists>s' now. Insert t s = (s', with_times now t, Inr ()) \<and> invar s' \<and>
        view s' = (\<lambda>j tid. if colocated j (t_ShardIndex t) \<and> ToLower tid = ToLower (t_TransactionID t)
                           then Some ((stored (with_times now t))\<lparr>t_ShardIndex := j\<rparr>) else view s j tid)"
    and insert_dup: "invar s \<Longrightarrow> accepts t \<Longrightarrow> known (t_ShardIndex t) \<Longrightarrow>
      view s (t_ShardIndex t) (t_TransactionID t) \<noteq> None \<Longrightarrow>
      \<exists>s' t'. Insert t s = (s', t', Inl (Sentinel ErrDuplicateTransaction)) \<and> invar s' \<and> view s' = view s"
    and get_txn: "invar s \<Longrightarrow> known i \<Longrightarrow> decodeHex16 tid = Inr b \<Longrightarrow>
      \<exists>s'. GetTxn i m tid s =
          (s', case view s i tid of
                 Some t \<Rightarrow> (if same (t_MerchantID t) m then Inr t else Inl (Sentinel ErrNotFound))
               | None \<Rightarrow> Inl (Sentinel ErrNotFound)) \<and>
        invar s' \<and> view s' = view s"
    and get_order: "invar s \<Longrightarrow> known i \<Longrightarrow> valid_order_id oid \<Longrightarrow>
      \<exists>s' res. GetOrder i m oid s = (s', res) \<and> invar s' \<and> view s' = view s \<and>
        (case res of
           Inr t \<Rightarrow> view s i (t_TransactionID t) = Some t \<and> same (t_MerchantID t) m \<and> same (t_OrderID t) oid
         | Inl e \<Rightarrow> e = Sentinel ErrNotFound \<and>
             (\<forall>tid t. view s i tid = Some t \<longrightarrow> \<not> (same (t_MerchantID t) m \<and> same (t_OrderID t) oid)))"
    and update_status: "invar s \<Longrightarrow> known i \<Longrightarrow> valid_order_id oid \<Longrightarrow> TransactionStatus_Valid st \<Longrightarrow> length pi \<le> 64 \<Longrightarrow>
      \<exists>s' upd. UpdStatus i m oid st pi s =
          (s', if \<exists>tid t. view s i tid = Some t \<and> same (t_MerchantID t) m \<and> same (t_OrderID t) oid
               then Inr () else Inl (Sentinel ErrNotFound)) \<and>
        invar s' \<and>
        view s' = (\<lambda>j tid. map_option (\<lambda>t. if colocated j i \<and> same (t_MerchantID t) m \<and> same (t_OrderID t) oid
           then t\<lparr>t_Status := st, t_UpdatedAt := upd,
                  t_StripePaymentIntentID := (if pi = [] then t_StripePaymentIntentID t else pi)\<rparr>
           else t) (view s j tid))"
    and update_checkout: "invar s \<Longrightarrow> known i \<Longrightarrow> valid_order_id oid \<Longrightarrow> length sess \<le> 96 \<Longrightarrow> length pi \<le> 64 \<Longrightarrow>
      \<exists>s' upd. UpdCheckout i m oid sess pi s =
          (s', if \<exists>tid t. view s i tid = Some t \<and> same (t_MerchantID t) m \<and> same (t_OrderID t) oid
               then Inr () else Inl (Sentinel ErrNotFound)) \<and>
        invar s' \<and>
        view s' = (\<lambda>j tid. map_option (\<lambda>t. if colocated j i \<and> same (t_MerchantID t) m \<and> same (t_OrderID t) oid
           then t\<lparr>t_StripeSessionID := (if sess = [] then t_StripeSessionID t else sess),
                  t_StripePaymentIntentID := (if pi = [] then t_StripePaymentIntentID t else pi),
                  t_UpdatedAt := upd\<rparr>
           else t) (view s j tid))"
begin

text \<open>A transaction just inserted is what the two lookups of its merchant find.\<close>

lemma insert_get:
  assumes "invar s" and "accepts t" and "known (t_ShardIndex t)" and "decodeHex16 (t_TransactionID t) = Inr b"
    and "view s (t_ShardIndex t) (t_TransactionID t) = None"
    and "\<And>u. t_MerchantID (stored u) = t_MerchantID u"
  obtains s' s'' now where "Insert t s = (s', with_times now t, Inr ())"
    and "GetTxn (t_ShardIndex t) (t_MerchantID t) (t_TransactionID t) s' =
      (s'', Inr ((stored (with_times now t))\<lparr>t_ShardIndex := t_ShardIndex t\<rparr>))"
proof -
  from insert_new [OF assms(1-3,5)] obtain s' now where
    i: "Insert t s = (s', with_times now t, Inr ())" and inv: "invar s'"
    and v: "view s' (t_ShardIndex t) (t_TransactionID t) =
      Some ((stored (with_times now t))\<lparr>t_ShardIndex := t_ShardIndex t\<rparr>)"
    by (auto simp: colocated_refl)
  have "same (t_MerchantID t) (t_MerchantID t)"
    using inv by (rule same_refl)
  with get_txn [OF inv assms(3,4), of "t_MerchantID t"] v
  have "\<exists>s''. GetTxn (t_ShardIndex t) (t_MerchantID t) (t_TransactionID t) s' =
      (s'', Inr ((stored (with_times now t))\<lparr>t_ShardIndex := t_ShardIndex t\<rparr>))"
    by (auto simp: assms(6) with_times_def)
  with i that show thesis
    by blast
qed

text \<open>An update that matches no row changes nothing and says so.\<close>

lemma update_status_missing:
  assumes "invar s" "known i" "valid_order_id oid" "TransactionStatus_Valid st" "length pi \<le> 64"
    and none: "\<And>tid t. view s i tid = Some t \<Longrightarrow> \<not> (same (t_MerchantID t) m \<and> same (t_OrderID t) oid)"
  obtains s' where "UpdStatus i m oid st pi s = (s', Inl (Sentinel ErrNotFound))" and "view s' i = view s i"
proof -
  have "map_option (\<lambda>t. if C \<and> same (t_MerchantID t) m \<and> same (t_OrderID t) oid then f t else t) (view s i tid)
      = view s i tid" for tid f C
    using none [of tid] by (cases "view s i tid") auto
  with update_status [OF assms(1-5), of m] none that show thesis
    by fastforce
qed

end

section \<open>The repository keeps its contract\<close>

definition row_txn :: "uint8 \<Rightarrow> txn_row \<Rightarrow> Transaction" where
  "row_txn i row = (projr (scanTransaction (Inr (Some row))))\<lparr>t_ShardIndex := i\<rparr>"

definition by_tid :: "string \<Rightarrow> txn_row list \<Rightarrow> txn_row option" where
  "by_tid b rows = find (\<lambda>row. row_transaction_id row = b) rows"

definition txn_view :: "nat multiShardRouter \<Rightarrow> 'a txn_store_scheme \<Rightarrow> uint8 \<Rightarrow> string \<Rightarrow> Transaction option" where
  "txn_view r s i tid =
     (case router_For r i of
        Inl e \<Rightarrow> None
      | Inr p \<Rightarrow> (case decodeHex16 tid of
          Inl e \<Rightarrow> None
        | Inr b \<Rightarrow> (case by_tid b (tables s p) of
            Some row \<Rightarrow> (if row_ok row then Some (row_txn i row) else None)
          | None \<Rightarrow> None)))"

definition healthy :: "db_env \<Rightarrow> bool" where
  "healthy env \<longleftrightarrow> (\<forall>n p. env_fault env n p = None) \<and> (\<forall>x. env_coll env x x)"

definition repo_good :: "db_env \<Rightarrow> nat multiShardRouter \<Rightarrow> 'a txn_store_scheme \<Rightarrow> bool" where
  "repo_good env r s \<longleftrightarrow> healthy env \<and> wf_router r \<and> txn_inv s"

definition txn_accepts :: "Transaction \<Rightarrow> bool" where
  "txn_accepts t \<longleftrightarrow> (\<exists>enc. insert_checks t = Inr enc) \<and> t_Amount t < 2 ^ 63 \<and>
     length (t_StripePaymentIntentID t) \<le> 64 \<and> length (t_StripeSessionID t) \<le> 96"

definition stored_txn :: "db_env \<Rightarrow> Transaction \<Rightarrow> Transaction" where
  "stored_txn env t = t\<lparr>t_TransactionID := ToLower (t_TransactionID t), t_Currency := ToUpper (t_Currency t),
     t_PaymentMethod := canon_method (t_PaymentMethod t),
     t_CreatedAt := env_timestamp env (t_CreatedAt t), t_UpdatedAt := env_timestamp env (t_UpdatedAt t)\<rparr>"

definition router_known :: "nat multiShardRouter \<Rightarrow> uint8 \<Rightarrow> bool" where
  "router_known r i \<longleftrightarrow> i < router_LogicalCount r"

definition router_colocated :: "nat multiShardRouter \<Rightarrow> uint8 \<Rightarrow> uint8 \<Rightarrow> bool" where
  "router_colocated r i j \<longleftrightarrow> router_For r i = router_For r j \<and> (\<exists>p. router_For r i = Inr p) \<or> i = j"

lemma by_tid_SomeD: "by_tid b rows = Some row \<Longrightarrow> row \<in> set rows \<and> row_transaction_id row = b"
  by (auto simp: by_tid_def find_Some_iff)

lemma by_tid_None_iff: "by_tid b rows = None \<longleftrightarrow> b \<notin> row_transaction_id ` set rows"
  by (auto simp: by_tid_def find_None_iff)

lemma by_tid_snoc:
  "by_tid b (rows @ [row]) =
    (case by_tid b rows of Some x \<Rightarrow> Some x | None \<Rightarrow> if row_transaction_id row = b then Some row else None)"
  by (induction rows) (auto simp: by_tid_def)

lemma known_For: "wf_router r \<Longrightarrow> router_known r i \<Longrightarrow> \<exists>p. router_For r i = Inr p"
  by (simp add: router_known_def rt.for_total_iff)

lemma decodeCurrency_stored: "codeToCurrency v \<noteq> None \<Longrightarrow> \<exists>c. decodeCurrency v = Inr c"
  by (auto simp: decodeCurrency_def)

lemma decodeStatus_stored: "v \<le> 5 \<Longrightarrow> \<exists>st. decodeStatus v = Inr st"
proof -
  assume le: "v \<le> 5"
  then have "v \<le> 9"
    by (rule order_trans) simp
  from uint8_le_9_cases [OF this] le show ?thesis
    by (auto simp: decodeStatus_def)
qed

lemma scan_ok:
  assumes "row_ok row"
  shows "stamp i (scanTransaction (Inr (Some row))) = Inr (row_txn i row)"
    and "scanTransaction (Inr (Some row)) = Inr (row_txn 0 row)"
proof -
  obtain c st where "decodeCurrency (row_currency_code row) = Inr c" "decodeStatus (row_status row) = Inr st"
    using assms decodeCurrency_stored decodeStatus_stored by (fastforce simp: row_ok_def)
  then show "stamp i (scanTransaction (Inr (Some row))) = Inr (row_txn i row)"
    and "scanTransaction (Inr (Some row)) = Inr (row_txn 0 row)"
    by (simp_all add: row_txn_def scanTransaction_def stamp_def)
qed

lemma scan_none: "stamp i (scanTransaction (Inr None)) = Inl (Sentinel ErrNotFound)"
  by (simp add: stamp_def scanTransaction_def)

lemma row_txn_fields [table_simps]:
  assumes "row_ok row"
  shows "t_MerchantID (row_txn i row) = row_merchant_id row"
    and "t_OrderID (row_txn i row) = row_order_id row"
    and "t_TransactionID (row_txn i row) = hexLower (row_transaction_id row)"
    and "t_ShardIndex (row_txn i row) = i"
    and "t_CreatedAt (row_txn i row) = row_created_at row"
    and "t_StripePaymentIntentID (row_txn i row) = bytes_string (row_stripe_pi_id row)"
    and "t_StripeSessionID (row_txn i row) = bytes_string (row_stripe_session row)"
proof -
  obtain c st where "decodeCurrency (row_currency_code row) = Inr c" "decodeStatus (row_status row) = Inr st"
    using assms decodeCurrency_stored decodeStatus_stored by (fastforce simp: row_ok_def)
  then show "t_MerchantID (row_txn i row) = row_merchant_id row"
    and "t_OrderID (row_txn i row) = row_order_id row"
    and "t_TransactionID (row_txn i row) = hexLower (row_transaction_id row)"
    and "t_ShardIndex (row_txn i row) = i"
    and "t_CreatedAt (row_txn i row) = row_created_at row"
    and "t_StripePaymentIntentID (row_txn i row) = bytes_string (row_stripe_pi_id row)"
    and "t_StripeSessionID (row_txn i row) = bytes_string (row_stripe_session row)"
    by (simp_all add: row_txn_def scanTransaction_def)
qed

lemma int64_word: "0 \<le> x \<Longrightarrow> x < 2 ^ 63 \<Longrightarrow> sint (word_of_int x :: uint64) = x"
  by (rule sint_of_int64) (simp add: int64_range_def)

lemma row_txn_insert_row:
  assumes "insert_checks t = Inr enc" and "t_Amount t < 2 ^ 63"
  shows "row_txn i (insert_row env (with_times now t) enc) = (stored_txn env (with_times now t))\<lparr>t_ShardIndex := i\<rparr>"
proof -
  obtain txn cur st where enc: "enc = (txn, cur, st)" by (cases enc)
  with assms(1) have "hexLower txn = ToLower (t_TransactionID t)"
    and "decodeCurrency cur = Inr (ToUpper (t_Currency t))" and "decodeStatus st = Inr (t_Status t)"
    and "0 \<le> t_Amount t"
    by (auto simp: insert_checks_Inr decodeCurrency_encodeCurrency decodeStatus_encodeStatus dest: decodeHex16_InrD)
  with assms(2) enc show ?thesis
    by (simp add: row_txn_def insert_row_def scanTransaction_def stored_txn_def with_times_def int64_word
        decodeMethod_encodeMethod)
qed

lemma find_unique:
  assumes "distinct (map row_transaction_id rows)" and "row \<in> set rows"
  shows "by_tid (row_transaction_id row) rows = Some row"
  using assms by (induction rows) (force simp: by_tid_def)+

lemma find_conj:
  assumes "distinct (map row_transaction_id rows)"
  shows "find (\<lambda>row. Q row \<and> row_transaction_id row = b) rows =
    (case by_tid b rows of
       Some row \<Rightarrow> (if Q row then Some row else None) | None \<Rightarrow> None)"
proof (cases "by_tid b rows")
  case None
  then have "find (\<lambda>row. Q row \<and> row_transaction_id row = b) rows = None"
    by (auto simp: find_None_iff by_tid_None_iff)
  with None show ?thesis
    by simp
next
  case (Some row)
  then have row: "row \<in> set rows" "row_transaction_id row = b"
    by (auto dest: by_tid_SomeD)
  have "find (\<lambda>row. Q row \<and> row_transaction_id row = b) rows = (if Q row then Some row else None)"
    using assms row
  proof (induction rows)
    case (Cons x rows)
    show ?case
    proof (cases "row = x")
      case True
      with Cons.prems have "\<forall>y\<in>set rows. row_transaction_id y \<noteq> b"
        by (force simp: image_iff)
      with True Cons.prems show ?thesis
        by (auto simp: find_None_iff)
    qed (use Cons in auto)
  qed simp
  with Some show ?thesis
    by simp
qed

lemma find_map_upd:
  assumes "\<And>row. row_transaction_id (f row) = row_transaction_id row"
  shows "by_tid b (map (\<lambda>row. if P row then f row else row) rows) =
    map_option (\<lambda>row. if P row then f row else row) (by_tid b rows)"
  by (induction rows) (auto simp: assms by_tid_def)

lemma txn_inv_row_ok: "txn_inv s \<Longrightarrow> row \<in> set (tables s p) \<Longrightarrow> row_ok row"
  by (auto simp: txn_inv_def table_ok_def list_all_iff)

lemma txn_inv_distinct: "txn_inv s \<Longrightarrow> distinct (map row_transaction_id (tables s p))"
  by (simp add: txn_inv_def table_ok_def)

lemma txn_view_eq:
  assumes "txn_inv s" and "router_For r i = Inr p" and "decodeHex16 tid = Inr b"
  shows "txn_view r s i tid = map_option (row_txn i) (by_tid b (tables s p))"
  using assms by (auto simp: txn_view_def split: option.split dest!: by_tid_SomeD intro: txn_inv_row_ok)

lemma txn_view_None: "router_For r i = Inl e \<or> decodeHex16 tid = Inl e \<Longrightarrow> txn_view r s i tid = None"
  by (auto simp: txn_view_def split: sum.split)

lemma txn_view_SomeE:
  assumes "txn_view r s i tid = Some t"
  obtains p row where "router_For r i = Inr p" and "decodeHex16 tid = Inr (row_transaction_id row)"
    and "row \<in> set (tables s p)" and "row_ok row" and "t = row_txn i row"
  using assms by (auto simp: txn_view_def split: sum.splits option.splits if_splits dest!: by_tid_SomeD)

lemma txn_view_row:
  assumes "txn_inv s" and "router_For r i = Inr p" and "row \<in> set (tables s p)"
  shows "txn_view r s i (hexLower (row_transaction_id row)) = Some (row_txn i row)"
proof -
  have "decodeHex16 (hexLower (row_transaction_id row)) = Inr (row_transaction_id row)"
    using txn_inv_row_ok [OF assms(1,3)] by (simp add: row_ok_def decodeHex16_hexLower)
  from txn_view_eq [OF assms(1,2) this] show ?thesis
    using find_unique [OF txn_inv_distinct [OF assms(1)] assms(3)] by simp
qed

text \<open>A stored row, as the transaction of a logical shard of its pool.\<close>

lemma row_txn_stored:
  assumes "txn_inv s" and "router_For r j = Inr p" and "row \<in> set (tables s p)" and "t = row_txn j row"
  shows "router_known r (t_ShardIndex t) \<and> valid_order_id (t_OrderID t) \<and> txn_view r s (t_ShardIndex t) (t_TransactionID t) = Some t"
proof -
  have ok: "row_ok row"
    by (rule txn_inv_row_ok [OF assms(1,3)])
  have "router_known r j"
    using assms(2) by (auto simp: router_known_def router_For_def router_LogicalCount_def not_le split: if_splits)
  with ok txn_view_row [OF assms(1-3)] show ?thesis
    unfolding assms(4) row_txn_fields [OF ok] by (simp add: row_ok_def)
qed

lemma txn_view_shape: "txn_view r s i tid = Some t \<Longrightarrow> t_ShardIndex t = i \<and> t_TransactionID t = ToLower tid"
  by (erule txn_view_SomeE) (auto simp: row_txn_fields dest: decodeHex16_InrD)

lemma txn_view_tables: "tables s' = tables s \<Longrightarrow> txn_view r s' = txn_view r s"
  by (rule ext)+ (simp add: txn_view_def cong: sum.case_cong)

lemma decodeHex16_ToLower: "decodeHex16 (ToLower s) = decodeHex16 s"
  by (simp add: decodeHex16_def DecodeString_ToLower)

lemma decodeHex16_inject: "decodeHex16 x = Inr b \<Longrightarrow> decodeHex16 y = Inr b \<longleftrightarrow> ToLower y = ToLower x"
  by (metis decodeHex16_InrD decodeHex16_ToLower decodeHex16_hexLower)

text \<open>What an update does to the view: \<open>P\<close>, \<open>f\<close> on rows are \<open>Q\<close>, \<open>g\<close> on transactions.\<close>

lemma view_exec_update:
  fixes s :: "'a txn_store_scheme"
  assumes good: "repo_good env r s" and p: "router_For r i = Inr p"
    and tid: "\<And>row. row_transaction_id (f row) = row_transaction_id row"
    and ok: "\<And>row. row_ok row \<Longrightarrow> row_ok (f row)"
    and g: "\<And>j row. row_ok row \<Longrightarrow> row_txn j (f row) = g (row_txn j row)"
    and Q: "\<And>j row. row_ok row \<Longrightarrow> P row \<longleftrightarrow> Q (row_txn j row)"
  obtains s' n where "exec_update env p P f s = (s', Inr n)"
    and "n \<noteq> 0 \<longleftrightarrow> (\<exists>tid t. txn_view r s i tid = Some t \<and> Q t)" and "repo_good env r s'"
    and "txn_view r s' = (\<lambda>j tid. map_option (\<lambda>t. if router_colocated r j i \<and> Q t then g t else t) (txn_view r s j tid))"
proof
  let ?h = "\<lambda>row. if P row then f row else row"
  let ?s' = "step_store (s\<lparr>tables := (tables s)(p := map ?h (tables s p))\<rparr>)"
  have inv: "txn_inv s" using good by (simp add: repo_good_def)
  have fits: "list_all (\<lambda>row. row_fits (f row)) (filter P (tables s p))"
    using txn_inv_row_ok [OF inv] ok by (auto simp: list_all_iff row_ok_def)
  then show eq: "exec_update env p P f s = (?s', Inr (length (filter P (tables s p))))"
    using good by (simp add: exec_update_def repo_good_def healthy_def)
  have "txn_inv (fst (exec_update env p P f s))"
    by (rule exec_update_inv) (auto simp: inv tid ok)
  then show "repo_good env r ?s'"
    using good unfolding eq by (simp add: repo_good_def)
  show "length (filter P (tables s p)) \<noteq> 0 \<longleftrightarrow> (\<exists>tid t. txn_view r s i tid = Some t \<and> Q t)"
  proof
    assume "length (filter P (tables s p)) \<noteq> 0"
    then obtain row where "row \<in> set (tables s p)" "P row"
      by (auto simp: filter_empty_conv)
    with txn_view_row [OF inv p] Q txn_inv_row_ok [OF inv] show "\<exists>tid t. txn_view r s i tid = Some t \<and> Q t"
      by blast
  next
    assume "\<exists>tid t. txn_view r s i tid = Some t \<and> Q t"
    with p Q show "length (filter P (tables s p)) \<noteq> 0"
      by (auto elim!: txn_view_SomeE simp: filter_empty_conv)
  qed
  show "txn_view r ?s' = (\<lambda>j tid. map_option (\<lambda>t. if router_colocated r j i \<and> Q t then g t else t) (txn_view r s j tid))"
  proof (intro ext)
    fix j tid'
    show "txn_view r ?s' j tid' = map_option (\<lambda>t. if router_colocated r j i \<and> Q t then g t else t) (txn_view r s j tid')"
    proof (cases "router_For r j")
      case (Inr q)
      show ?thesis
      proof (cases "q = p")
        case True
        then have "router_colocated r j i"
          using p Inr by (simp add: router_colocated_def)
        with True Inr p Q g ok show ?thesis
          by (auto simp: txn_view_def find_map_upd [OF tid]
              split: sum.split option.split dest!: by_tid_SomeD dest: txn_inv_row_ok [OF inv])
      next
        case False
        then have "\<not> router_colocated r j i"
          using p Inr by (auto simp: router_colocated_def)
        with False Inr show ?thesis
          by (auto simp: txn_view_def option.map_id0 [unfolded id_def] split: sum.split option.split)
      qed
    qed (simp add: txn_view_def)
  qed
qed

lemma dup_entry_is_dup: "isDuplicateKeyErr dup_entry"
  by (simp add: isDuplicateKeyErr_def dup_entry_def)

lemma txn_view_snoc:
  assumes p: "router_For r i = Inr p" and dec: "decodeHex16 tid0 = Inr txn" and new: "by_tid txn (tables s p) = None"
    and row: "row_transaction_id row = txn" "row_ok row"
  shows "txn_view r (step_store (s\<lparr>tables := (tables s)(p := tables s p @ [row])\<rparr>)) j tid =
    (if router_colocated r j i \<and> ToLower tid = ToLower tid0 then Some (row_txn j row) else txn_view r s j tid)"
proof (cases "router_For r j = Inr p")
  case True
  then have col: "router_colocated r j i"
    by (simp add: router_colocated_def p)
  show ?thesis
  proof (cases "decodeHex16 tid")
    case (Inl e)
    then have "ToLower tid \<noteq> ToLower tid0"
      using dec by (metis Inl_Inr_False decodeHex16_ToLower)
    with Inl show ?thesis
      by (simp add: txn_view_def split: sum.split)
  next
    case (Inr b)
    then have "b = txn \<longleftrightarrow> ToLower tid = ToLower tid0"
      using decodeHex16_inject [OF dec, of tid] by auto
    with Inr True col show ?thesis
      using row new by (auto simp: txn_view_def by_tid_snoc split: option.split)
  qed
next
  case False
  then show ?thesis
    using p by (auto simp: txn_view_def router_colocated_def split: sum.split)
qed

lemma txn_Insert_view_new:
  fixes s :: "'a txn_store_scheme"
  assumes good: "repo_good env r s" and acc: "txn_accepts t" and known: "router_known r (t_ShardIndex t)"
    and none: "txn_view r s (t_ShardIndex t) (t_TransactionID t) = None"
  shows "\<exists>s' now. txn_Insert env r t s = (s', with_times now t, Inr ()) \<and> repo_good env r s' \<and>
    txn_view r s' = (\<lambda>j tid. if router_colocated r j (t_ShardIndex t) \<and> ToLower tid = ToLower (t_TransactionID t)
      then Some ((stored_txn env (with_times now t))\<lparr>t_ShardIndex := j\<rparr>) else txn_view r s j tid)"
proof -
  let ?now = "env_clock env (stmts s)"
  obtain txn cur st where chk: "insert_checks t = Inr (txn, cur, st)" and amt: "t_Amount t < 2 ^ 63"
    using acc by (auto simp: txn_accepts_def)
  obtain p where p: "router_For r (t_ShardIndex t) = Inr p"
    using known_For known good by (auto simp: repo_good_def)
  let ?row = "insert_row env (with_times ?now t) (txn, cur, st)"
  let ?s' = "step_store (s\<lparr>tables := (tables s)(p := tables s p @ [?row])\<rparr>)"
  have dec: "decodeHex16 (t_TransactionID t) = Inr txn"
    using chk by (simp add: insert_checks_Inr)
  have inv: "txn_inv s"
    using good by (simp add: repo_good_def)
  have new: "by_tid txn (tables s p) = None"
    using none txn_view_eq [OF inv p dec] by simp
  have fits: "row_fits ?row"
    using acc chk by (auto simp: txn_accepts_def row_fits_def insert_row_def with_times_def insert_checks_Inr
        valid_order_id_def)
  have shard: "t_ShardIndex (with_times ?now t) = t_ShardIndex t" "row_transaction_id ?row = txn"
    by (simp_all add: with_times_def insert_row_def)
  have ins: "txn_Insert env r t s = (?s', with_times ?now t, Inr ())"
    using good fits new
    by (simp add: txn_Insert_def Let_def chk p shard exec_insert_def repo_good_def healthy_def by_tid_None_iff)
  have "repo_good env r ?s'"
    using txn_Insert_inv [of s env r t] good by (simp add: ins repo_good_def)
  moreover have "txn_view r ?s' j tid = (if router_colocated r j (t_ShardIndex t) \<and> ToLower tid = ToLower (t_TransactionID t)
      then Some ((stored_txn env (with_times ?now t))\<lparr>t_ShardIndex := j\<rparr>) else txn_view r s j tid)" for j tid
    using txn_view_snoc [OF p dec new shard(2), of j tid] insert_row_ok [OF chk fits] row_txn_insert_row [OF chk amt] by simp
  ultimately show ?thesis
    using ins by blast
qed

lemma txn_Insert_view_dup:
  assumes good: "repo_good env r s" and acc: "txn_accepts t" and known: "router_known r (t_ShardIndex t)"
    and some: "txn_view r s (t_ShardIndex t) (t_TransactionID t) \<noteq> None"
  shows "txn_Insert env r t s = (step_store s, with_times (env_clock env (stmts s)) t, Inl (Sentinel ErrDuplicateTransaction))"
proof -
  obtain txn cur st where chk: "insert_checks t = Inr (txn, cur, st)"
    using acc by (auto simp: txn_accepts_def)
  let ?row = "insert_row env (with_times (env_clock env (stmts s)) t) (txn, cur, st)"
  obtain p row where p: "router_For r (t_ShardIndex t) = Inr p" and row: "row \<in> set (tables s p)"
    and "decodeHex16 (t_TransactionID t) = Inr (row_transaction_id row)"
    using some by (auto elim!: txn_view_SomeE)
  with chk have "txn \<in> row_transaction_id ` set (tables s p)"
    by (auto simp: insert_checks_Inr)
  moreover have "row_fits ?row"
    using acc chk by (auto simp: txn_accepts_def row_fits_def insert_row_def with_times_def insert_checks_Inr
        valid_order_id_def)
  moreover have "t_ShardIndex (with_times now t) = t_ShardIndex t" "row_transaction_id ?row = txn" for now
    by (simp_all add: with_times_def insert_row_def)
  ultimately show ?thesis
    using good dup_entry_is_dup
    by (simp add: txn_Insert_def Let_def chk p exec_insert_def repo_good_def healthy_def)
qed

lemma GetByTransactionID_view:
  assumes good: "repo_good env r s" and "router_known r i" and dec: "decodeHex16 tid = Inr b"
  shows "GetByTransactionID env r i m tid s =
    (step_store s, case txn_view r s i tid of
       Some t \<Rightarrow> (if env_coll env (t_MerchantID t) m then Inr t else Inl (Sentinel ErrNotFound))
     | None \<Rightarrow> Inl (Sentinel ErrNotFound))"
proof -
  obtain p where p: "router_For r i = Inr p"
    using known_For assms by (auto simp: repo_good_def)
  have inv: "txn_inv s"
    using good by (simp add: repo_good_def)
  have eq: "GetByTransactionID env r i m tid s =
      (step_store s, stamp i (scanTransaction (Inr (case by_tid b (tables s p) of
         Some row \<Rightarrow> (if env_coll env (row_merchant_id row) m then Some row else None) | None \<Rightarrow> None))))"
    using good p dec
    by (simp add: GetByTransactionID_def query_row_def repo_good_def healthy_def find_conj [OF txn_inv_distinct [OF inv]])
  show ?thesis
  proof (cases "by_tid b (tables s p)")
    case None
    then show ?thesis
      by (simp add: eq txn_view_eq [OF inv p dec] scan_none)
  next
    case (Some row)
    then have "row_ok row"
      using by_tid_SomeD txn_inv_row_ok [OF inv] by blast
    with Some show ?thesis
      by (simp add: eq txn_view_eq [OF inv p dec] scan_none scan_ok(1) row_txn_fields)
  qed
qed

lemma GetByMerchantOrderID_view:
  assumes good: "repo_good env r s" and "router_known r i" and oid: "valid_order_id oid"
  shows "\<exists>res. GetByMerchantOrderID env r i m oid s = (step_store s, res) \<and>
    (case res of
       Inr t \<Rightarrow> txn_view r s i (t_TransactionID t) = Some t \<and> env_coll env (t_MerchantID t) m \<and> env_coll env (t_OrderID t) oid
     | Inl e \<Rightarrow> e = Sentinel ErrNotFound \<and>
         (\<forall>tid t. txn_view r s i tid = Some t \<longrightarrow> \<not> (env_coll env (t_MerchantID t) m \<and> env_coll env (t_OrderID t) oid)))"
proof -
  obtain p where p: "router_For r i = Inr p"
    using known_For assms by (auto simp: repo_good_def)
  have inv: "txn_inv s" and v: "ValidateOrderID oid = Inr ()"
    using good oid by (simp_all add: repo_good_def ValidateOrderID_Inr_iff)
  have eq: "GetByMerchantOrderID env r i m oid s =
      (step_store s, stamp i (scanTransaction (Inr (find (matches env m oid) (tables s p)))))"
    using good p v by (simp add: GetByMerchantOrderID_def query_row_def repo_good_def healthy_def)
  show ?thesis
  proof (cases "find (matches env m oid) (tables s p)")
    case None
    then have "\<forall>row \<in> set (tables s p). \<not> matches env m oid row"
      by (auto simp: find_None_iff)
    then show ?thesis
      using p by (auto simp: eq None scan_none matches_def row_txn_fields elim!: txn_view_SomeE)
  next
    case (Some row)
    then have row: "row \<in> set (tables s p)" "matches env m oid row"
      by (auto simp: find_Some_iff)
    then show ?thesis
      using eq Some scan_ok(1) [OF txn_inv_row_ok [OF inv row(1)]] txn_view_row [OF inv p row(1)]
      by (simp add: row_txn_fields txn_inv_row_ok [OF inv row(1)] matches_def)
  qed
qed

lemma row_txn_update_status:
  assumes "row_ok row" and "decodeStatus v = Inr st"
  shows "row_txn j (row\<lparr>row_status := v, row_updated_at := u, row_stripe_pi_id := coalesce pi (row_stripe_pi_id row)\<rparr>) =
    (row_txn j row)\<lparr>t_Status := st, t_UpdatedAt := u,
       t_StripePaymentIntentID := (if pi = [] then t_StripePaymentIntentID (row_txn j row) else pi)\<rparr>"
proof -
  obtain c st' where "decodeCurrency (row_currency_code row) = Inr c" "decodeStatus (row_status row) = Inr st'"
    using assms decodeCurrency_stored decodeStatus_stored by (fastforce simp: row_ok_def)
  with assms(2) show ?thesis
    by (auto simp: row_txn_def scanTransaction_def coalesce_def bytes_string_def)
qed

lemma row_txn_update_checkout:
  assumes "row_ok row"
  shows "row_txn j (row\<lparr>row_stripe_session := coalesce sess (row_stripe_session row),
       row_stripe_pi_id := coalesce pi (row_stripe_pi_id row), row_updated_at := u\<rparr>) =
    (row_txn j row)\<lparr>t_StripeSessionID := (if sess = [] then t_StripeSessionID (row_txn j row) else sess),
       t_StripePaymentIntentID := (if pi = [] then t_StripePaymentIntentID (row_txn j row) else pi), t_UpdatedAt := u\<rparr>"
proof -
  obtain c st' where "decodeCurrency (row_currency_code row) = Inr c" "decodeStatus (row_status row) = Inr st'"
    using assms decodeCurrency_stored decodeStatus_stored by (fastforce simp: row_ok_def)
  then show ?thesis
    by (auto simp: row_txn_def scanTransaction_def coalesce_def bytes_string_def)
qed

lemma UpdateStatus_view:
  fixes s :: "'a txn_store_scheme"
  assumes good: "repo_good env r s" and "router_known r i" and oid: "valid_order_id oid"
    and st: "TransactionStatus_Valid st" and pi: "length pi \<le> 64"
  shows "\<exists>s' upd. UpdateStatus env r i m oid st pi s =
      (s', if \<exists>tid t. txn_view r s i tid = Some t \<and> env_coll env (t_MerchantID t) m \<and> env_coll env (t_OrderID t) oid
           then Inr () else Inl (Sentinel ErrNotFound)) \<and> repo_good env r s' \<and>
    txn_view r s' = (\<lambda>j tid. map_option (\<lambda>t.
       if router_colocated r j i \<and> env_coll env (t_MerchantID t) m \<and> env_coll env (t_OrderID t) oid
       then t\<lparr>t_Status := st, t_UpdatedAt := upd,
              t_StripePaymentIntentID := (if pi = [] then t_StripePaymentIntentID t else pi)\<rparr>
       else t) (txn_view r s j tid))"
proof -
  obtain p where p: "router_For r i = Inr p"
    using known_For assms by (auto simp: repo_good_def)
  obtain v where v: "encodeStatus st = Inr v"
    using st encodeStatus_Valid by blast
  let ?u = "env_timestamp env (env_clock env (stmts s))"
  let ?f = "\<lambda>row. row\<lparr>row_status := v, row_updated_at := ?u, row_stripe_pi_id := coalesce pi (row_stripe_pi_id row)\<rparr>"
  let ?g = "\<lambda>t. t\<lparr>t_Status := st, t_UpdatedAt := ?u,
      t_StripePaymentIntentID := (if pi = [] then t_StripePaymentIntentID t else pi)\<rparr>"
  let ?Q = "\<lambda>t. env_coll env (t_MerchantID t) m \<and> env_coll env (t_OrderID t) oid"
  obtain s' n where ex: "exec_update env p (matches env m oid) ?f s = (s', Inr n)"
    and n: "n \<noteq> 0 \<longleftrightarrow> (\<exists>tid t. txn_view r s i tid = Some t \<and> ?Q t)" and good': "repo_good env r s'"
    and view: "txn_view r s' = (\<lambda>j tid. map_option (\<lambda>t. if router_colocated r j i \<and> ?Q t then ?g t else t) (txn_view r s j tid))"
  proof (rule view_exec_update [OF good p, of ?f ?g "matches env m oid" ?Q])
    show "row_ok (?f row)" if "row_ok row" for row
      using that pi encodeStatus_le [OF v] by (auto simp: row_ok_def row_fits_def opt_fits_def coalesce_def)
  qed (auto simp: row_txn_update_status decodeStatus_encodeStatus [OF v] matches_def row_txn_fields)
  have "UpdateStatus env r i m oid st pi s = (s', if n \<noteq> 0 then Inr () else Inl (Sentinel ErrNotFound))"
    using v p oid ex by (simp add: UpdateStatus_def ValidateOrderID_valid)
  with n good' view show ?thesis
    by (intro exI [of _ s'] exI [of _ ?u]) simp
qed

lemma UpdateCheckout_view:
  fixes s :: "'a txn_store_scheme"
  assumes good: "repo_good env r s" and "router_known r i" and oid: "valid_order_id oid"
    and sess: "length sess \<le> 96" and pi: "length pi \<le> 64"
  shows "\<exists>s' upd. UpdateCheckout env r i m oid sess pi s =
      (s', if \<exists>tid t. txn_view r s i tid = Some t \<and> env_coll env (t_MerchantID t) m \<and> env_coll env (t_OrderID t) oid
           then Inr () else Inl (Sentinel ErrNotFound)) \<and> repo_good env r s' \<and>
    txn_view r s' = (\<lambda>j tid. map_option (\<lambda>t.
       if router_colocated r j i \<and> env_coll env (t_MerchantID t) m \<and> env_coll env (t_OrderID t) oid
       then t\<lparr>t_StripeSessionID := (if sess = [] then t_StripeSessionID t else sess),
              t_StripePaymentIntentID := (if pi = [] then t_StripePaymentIntentID t else pi), t_UpdatedAt := upd\<rparr>
       else t) (txn_view r s j tid))"
proof -
  obtain p where p: "router_For r i = Inr p"
    using known_For assms by (auto simp: repo_good_def)
  let ?u = "env_timestamp env (env_clock env (stmts s))"
  let ?f = "\<lambda>row. row\<lparr>row_stripe_session := coalesce sess (row_stripe_session row),
      row_stripe_pi_id := coalesce pi (row_stripe_pi_id row), row_updated_at := ?u\<rparr>"
  let ?g = "\<lambda>t. t\<lparr>t_StripeSessionID := (if sess = [] then t_StripeSessionID t else sess),
      t_StripePaymentIntentID := (if pi = [] then t_StripePaymentIntentID t else pi), t_UpdatedAt := ?u\<rparr>"
  let ?Q = "\<lambda>t. env_coll env (t_MerchantID t) m \<and> env_coll env (t_OrderID t) oid"
  obtain s' n where ex: "exec_update env p (matches env m oid) ?f s = (s', Inr n)"
    and n: "n \<noteq> 0 \<longleftrightarrow> (\<exists>tid t. txn_view r s i tid = Some t \<and> ?Q t)" and good': "repo_good env r s'"
    and view: "txn_view r s' = (\<lambda>j tid. map_option (\<lambda>t. if router_colocated r j i \<and> ?Q t then ?g t else t) (txn_view r s j tid))"
  proof (rule view_exec_update [OF good p, of ?f ?g "matches env m oid" ?Q])
    show "row_ok (?f row)" if "row_ok row" for row
      using that pi sess by (auto simp: row_ok_def row_fits_def opt_fits_def coalesce_def)
  qed (auto simp: row_txn_update_checkout matches_def row_txn_fields)
  have "UpdateCheckout env r i m oid sess pi s = (s', if n \<noteq> 0 then Inr () else Inl (Sentinel ErrNotFound))"
    using p oid ex by (simp add: UpdateCheckout_def ValidateOrderID_valid)
  with n good' view show ?thesis
    by (intro exI [of _ s'] exI [of _ ?u]) simp
qed

lemma repo_good_step [simp]: "repo_good env r (step_store s) = repo_good env r s"
  by (simp add: repo_good_def)

lemma txn_view_step [simp]: "txn_view r (step_store s) = txn_view r s"
  by (rule txn_view_tables) simp

interpretation txr: transaction_repository "repo_good env r" "txn_view r" "env_coll env" "router_known r"
  "router_colocated r" txn_accepts "stored_txn env" "txn_Insert env r" "GetByTransactionID env r"
  "GetByMerchantOrderID env r" "UpdateStatus env r" "UpdateCheckout env r"
  for env :: db_env and r :: "nat multiShardRouter"
proof (unfold_locales, goal_cases)
  case (1 s x)
  then show ?case by (simp add: repo_good_def healthy_def)
next
  case (2 i)
  then show ?case by (simp add: router_colocated_def)
next
  case (3 s i tid t)
  then show ?case by (rule txn_view_shape)
next
  case (4 s i tid)
  then show ?case by (simp add: txn_view_def decodeHex16_ToLower cong: sum.case_cong)
next
  case (5 s t)
  then show ?case by (rule txn_Insert_view_new)
next
  case (6 s t)
  then show ?case by (simp add: txn_Insert_view_dup)
next
  case (7 s i tid b m)
  then show ?case by (simp add: GetByTransactionID_view)
next
  case (8 s i oid m)
  then show ?case using GetByMerchantOrderID_view [of env r s i oid m] by auto
next
  case (9 s i oid st pi m)
  then show ?case by (rule UpdateStatus_view)
next
  case (10 s i oid sess pi m)
  then show ?case by (rule UpdateCheckout_view)
qed

section \<open>The insertion sort of the reconciler's batch\<close>

text \<open>The array loop as an insertion into the reversed sorted prefix.\<close>

fun ins_rev :: "Transaction \<Rightarrow> Transaction list \<Rightarrow> Transaction list" where
  "ins_rev b [] = [b]"
| "ins_rev b (a # as) = (if in_order a b then b # a # as else a # ins_rev b as)"

lemma in_order_total: "\<not> in_order a b \<Longrightarrow> in_order b a"
  by (auto simp: in_order_def)

lemma in_order_trans: "in_order a b \<Longrightarrow> in_order b c \<Longrightarrow> in_order a c"
  by (auto simp: in_order_def)

lemma sift_ins_rev: "sift (length as) (as @ b # cs) = rev (ins_rev b (rev as)) @ cs"
proof (induction as arbitrary: cs rule: rev_induct)
  case (snoc a as)
  have "(as @ a # b # cs)[length as := b, Suc (length as) := a] = as @ b # a # cs"
    by (simp add: list_update_append)
  with snoc.IH [of "a # cs"] show ?case
    by (simp add: nth_append)
qed simp

lemma fold_sift: "fold sift [length as..<length as + length bs] (as @ bs) = rev (fold ins_rev bs (rev as))"
proof (induction bs arbitrary: as)
  case (Cons b bs)
  let ?as = "rev (ins_rev b (rev as))"
  have len: "length (ins_rev b xs) = Suc (length xs)" for xs
    by (induction xs) auto
  have "[length as..<length as + length (b # bs)] = length as # [length ?as..<length ?as + length bs]"
    by (simp add: upt_conv_Cons len del: upt_Suc)
  then show ?case
    using Cons.IH [of ?as] by (simp add: sift_ins_rev)
qed simp

lemma sort_ins_rev: "sortTransactionsByCreatedAt txns = rev (fold ins_rev txns [])"
proof (cases txns)
  case (Cons a as)
  then show ?thesis
    using fold_sift [of "[a]" as] by (simp add: sortTransactionsByCreatedAt_def)
qed (simp add: sortTransactionsByCreatedAt_def)

lemma mset_ins_rev: "mset (ins_rev b as) = add_mset b (mset as)"
  by (induction as) auto

lemma sorted_ins_rev:
  "sorted_wrt (\<lambda>x y. in_order y x) as \<Longrightarrow> sorted_wrt (\<lambda>x y. in_order y x) (ins_rev b as)"
proof (induction as)
  case (Cons a as)
  have "set (ins_rev b as) = insert b (set as)"
    by (metis mset_ins_rev set_mset_add_mset_insert set_mset_mset)
  with Cons show ?case
    by (auto intro: in_order_trans in_order_total)
qed simp

lemma fold_ins_rev:
  "sorted_wrt (\<lambda>x y. in_order y x) as \<Longrightarrow>
    sorted_wrt (\<lambda>x y. in_order y x) (fold ins_rev bs as) \<and> mset (fold ins_rev bs as) = mset bs + mset as"
  by (induction bs arbitrary: as) (auto simp: sorted_ins_rev mset_ins_rev)

lemma sortTransactions_sorted: "sorted_wrt in_order (sortTransactionsByCreatedAt txns)"
  using fold_ins_rev [of "[]" txns] by (simp add: sort_ins_rev sorted_wrt_rev)

lemma sortTransactions_mset: "mset (sortTransactionsByCreatedAt txns) = mset txns"
  using fold_ins_rev [of "[]" txns] by (simp add: sort_ins_rev)

section \<open>The oldest stuck transactions\<close>

lemma scan_rows_ok: "list_all row_ok rows \<Longrightarrow> scan_rows i rows = Inr (map (row_txn i) rows)"
  by (induction rows) (auto simp: scan_ok(1))

lemma gather_all_Inr: "gather_all (map Inr tss) all None = Inr (all @ concat tss)"
  by (induction tss arbitrary: all) auto

lemma sorted_key_take_drop:
  "x \<in> set (take n (sort_key f xs)) \<Longrightarrow> y \<in> set (drop n (sort_key f xs)) \<Longrightarrow> f x \<le> f y"
proof -
  assume "x \<in> set (take n (sort_key f xs))" "y \<in> set (drop n (sort_key f xs))"
  then have "f x \<in> set (take n (map f (sort_key f xs)))" "f y \<in> set (drop n (map f (sort_key f xs)))"
    by (simp_all add: take_map drop_map)
  moreover have "sorted (take n (map f (sort_key f xs)) @ drop n (map f (sort_key f xs)))"
    by simp
  ultimately show ?thesis
    by (metis sorted_append)
qed

lemma sorted_wrt_take_drop: "sorted_wrt R xs \<Longrightarrow> x \<in> set (take n xs) \<Longrightarrow> y \<in> set (drop n xs) \<Longrightarrow> R x y"
  by (metis append_take_drop_id sorted_wrt_append)

definition all_stuck :: "nat multiShardRouter \<Rightarrow> int \<Rightarrow> 'a txn_store_scheme \<Rightarrow> Transaction list" where
  "all_stuck r before s =
     concat (map (\<lambda>i. map (row_txn (physicalToFirstLogical r (length (router_All r)) ! i))
                       (filter (is_stuck before) (tables s (router_All r ! i)))) [0..<length (router_All r)])"

lemma mset_concat_map_perm: "mset xs = mset ys \<Longrightarrow> mset (concat (map f xs)) = mset (concat (map f ys))"
  by (metis mset_concat mset_map sum_mset_sum_list map_map)

lemma mset_concat_map_sub: "i \<in> set xs \<Longrightarrow> mset (f i) \<subseteq># mset (concat (map f xs))"
  by (induction xs) (auto simp: subset_mset.add_increasing subset_mset.add_increasing2)

lemma min_sum_list_min: "min n (\<Sum>x\<leftarrow>xs. min n (f x)) = min n (\<Sum>x\<leftarrow>xs. f x :: nat)"
  by (induction xs) auto

lemma sum_list_eq_length_concat: "length (concat (map f xs)) = (\<Sum>x\<leftarrow>xs. length (f x))"
  by (induction xs) auto

lemma take_smallest:
  assumes sorted: "sorted_wrt in_order xs" and x: "x \<in> set (take n xs)"
    and sub: "mset ys \<subseteq># mset xs" and len: "n \<le> length ys"
  shows "\<exists>y \<in> set ys. t_CreatedAt x \<le> t_CreatedAt y"
proof (rule ccontr)
  assume "\<not> ?thesis"
  then have less: "\<forall>y \<in> set ys. t_CreatedAt y < t_CreatedAt x"
    by auto
  let ?P = "\<lambda>y. t_CreatedAt y < t_CreatedAt x"
  have "filter_mset ?P (mset ys) = mset ys"
    using less by (simp add: filter_mset_eq_conv)
  then have "mset ys \<subseteq># filter_mset ?P (mset xs)"
    using multiset_filter_mono [OF sub, of ?P] by simp
  then have "length ys \<le> length (filter ?P xs)"
    using size_mset_mono by (fastforce simp flip: mset_filter)
  moreover have "filter ?P (drop n xs) = []"
    using sorted_wrt_take_drop [OF sorted x] by (fastforce simp: filter_empty_conv in_order_def)
  then have "filter ?P xs = filter ?P (take n xs)"
    by (metis append_Nil2 append_take_drop_id filter_append)
  moreover have "length (filter ?P (take n xs)) < length (take n xs)"
    using x by (intro length_filter_less) auto
  ultimately show False
    using len by simp
qed

text \<open>The batches of the shards, and what their limit left behind.\<close>

lemma pending_rows_split:
  "mset (pending_rows before n rows) + mset (drop n (sort_key row_created_at (filter (is_stuck before) rows))) =
     mset (filter (is_stuck before) rows)"
  by (simp add: pending_rows_def flip: mset_append mset_filter)

lemma length_pending_rows: "length (pending_rows before n rows) = min n (length (filter (is_stuck before) rows))"
  by (simp add: pending_rows_def)

lemma set_pending_rows: "set (pending_rows before n rows) \<subseteq> set rows"
  using set_take_subset [of n] by (fastforce simp: pending_rows_def)

definition batch :: "nat multiShardRouter \<Rightarrow> int \<Rightarrow> nat \<Rightarrow> 'a txn_store_scheme \<Rightarrow> nat \<Rightarrow> Transaction list" where
  "batch r before n s i = map (row_txn (physicalToFirstLogical r (length (router_All r)) ! i))
     (pending_rows before n (tables s (router_All r ! i)))"

definition leftover :: "nat multiShardRouter \<Rightarrow> int \<Rightarrow> nat \<Rightarrow> 'a txn_store_scheme \<Rightarrow> nat \<Rightarrow> Transaction list" where
  "leftover r before n s i = map (row_txn (physicalToFirstLogical r (length (router_All r)) ! i))
     (drop n (sort_key row_created_at (filter (is_stuck before) (tables s (router_All r ! i)))))"

lemma GetPendingBefore_batches:
  assumes good: "repo_good env r s" and "0 < limit"
  shows "GetPendingBefore env r before limit s =
    (step_store s, Inr (take (nat limit) (sortTransactionsByCreatedAt
      (concat (map (batch r before (nat limit) s) (env_arrival env (stmts s)))))))"
proof -
  have ok: "list_all row_ok (pending_rows before n (tables s p))" for n p
    using good set_pending_rows txn_inv_row_ok by (fastforce simp: repo_good_def list_all_iff)
  have "pending_shard env before (nat limit) (router_All r ! i) (physicalToFirstLogical r (length (router_All r)) ! i) s
      = Inr (batch r before (nat limit) s i)" for i
    using good by (simp add: pending_shard_def repo_good_def healthy_def scan_rows_ok [OF ok] batch_def)
  then show ?thesis
    using assms(2) gather_all_Inr [of "map (batch r before (nat limit) s) (env_arrival env (stmts s))" "[]"]
    by (simp add: GetPendingBefore_def Let_def comp_def)
qed

lemma all_stuck_split:
  "mset (concat (map (batch r before n s) [0..<length (router_All r)])) +
   mset (concat (map (leftover r before n s) [0..<length (router_All r)])) = mset (all_stuck r before s)"
proof -
  have "mset (concat (map f xs)) + mset (concat (map g xs)) = mset (concat (map h xs))"
    if "\<And>i. mset (f i) + mset (g i) = mset (h i)" for f g h :: "nat \<Rightarrow> Transaction list" and xs
    by (induction xs) (simp_all add: that [symmetric] union_ac)
  then show ?thesis
    unfolding all_stuck_def
    by (metis (no_types, lifting) batch_def leftover_def image_mset_union mset_map pending_rows_split)
qed

lemma leftover_newer:
  assumes inv: "txn_inv s" and u: "u \<in> set (leftover r before n s i)"
  shows "length (batch r before n s i) = n" and "t \<in> set (batch r before n s i) \<Longrightarrow> t_CreatedAt t \<le> t_CreatedAt u"
proof -
  let ?sorted = "sort_key row_created_at (filter (is_stuck before) (tables s (router_All r ! i)))"
  obtain row where row: "row \<in> set (drop n ?sorted)" "u = row_txn (physicalToFirstLogical r (length (router_All r)) ! i) row"
    using u by (auto simp: leftover_def)
  then show "length (batch r before n s i) = n"
    by (auto simp: batch_def length_pending_rows dest!: length_pos_if_in_set)
  have ok: "row_ok x" if "x \<in> set ?sorted" for x
    using that txn_inv_row_ok [OF inv] by auto
  show "t_CreatedAt t \<le> t_CreatedAt u" if t: "t \<in> set (batch r before n s i)"
  proof -
    obtain x where x: "x \<in> set (take n ?sorted)" "t = row_txn (physicalToFirstLogical r (length (router_All r)) ! i) x"
      using t by (auto simp: batch_def pending_rows_def)
    from sorted_key_take_drop [OF x(1) row(1)] x(2) row(2) show ?thesis
      by (simp add: row_txn_fields(5) ok [OF in_set_takeD [OF x(1)]] ok [OF in_set_dropD [OF row(1)]])
  qed
qed

lemma GetPendingBefore_spec:
  assumes good: "repo_good env r s" and limit: "0 < limit"
    and arrival: "mset (env_arrival env (stmts s)) = mset [0..<length (router_All r)]"
  shows "\<exists>ts rest. GetPendingBefore env r before limit s = (step_store s, Inr ts) \<and>
    sorted_wrt in_order ts \<and> mset ts + mset rest = mset (all_stuck r before s) \<and>
    length ts = min (nat limit) (length (all_stuck r before s)) \<and>
    (\<forall>t \<in> set ts. \<forall>u \<in> set rest. t_CreatedAt t \<le> t_CreatedAt u)"
proof -
  let ?n = "nat limit" and ?all = "[0..<length (router_All r)]"
  let ?f = "batch r before ?n s" and ?g = "leftover r before ?n s"
  let ?xs = "sortTransactionsByCreatedAt (concat (map ?f (env_arrival env (stmts s))))"
  have inv: "txn_inv s" using good by (simp add: repo_good_def)
  have xs: "mset ?xs = mset (concat (map ?f ?all))"
    by (metis sortTransactions_mset mset_concat_map_perm arrival)
  have split: "mset ?xs + mset (concat (map ?g ?all)) = mset (all_stuck r before s)"
    using all_stuck_split [of r before ?n s] xs by simp
  have "length ?xs = (\<Sum>i\<leftarrow>?all. length (?f i))"
    by (metis mset_eq_length sum_list_eq_length_concat xs)
  also have "\<dots> = (\<Sum>i\<leftarrow>?all. min ?n (length (filter (is_stuck before) (tables s (router_All r ! i)))))"
    by (simp add: batch_def length_pending_rows)
  finally have "min ?n (length ?xs) = min ?n (length (all_stuck r before s))"
    by (simp add: min_sum_list_min all_stuck_def sum_list_eq_length_concat del: map_map)
  moreover have "t_CreatedAt t \<le> t_CreatedAt u"
    if t: "t \<in> set (take ?n ?xs)" and un: "u \<in> set (drop ?n ?xs) \<union> set (concat (map ?g ?all))" for t u
  proof (cases "u \<in> set (drop ?n ?xs)")
    case True
    then show ?thesis
      using sorted_wrt_take_drop [OF sortTransactions_sorted t True] by (auto simp: in_order_def)
  next
    case False
    then obtain i where i: "i \<in> set ?all" and u: "u \<in> set (?g i)"
      using un by auto
    have "mset (?f i) \<subseteq># mset (concat (map ?f ?all))"
      using i by (rule mset_concat_map_sub)
    then show ?thesis
      using take_smallest [OF sortTransactions_sorted t, of "?f i"] leftover_newer [OF inv u] xs
      by fastforce
  qed
  moreover have "sorted_wrt in_order (take ?n ?xs)"
    by (rule sorted_wrt_take) (rule sortTransactions_sorted)
  moreover have "mset (take ?n ?xs) + mset (drop ?n ?xs @ concat (map ?g ?all)) = mset (all_stuck r before s)"
    using split by (metis append_take_drop_id mset_append union_assoc)
  ultimately show ?thesis
    using GetPendingBefore_batches [OF good limit, of before]
    by (intro exI [of _ "take ?n ?xs"] exI [of _ "drop ?n ?xs @ concat (map ?g ?all)"]) (simp add: min.commute)
qed

text \<open>C35. The reconciler's batch is the oldest stuck transactions of the whole fleet: whatever the
  order in which the shards answer, \<^verbatim>\<open>GetPendingBefore\<close> returns, sorted by creation time and
  transaction id, \<open>min limit total\<close> of the created or pending transactions older than the cutoff,
  and none it leaves out is older than one it returns.\<close>

theorem GetPendingBefore_oldest:
  assumes good: "repo_good env r s" and limit: "0 < limit"
    and arrival: "mset (env_arrival env (stmts s)) = mset [0..<length (router_All r)]"
  shows "\<exists>ts rest. GetPendingBefore env r before limit s = (step_store s, Inr ts) \<and>
    sorted_wrt in_order ts \<and> mset ts + mset rest = mset (all_stuck r before s) \<and>
    length ts = min (nat limit) (length (all_stuck r before s)) \<and>
    (\<forall>t \<in> set ts. \<forall>u \<in> set rest. t_CreatedAt t \<le> t_CreatedAt u)"
  using assms by (rule GetPendingBefore_spec)

section \<open>Scatter-gather\<close>

lemma gather_first_hit:
  "(i, Inr t) \<in> set ans \<Longrightarrow>
    \<exists>j u. (j, Inr u) \<in> set ans \<and> gather_first ans logical k err n = Inr (u\<lparr>t_ShardIndex := logical ! j\<rparr>)"
proof (induction ans arbitrary: k err)
  case (Cons a ans)
  obtain j res where a: "a = (j, res)" by fastforce
  show ?case
  proof (cases res)
    case (Inl e)
    with Cons.prems a have "(i, Inr t) \<in> set ans" by auto
    with Cons.IH a Inl show ?thesis
      by (cases "errors_Is e ErrNotFound") fastforce+
  qed (use a in auto)
qed simp

lemma gather_first_miss:
  assumes "\<And>i res. (i, res) \<in> set ans \<Longrightarrow> \<exists>e. res = Inl e"
    and "err = None \<Longrightarrow> k + length ans = n" and "err \<noteq> None \<Longrightarrow> k + length ans < n"
    and "\<And>e. err = Some e \<Longrightarrow> \<not> errors_Is e ErrNotFound"
  shows "\<exists>e. gather_first ans logical k err n = Inl e \<and>
    (errors_Is e ErrNotFound \<longleftrightarrow> err = None \<and> (\<forall>(i, res) \<in> set ans. \<exists>e. res = Inl e \<and> errors_Is e ErrNotFound))"
  using assms
proof (induction ans arbitrary: k err)
  case Nil
  then show ?case
    by (cases err) auto
next
  case (Cons a ans)
  obtain i e where a: "a = (i, Inl e)"
    using Cons.prems(1) [of "fst a" "snd a"] by (cases a) auto
  show ?case
  proof (cases "errors_Is e ErrNotFound")
    case True
    have "\<exists>e. gather_first ans logical (Suc k) err n = Inl e \<and>
      (errors_Is e ErrNotFound \<longleftrightarrow> err = None \<and> (\<forall>(i, res) \<in> set ans. \<exists>e. res = Inl e \<and> errors_Is e ErrNotFound))"
      by (rule Cons.IH) (use Cons.prems in \<open>force+\<close>)
    with a True show ?thesis
      by auto
  next
    case False
    let ?err = "if err = None then Some e else err"
    have "\<exists>e. gather_first ans logical k ?err n = Inl e \<and>
      (errors_Is e ErrNotFound \<longleftrightarrow> ?err = None \<and> (\<forall>(i, res) \<in> set ans. \<exists>e. res = Inl e \<and> errors_Is e ErrNotFound))"
      by (rule Cons.IH) (use Cons.prems False in \<open>force split: if_splits\<close>)+
    with a False show ?thesis
      by auto
  qed
qed

definition pool_answer :: "db_env \<Rightarrow> nat multiShardRouter \<Rightarrow> (txn_row \<Rightarrow> bool) \<Rightarrow> 'a txn_store_scheme \<Rightarrow> nat \<Rightarrow> Transaction result" where
  "pool_answer env r P s i = scanTransaction (snd (query_row env (router_All r ! i) P s))"

lemma pool_answer_Inr:
  assumes inv: "txn_inv s"
  shows "pool_answer env r P s i = Inr t \<longleftrightarrow>
    env_fault env (stmts s) (router_All r ! i) = None \<and>
    (\<exists>row. find P (tables s (router_All r ! i)) = Some row \<and> t = row_txn 0 row)"
proof (cases "env_fault env (stmts s) (router_All r ! i)")
  case None
  show ?thesis
  proof (cases "find P (tables s (router_All r ! i))")
    case (Some row)
    then have "row_ok row"
      using txn_inv_row_ok [OF inv, of row "router_All r ! i"] by (auto simp: find_Some_iff)
    with None Some show ?thesis
      by (auto simp: pool_answer_def query_row_def scan_ok(2))
  qed (use None in \<open>simp add: pool_answer_def query_row_def scanTransaction_def\<close>)
qed (simp add: pool_answer_def query_row_def scanTransaction_def)

lemma pool_answer_NotFound:
  assumes inv: "txn_inv s" and "\<forall>n p e. env_fault env n p = Some e \<longrightarrow> \<not> errors_Is e ErrNotFound"
  shows "(\<exists>e. pool_answer env r P s i = Inl e \<and> errors_Is e ErrNotFound) \<longleftrightarrow>
    env_fault env (stmts s) (router_All r ! i) = None \<and> find P (tables s (router_All r ! i)) = None"
proof (cases "env_fault env (stmts s) (router_All r ! i)")
  case None
  show ?thesis
  proof (cases "find P (tables s (router_All r ! i))")
    case (Some row)
    then have "row_ok row"
      using txn_inv_row_ok [OF inv, of row "router_All r ! i"] by (auto simp: find_Some_iff)
    with None Some show ?thesis
      by (auto simp: pool_answer_def query_row_def scan_ok(2))
  qed (use None in \<open>simp add: pool_answer_def query_row_def scanTransaction_def\<close>)
qed (use assms(2) in \<open>auto simp: pool_answer_def query_row_def scanTransaction_def\<close>)

lemma row_txn_shard: "(row_txn i row)\<lparr>t_ShardIndex := j\<rparr> = row_txn j row"
  by (simp add: row_txn_def)

lemma scatterFirst_cases:
  assumes wf: "wf_router r" and inv: "txn_inv s"
    and faults: "\<forall>n p e. env_fault env n p = Some e \<longrightarrow> \<not> errors_Is e ErrNotFound"
    and arrival: "mset (env_arrival env (stmts s)) = mset [0..<length (router_All r)]"
  obtains (hit) p row where "p < length (router_All r)" "row \<in> set (tables s (router_All r ! p))" "P row"
      "router_For r (physicalToFirstLogical r (length (router_All r)) ! p) = Inr (router_All r ! p)"
      "scatterFirst env r P s = (step_store s, Inr (row_txn (physicalToFirstLogical r (length (router_All r)) ! p) row))"
  | (miss) e where "scatterFirst env r P s = (step_store s, Inl e)"
      "\<And>p row. p < length (router_All r) \<Longrightarrow> env_fault env (stmts s) (router_All r ! p) = None \<Longrightarrow>
         row \<in> set (tables s (router_All r ! p)) \<Longrightarrow> \<not> P row"
      "errors_Is e ErrNotFound \<longleftrightarrow> (\<forall>p < length (router_All r). env_fault env (stmts s) (router_All r ! p) = None)"
proof -
  let ?n = "length (router_All r)"
  let ?ans = "map (\<lambda>i. (i, pool_answer env r P s i)) (env_arrival env (stmts s))"
  have set: "set (env_arrival env (stmts s)) = {0..<?n}" and len: "length (env_arrival env (stmts s)) = ?n"
    using arrival mset_eq_setD mset_eq_length by fastforce+
  have sc: "scatterFirst env r P s = (step_store s, gather_first ?ans (physicalToFirstLogical r ?n) 0 None ?n)"
    by (simp add: scatterFirst_def Let_def pool_answer_def)
  show thesis
  proof (cases "\<exists>i t. (i, Inr t) \<in> set ?ans")
    case True
    then obtain j u where ju: "(j, Inr u) \<in> set ?ans"
      and g: "gather_first ?ans (physicalToFirstLogical r ?n) 0 None ?n = Inr (u\<lparr>t_ShardIndex := physicalToFirstLogical r ?n ! j\<rparr>)"
      using gather_first_hit by meson
    from ju have j: "j < ?n" and "pool_answer env r P s j = Inr u"
      by (auto simp: set)
    then obtain row where row: "find P (tables s (router_All r ! j)) = Some row" "u = row_txn 0 row"
      using pool_answer_Inr [OF inv] by blast
    then have "row \<in> set (tables s (router_All r ! j))" "P row"
      by (auto simp: find_Some_iff)
    from hit [OF j this rt.for_first [OF wf j]] show thesis
      using sc g row(2) by (simp add: row_txn_shard)
  next
    case False
    then have inl: "\<And>i res. (i, res) \<in> set ?ans \<Longrightarrow> \<exists>e. res = Inl e"
      by (metis sumE)
    have "\<exists>e. gather_first ?ans (physicalToFirstLogical r ?n) 0 None ?n = Inl e \<and>
        (errors_Is e ErrNotFound \<longleftrightarrow> (None :: goerr option) = None \<and>
          (\<forall>(i, res) \<in> set ?ans. \<exists>e. res = Inl e \<and> errors_Is e ErrNotFound))"
      by (rule gather_first_miss) (use inl len in auto)
    then obtain e where e: "gather_first ?ans (physicalToFirstLogical r ?n) 0 None ?n = Inl e"
      and iff: "errors_Is e ErrNotFound \<longleftrightarrow> (\<forall>(i, res) \<in> set ?ans. \<exists>e. res = Inl e \<and> errors_Is e ErrNotFound)"
      by auto
    have none: "find P (tables s (router_All r ! p)) = None"
      if "p < ?n" "env_fault env (stmts s) (router_All r ! p) = None" for p
    proof (rule ccontr)
      assume "find P (tables s (router_All r ! p)) \<noteq> None"
      with that(2) obtain t where t: "pool_answer env r P s p = Inr t"
        using pool_answer_Inr [OF inv] by blast
      have "(p, pool_answer env r P s p) \<in> set ?ans"
        using that(1) by (simp add: set image_iff)
      with False t show "False"
        by metis
    qed
    show thesis
    proof (rule miss)
      show "scatterFirst env r P s = (step_store s, Inl e)"
        using sc e by simp
      show "\<not> P row" if "p < ?n" "env_fault env (stmts s) (router_All r ! p) = None"
        "row \<in> set (tables s (router_All r ! p))" for p row
        using none [OF that(1,2)] that(3) by (auto simp: find_None_iff)
      show "errors_Is e ErrNotFound \<longleftrightarrow> (\<forall>p < ?n. env_fault env (stmts s) (router_All r ! p) = None)"
        using iff none by (auto simp: set pool_answer_NotFound [OF inv faults])
    qed
  qed
qed

section \<open>Properties of the repository\<close>

text \<open>
  A small fleet for the witnesses: two pools behind four logical shards, a case-insensitive
  collation, time stamps rounded to seconds, no failing statement, and the second pool answering
  first.
\<close>

definition demo_env :: db_env where
  "demo_env = \<lparr>env_coll = EqualFold, env_timestamp = (\<lambda>t. (t + 500000000) div 1000000000 * 1000000000),
     env_fault = (\<lambda>n p. None), env_clock = (\<lambda>n. 1700000000 * 1000000000 + int n), env_arrival = (\<lambda>n. [1, 0])\<rparr>"

definition demo_router :: "nat multiShardRouter" where
  "demo_router = \<lparr>pools = [0, 1], logicalToDB = [0, 0, 1, 1], logicalCount = 4\<rparr>"

definition demo_txn :: "string \<Rightarrow> uint8 \<Rightarrow> Transaction" where
  "demo_txn oid i = \<lparr>t_MerchantID = ''M1'', t_TransactionID = ''000102030405060708090A0B0C0D0E0F'', t_OrderID = oid,
     t_Amount = 1500, t_Currency = ''usd'', t_Status = TransactionStatusCreated, t_PaymentMethod = ''Card'',
     t_StripeSessionID = [], t_StripePaymentIntentID = ''pi_1'', t_CreatedAt = zero_time, t_UpdatedAt = zero_time,
     t_ShardIndex = i\<rparr>"

definition demo_store :: txn_store where
  "demo_store = \<lparr>tables = (\<lambda>p. []), stmts = 0\<rparr>"

lemma demo_router_wf: "wf_router demo_router"
  by (simp add: wf_router_def demo_router_def route_table_def upt_rec) presburger

lemma demo_good: "repo_good demo_env demo_router demo_store"
  by (simp add: repo_good_def healthy_def demo_env_def demo_router_wf txn_inv_def table_ok_def demo_store_def)

lemma demo_decode: "decodeHex16 ''000102030405060708090A0B0C0D0E0F'' = Inr (map char_of [0 :: nat ..< 16])"
  by (simp add: decodeHex16_def fromHexChar_def upt_rec)

lemma demo_upper: "ToUpper ''usd'' = ''USD''"
  by code_simp

lemma demo_checks: "valid_order_id oid \<Longrightarrow> insert_checks (demo_txn oid i) = Inr (map char_of [0 :: nat ..< 16], 840, 0)"
  by (simp add: insert_checks_Inr demo_txn_def demo_decode encodeCurrency_def demo_upper currencyToCode_def encodeStatus_def)

lemma demo_accepts: "valid_order_id oid \<Longrightarrow> txn_accepts (demo_txn oid i)"
  by (simp add: txn_accepts_def demo_checks) (simp add: demo_txn_def)

lemma demo_oid: "valid_order_id ''o-1''"
  by (simp add: valid_order_id_def order_char_def)

text \<open>C34. Insert, then look up: a transaction accepted by the checks whose id is not taken is stored,
  and the lookup by its merchant and id returns it with the amount, order, status and Stripe ids
  unchanged, the currency in upper case, the method in its canonical name, the times as the
  columns keep them, and its own shard.\<close>

theorem txn_insert_lookup:
  assumes "repo_good env r s" and "txn_accepts t" and "router_known r (t_ShardIndex t)"
    and "txn_view r s (t_ShardIndex t) (t_TransactionID t) = None"
  shows "\<exists>s' s'' now. txn_Insert env r t s = (s', with_times now t, Inr ()) \<and>
    GetByTransactionID env r (t_ShardIndex t) (t_MerchantID t) (t_TransactionID t) s' =
      (s'', Inr ((stored_txn env (with_times now t))\<lparr>t_ShardIndex := t_ShardIndex t\<rparr>))"
proof -
  obtain txn cur st where "insert_checks t = Inr (txn, cur, st)"
    using assms(2) by (auto simp: txn_accepts_def)
  then have "decodeHex16 (t_TransactionID t) = Inr txn"
    by (simp add: insert_checks_Inr)
  from txr.insert_get [OF assms(1-3) this assms(4)] show ?thesis
    by (simp add: stored_txn_def) metis
qed

lemma demo_view_empty: "txn_view demo_router demo_store i tid = None"
  by (simp add: txn_view_def demo_store_def by_tid_def split: sum.split)

theorem txn_insert_lookup_witness:
  "\<exists>s' s'' now t. txn_Insert demo_env demo_router (demo_txn ''o-1'' 3) demo_store = (s', with_times now (demo_txn ''o-1'' 3), Inr ()) \<and>
    GetByTransactionID demo_env demo_router 3 ''M1'' ''000102030405060708090A0B0C0D0E0F'' s' = (s'', Inr t) \<and>
    t_Amount t = 1500 \<and> t_Currency t = ''USD'' \<and> t_ShardIndex t = 3"
proof -
  have "router_known demo_router (t_ShardIndex (demo_txn ''o-1'' 3))"
    by (simp add: router_known_def demo_router_def router_LogicalCount_def demo_txn_def)
  from txn_insert_lookup [OF demo_good demo_accepts [OF demo_oid] this demo_view_empty]
  obtain s' s'' now where
    "txn_Insert demo_env demo_router (demo_txn ''o-1'' 3) demo_store = (s', with_times now (demo_txn ''o-1'' 3), Inr ())"
    "GetByTransactionID demo_env demo_router 3 ''M1'' ''000102030405060708090A0B0C0D0E0F'' s' =
      (s'', Inr ((stored_txn demo_env (with_times now (demo_txn ''o-1'' 3)))\<lparr>t_ShardIndex := 3\<rparr>))"
    by (auto simp: demo_txn_def)
  then show ?thesis
    by (intro exI conjI) (assumption | simp add: stored_txn_def with_times_def demo_txn_def demo_upper)+
qed

text \<open>Retries collapse on the unique key: when a transaction with the same id is already in the
  pool of the shard, \<^verbatim>\<open>Insert\<close> reports \<^verbatim>\<open>ErrDuplicateTransaction\<close>, whatever the other fields of the
  new transaction are, and no table of the fleet changes.\<close>

theorem txn_insert_duplicate:
  assumes "repo_good env r s" and "txn_accepts t" and "router_known r (t_ShardIndex t)"
    and "txn_view r s (t_ShardIndex t) (t_TransactionID t) = Some u"
  shows "snd (snd (txn_Insert env r t s)) = Inl (Sentinel ErrDuplicateTransaction) \<and>
    tables (fst (txn_Insert env r t s)) = tables s"
  using txn_Insert_view_dup [OF assms(1-3)] assms(4) by simp

lemma demo_known: "router_known demo_router i \<longleftrightarrow> i < 4"
  by (simp add: router_known_def demo_router_def router_LogicalCount_def)

lemma demo_inserted:
  assumes "i < 4"
  obtains s' u where "txn_Insert demo_env demo_router (demo_txn ''o-1'' i) demo_store = (s', u)"
    and "repo_good demo_env demo_router s'"
    and "txn_view demo_router s' i ''000102030405060708090A0B0C0D0E0F'' \<noteq> None"
proof -
  have "router_known demo_router (t_ShardIndex (demo_txn ''o-1'' i))"
    using assms by (simp add: demo_known demo_txn_def)
  from txr.insert_new [OF demo_good demo_accepts [OF demo_oid] this demo_view_empty] obtain s' now where
    "txn_Insert demo_env demo_router (demo_txn ''o-1'' i) demo_store = (s', with_times now (demo_txn ''o-1'' i), Inr ())"
    "repo_good demo_env demo_router s'"
    "txn_view demo_router s' i ''000102030405060708090A0B0C0D0E0F'' \<noteq> None"
    by (auto simp: demo_txn_def router_colocated_def)
  then show thesis
    by (rule that)
qed

theorem txn_insert_duplicate_witness:
  "\<exists>s' u. txn_Insert demo_env demo_router (demo_txn ''o-1'' 3) demo_store = (s', u) \<and>
    snd (snd (txn_Insert demo_env demo_router ((demo_txn ''o-1'' 3)\<lparr>t_Amount := 7\<rparr>) s')) =
      Inl (Sentinel ErrDuplicateTransaction)"
proof -
  obtain s' u where ins: "txn_Insert demo_env demo_router (demo_txn ''o-1'' 3) demo_store = (s', u)"
    and good: "repo_good demo_env demo_router s'"
    and "txn_view demo_router s' 3 ''000102030405060708090A0B0C0D0E0F'' \<noteq> None"
    by (rule demo_inserted [of 3]) simp_all
  then obtain v where v: "txn_view demo_router s' 3 ''000102030405060708090A0B0C0D0E0F'' = Some v"
    by blast
  let ?t = "(demo_txn ''o-1'' 3)\<lparr>t_Amount := 7\<rparr>"
  have "insert_checks ?t = Inr (map char_of [0 :: nat ..< 16], 840, 0)"
    using demo_checks [OF demo_oid, of 3] by (simp add: insert_checks_Inr)
  then have "txn_accepts ?t"
    by (simp add: txn_accepts_def) (simp add: demo_txn_def)
  with ins txn_insert_duplicate [OF good, of ?t v] v show ?thesis
    by (simp add: demo_known) (simp add: demo_txn_def)
qed

text \<open>C7. A status update is exact: it succeeds precisely when the pool of the shard holds a
  transaction of that merchant and order under the collation, it sets status, time and (when one is
  given) the payment intent of exactly those transactions, and every other transaction of the
  fleet, and every other field, is left alone.\<close>

theorem UpdateStatus_exact:
  assumes "repo_good env r s" and "router_known r i" and "valid_order_id oid"
    and "TransactionStatus_Valid st" and "length pi \<le> 64"
  shows "\<exists>s' upd. UpdateStatus env r i m oid st pi s =
      (s', if \<exists>tid t. txn_view r s i tid = Some t \<and> env_coll env (t_MerchantID t) m \<and> env_coll env (t_OrderID t) oid
           then Inr () else Inl (Sentinel ErrNotFound)) \<and>
    (\<forall>j tid. txn_view r s' j tid = map_option (\<lambda>t.
       if router_colocated r j i \<and> env_coll env (t_MerchantID t) m \<and> env_coll env (t_OrderID t) oid
       then t\<lparr>t_Status := st, t_UpdatedAt := upd,
              t_StripePaymentIntentID := (if pi = [] then t_StripePaymentIntentID t else pi)\<rparr>
       else t) (txn_view r s j tid))"
  using txr.update_status [OF assms, of m] by (elim exE conjE, intro exI conjI allI) (assumption, simp only:)

theorem UpdateStatus_exact_witness:
  "\<exists>s'. UpdateStatus demo_env demo_router 3 ''M1'' ''o-1'' TransactionStatusPaid ''pi_9'' demo_store =
    (s', Inl (Sentinel ErrNotFound))"
  using UpdateStatus_exact [OF demo_good, of 3 "''o-1''" TransactionStatusPaid "''pi_9''" "''M1''"]
  by (auto simp: demo_known demo_oid TransactionStatus_Valid_def demo_view_empty)

text \<open>The global lookup by payment intent finds what a reachable pool holds, in any order of
  answers and with any set of failing pools: a hit is a row with that payment intent, stamped with a
  logical shard that routes back to the pool holding it; a miss means that no pool that answered
  holds one; and the error is \<^verbatim>\<open>ErrNotFound\<close> exactly if every pool answered.\<close>

theorem GetByPaymentIntentID_scatter:
  assumes "wf_router r" and "txn_inv s" and "pi \<noteq> []"
    and "\<forall>n p e. env_fault env n p = Some e \<longrightarrow> \<not> errors_Is e ErrNotFound"
    and "mset (env_arrival env (stmts s)) = mset [0..<length (router_All r)]"
  shows "(case snd (GetByPaymentIntentID env r pi s) of
     Inr t \<Rightarrow> \<exists>p. router_For r (t_ShardIndex t) = Inr p \<and> p \<in> set (router_All r) \<and>
       (\<exists>row \<in> set (tables s p). row_stripe_pi_id row = Some pi \<and> t = row_txn (t_ShardIndex t) row)
   | Inl e \<Rightarrow> (\<forall>p \<in> set (router_All r). env_fault env (stmts s) p = None \<longrightarrow>
         (\<forall>row \<in> set (tables s p). row_stripe_pi_id row \<noteq> Some pi)) \<and>
       (errors_Is e ErrNotFound \<longleftrightarrow> (\<forall>p \<in> set (router_All r). env_fault env (stmts s) p = None)))"
proof (cases rule: scatterFirst_cases [OF assms(1,2) assms(4,5),
      of "\<lambda>row. row_stripe_pi_id row = Some pi", case_names hit miss])
  case (hit p row)
  then show ?thesis
    using assms(3) row_txn_fields(4) [OF txn_inv_row_ok [OF assms(2) hit(2)]]
    by (auto simp: GetByPaymentIntentID_def intro!: exI [of _ "router_All r ! p"] bexI [of _ row])
next
  case (miss e)
  then show ?thesis
    using assms(3) by (auto simp: GetByPaymentIntentID_def all_set_conv_all_nth)
qed

theorem GetByPaymentIntentID_scatter_witness:
  "case snd (GetByPaymentIntentID demo_env demo_router ''pi_1'' demo_store) of
     Inr t \<Rightarrow> False | Inl e \<Rightarrow> errors_Is e ErrNotFound"
  using GetByPaymentIntentID_scatter [OF demo_router_wf, of demo_store "''pi_1''" demo_env] demo_good
  by (auto simp: repo_good_def demo_env_def demo_router_def router_All_def demo_store_def upt_rec split: sum.splits)

text \<open>Two stuck rows, the older one in the second pool.\<close>

definition demo_row :: "nat \<Rightarrow> int \<Rightarrow> txn_row" where
  "demo_row k at = \<lparr>row_transaction_id = replicate 16 (char_of k), row_merchant_id = ''M1'', row_order_id = ''o-1'',
     row_amount = 1500, row_currency_code = 840, row_status = 0, row_payment_method = 0,
     row_stripe_pi_id = None, row_stripe_session = None, row_created_at = at, row_updated_at = at\<rparr>"

definition demo_stuck :: txn_store where
  "demo_stuck = \<lparr>tables = (\<lambda>p. if p = 0 then [demo_row 7 90, demo_row 8 500] else if p = 1 then [demo_row 9 80] else []), stmts = 0\<rparr>"

lemma demo_row_ok: "row_ok (demo_row k at)"
  by (simp add: row_ok_def demo_row_def demo_oid row_fits_def opt_fits_def codeToCurrency_Some_iff [THEN iffD2, of "''USD''" 840]
      currencyToCode_def)

lemma demo_stuck_good: "repo_good demo_env demo_router demo_stuck"
proof -
  have "table_ok (tables demo_stuck p)" for p
    by (simp add: table_ok_def demo_stuck_def demo_row_ok) (simp add: demo_row_def)
  then show ?thesis
    using demo_good by (simp add: repo_good_def txn_inv_def)
qed

theorem GetPendingBefore_oldest_witness:
  "\<exists>ts. GetPendingBefore demo_env demo_router 100 1 demo_stuck = (step_store demo_stuck, Inr ts) \<and> length ts = 1"
proof -
  have "mset (env_arrival demo_env (stmts demo_stuck)) = mset [0..<length (router_All demo_router)]"
    by (simp add: demo_env_def demo_stuck_def demo_router_def router_All_def upt_rec)
  moreover have "length (all_stuck demo_router 100 demo_stuck) = 2"
    by (simp add: all_stuck_def demo_router_def router_All_def demo_stuck_def is_stuck_def upt_rec)
      (simp add: demo_row_def)
  ultimately show ?thesis
    using GetPendingBefore_oldest [OF demo_stuck_good, of 1 100] by auto
qed

section \<open>Every reachable table\<close>

inductive repo_reachable :: "db_env \<Rightarrow> nat multiShardRouter \<Rightarrow> txn_store \<Rightarrow> bool" for env r where
  empty: "repo_reachable env r \<lparr>tables = (\<lambda>p. []), stmts = n\<rparr>"
| insert: "repo_reachable env r s \<Longrightarrow> repo_reachable env r (fst (txn_Insert env r t s))"
| get_txn: "repo_reachable env r s \<Longrightarrow> repo_reachable env r (fst (GetByTransactionID env r i m tid s))"
| get_order: "repo_reachable env r s \<Longrightarrow> repo_reachable env r (fst (GetByMerchantOrderID env r i m oid s))"
| get_any: "repo_reachable env r s \<Longrightarrow> repo_reachable env r (fst (GetByOrderIDAny env r oid s))"
| get_pi: "repo_reachable env r s \<Longrightarrow> repo_reachable env r (fst (GetByPaymentIntentID env r pi s))"
| get_pending: "repo_reachable env r s \<Longrightarrow> repo_reachable env r (fst (GetPendingBefore env r before limit s))"
| update_status: "repo_reachable env r s \<Longrightarrow> repo_reachable env r (fst (UpdateStatus env r i m oid st pi s))"
| update_checkout: "repo_reachable env r s \<Longrightarrow> repo_reachable env r (fst (UpdateCheckout env r i m oid sess pi s))"

lemma txn_inv_tables: "tables s' = tables s \<Longrightarrow> txn_inv s' = txn_inv s"
  by (simp add: txn_inv_def)

text \<open>C8. Whatever sequence of repository operations ran, on whatever arguments and with whatever
  statements failing, no pool holds two rows with one transaction id, and every row decodes: its
  status, currency and method codes are known, its id has 16 bytes, its order id is valid, and no
  Stripe id is stored as an empty value.\<close>

theorem repo_reachable_inv: "repo_reachable env r s \<Longrightarrow> txn_inv s"
proof (induction rule: repo_reachable.induct)
  case (empty n)
  show ?case by (simp add: txn_inv_def table_ok_def)
qed (simp_all add: txn_Insert_inv UpdateStatus_inv UpdateCheckout_inv txn_inv_tables [OF reads_tables(1)]
    txn_inv_tables [OF reads_tables(2)] txn_inv_tables [OF reads_tables(3)]
    txn_inv_tables [OF reads_tables(4)] txn_inv_tables [OF reads_tables(5)])

theorem repo_reachable_inv_witness:
  "txn_inv (fst (UpdateStatus demo_env demo_router 3 ''M1'' ''o-1'' TransactionStatusPaid ''pi_9''
     (fst (txn_Insert demo_env demo_router (demo_txn ''o-1'' 3) demo_store))))"
proof -
  have "repo_reachable demo_env demo_router demo_store"
    unfolding demo_store_def by (rule repo_reachable.empty)
  then show ?thesis
    by (intro repo_reachable_inv [OF repo_reachable.update_status] repo_reachable.insert)
qed

section \<open>The port\<close>

text \<open>The interface \<^verbatim>\<open>TransactionRepository\<close> the services depend on, and its implementation.\<close>

record 's TransactionRepository =
  tr_Insert :: "Transaction \<Rightarrow> 's \<Rightarrow> 's \<times> Transaction \<times> unit result"
  tr_GetByTransactionID :: "uint8 \<Rightarrow> string \<Rightarrow> string \<Rightarrow> 's \<Rightarrow> 's \<times> Transaction result"
  tr_GetByMerchantOrderID :: "uint8 \<Rightarrow> string \<Rightarrow> string \<Rightarrow> 's \<Rightarrow> 's \<times> Transaction result"
  tr_UpdateStatus :: "uint8 \<Rightarrow> string \<Rightarrow> string \<Rightarrow> string \<Rightarrow> string \<Rightarrow> 's \<Rightarrow> 's \<times> unit result"
  tr_UpdateCheckout :: "uint8 \<Rightarrow> string \<Rightarrow> string \<Rightarrow> string \<Rightarrow> string \<Rightarrow> 's \<Rightarrow> 's \<times> unit result"
  tr_GetByOrderIDAny :: "string \<Rightarrow> 's \<Rightarrow> 's \<times> Transaction result"
  tr_GetByPaymentIntentID :: "string \<Rightarrow> 's \<Rightarrow> 's \<times> Transaction result"
  tr_GetPendingBefore :: "int \<Rightarrow> int \<Rightarrow> 's \<Rightarrow> 's \<times> Transaction list result"

definition NewTransactionRepository ::
  "db_env \<Rightarrow> nat multiShardRouter \<Rightarrow> 'a txn_store_scheme TransactionRepository" where
  "NewTransactionRepository env r = \<lparr>
     tr_Insert = txn_Insert env r,
     tr_GetByTransactionID = GetByTransactionID env r,
     tr_GetByMerchantOrderID = GetByMerchantOrderID env r,
     tr_UpdateStatus = UpdateStatus env r,
     tr_UpdateCheckout = UpdateCheckout env r,
     tr_GetByOrderIDAny = GetByOrderIDAny env r,
     tr_GetByPaymentIntentID = GetByPaymentIntentID env r,
     tr_GetPendingBefore = GetPendingBefore env r\<rparr>"

lemma NewTransactionRepository_simps [simp]:
  "tr_Insert (NewTransactionRepository env r) = txn_Insert env r"
  "tr_GetByTransactionID (NewTransactionRepository env r) = GetByTransactionID env r"
  "tr_GetByMerchantOrderID (NewTransactionRepository env r) = GetByMerchantOrderID env r"
  "tr_UpdateStatus (NewTransactionRepository env r) = UpdateStatus env r"
  "tr_UpdateCheckout (NewTransactionRepository env r) = UpdateCheckout env r"
  "tr_GetByOrderIDAny (NewTransactionRepository env r) = GetByOrderIDAny env r"
  "tr_GetByPaymentIntentID (NewTransactionRepository env r) = GetByPaymentIntentID env r"
  "tr_GetPendingBefore (NewTransactionRepository env r) = GetPendingBefore env r"
  by (simp_all add: NewTransactionRepository_def)

end
