(* ===== verification/TtlCache.thy ===== *)
theory TtlCache
  imports Domain "HOL-Library.AList"
begin

text \<open>
  The two in-process caches: \<^verbatim>\<open>lruCache\<close> of \<^verbatim>\<open>internal/repository/merchant_repo.go\<close> and
  \<^verbatim>\<open>urlCache\<close> of \<^verbatim>\<open>internal/cache/url_cache.go\<close>. A Go map is an association list with distinct
  keys, in the order in which the next iteration visits it (Go leaves that order open, so no
  theorem depends on it). The locale \<open>ttl_cache\<close> is the contract the callers rely on, and both
  caches are interpretations of it.
\<close>

section \<open>lruCache\<close>

record 'v lruCache =
  lru_cap :: int
  lru_ttl :: int
  lru_data :: "(string \<times> 'v \<times> int) list"

definition newLRUCache :: "int \<Rightarrow> int \<Rightarrow> 'v lruCache" where
  "newLRUCache cap ttl = \<lparr>lru_cap = cap, lru_ttl = ttl, lru_data = []\<rparr>"

definition lru_get :: "int \<Rightarrow> string \<Rightarrow> 'v lruCache \<Rightarrow> 'v lruCache \<times> 'v option" where
  "lru_get now key c =
     (case map_of (lru_data c) key of
        None \<Rightarrow> (c, None)
      | Some (v, expiresAt) \<Rightarrow>
          if now > expiresAt then (c\<lparr>lru_data := AList.delete key (lru_data c)\<rparr>, None)
          else (c, Some v))"

text \<open>The eviction loop: the entry that expires first; \<open>oldest\<close> starts as the zero time.\<close>

fun evict_loop :: "(string \<times> 'v \<times> int) list \<Rightarrow> string \<Rightarrow> int \<Rightarrow> string" where
  "evict_loop [] evict oldest = evict"
| "evict_loop ((k, v, e) # rest) evict oldest =
     (if oldest = zero_time \<or> e < oldest then evict_loop rest k e else evict_loop rest evict oldest)"

definition lru_put :: "int \<Rightarrow> string \<Rightarrow> 'v \<Rightarrow> 'v lruCache \<Rightarrow> 'v lruCache" where
  "lru_put now key m c =
     (let data = (if int (length (lru_data c)) \<ge> lru_cap c
                  then AList.delete (evict_loop (lru_data c) [] zero_time) (lru_data c)
                  else lru_data c)
      in c\<lparr>lru_data := AList.update key (m, now + lru_ttl c) data\<rparr>)"

section \<open>urlCache\<close>

record urlCache =
  url_data :: "(string \<times> string \<times> int) list"
  url_maxSize :: int
  url_ttl :: int

definition NewURLCache :: "int \<Rightarrow> int \<Rightarrow> urlCache" where
  "NewURLCache maxSize ttl = \<lparr>url_data = [], url_maxSize = maxSize, url_ttl = ttl\<rparr>"

definition url_Get :: "int \<Rightarrow> string \<Rightarrow> urlCache \<Rightarrow> string option" where
  "url_Get now orderID c =
     (case map_of (url_data c) orderID of
        None \<Rightarrow> None
      | Some (url, expiresAt) \<Rightarrow> if now > expiresAt then None else Some url)"

fun drop_expired :: "int \<Rightarrow> (string \<times> string \<times> int) list \<Rightarrow> (string \<times> string \<times> int) list" where
  "drop_expired now [] = []"
| "drop_expired now ((k, u, e) # rest) = (if now > e then rest else (k, u, e) # drop_expired now rest)"

definition url_evict :: "int \<Rightarrow> int \<Rightarrow> (string \<times> string \<times> int) list \<Rightarrow> (string \<times> string \<times> int) list" where
  "url_evict now maxSize data =
     (if int (length data) \<ge> maxSize
      then let data = drop_expired now data
           in if int (length data) \<ge> maxSize then tl data else data
      else data)"

definition url_Put :: "int \<Rightarrow> string \<Rightarrow> string \<Rightarrow> urlCache \<Rightarrow> urlCache" where
  "url_Put now orderID url c =
     c\<lparr>url_data := AList.update orderID (url, now + url_ttl c) (url_evict now (url_maxSize c) (url_data c))\<rparr>"

definition url_Invalidate :: "string \<Rightarrow> urlCache \<Rightarrow> urlCache" where
  "url_Invalidate orderID c = c\<lparr>url_data := AList.delete orderID (url_data c)\<rparr>"

section \<open>The contract of a TTL cache\<close>

text \<open>The lookups and puts a cache has gone through, newest first.\<close>

fun cache_run ::
  "(int \<Rightarrow> string \<Rightarrow> 'c \<Rightarrow> 'c \<times> 'v option) \<Rightarrow> (int \<Rightarrow> string \<Rightarrow> 'v \<Rightarrow> 'c \<Rightarrow> 'c) \<Rightarrow>
    (int \<times> string \<times> 'v option) list \<Rightarrow> 'c \<Rightarrow> 'c" where
  "cache_run get put [] c = c"
| "cache_run get put ((now, k, None) # ops) c = fst (get now k (cache_run get put ops c))"
| "cache_run get put ((now, k, Some v) # ops) c = put now k v (cache_run get put ops c)"

locale ttl_cache =
  fixes invar :: "'c \<Rightarrow> bool"
    and ttl :: "'c \<Rightarrow> int"
    and cap :: "'c \<Rightarrow> int"
    and entries :: "'c \<Rightarrow> (string \<times> 'v \<times> int) list"
    and get :: "int \<Rightarrow> string \<Rightarrow> 'c \<Rightarrow> 'c \<times> 'v option"
    and put :: "int \<Rightarrow> string \<Rightarrow> 'v \<Rightarrow> 'c \<Rightarrow> 'c"
  assumes keys: "invar c \<Longrightarrow> distinct (map fst (entries c))"
    and bounded: "invar c \<Longrightarrow> int (length (entries c)) \<le> max 1 (cap c)"
    and get_value: "invar c \<Longrightarrow> snd (get now k c) =
      (case map_of (entries c) k of None \<Rightarrow> None | Some (v, e) \<Rightarrow> if now > e then None else Some v)"
    and get_entries: "invar c \<Longrightarrow> set (entries (fst (get now k c))) \<subseteq> set (entries c)"
    and get_invar: "invar c \<Longrightarrow> invar (fst (get now k c)) \<and> ttl (fst (get now k c)) = ttl c \<and> cap (fst (get now k c)) = cap c"
    and put_value: "invar c \<Longrightarrow> map_of (entries (put now k v c)) k = Some (v, now + ttl c)"
    and put_entries: "invar c \<Longrightarrow> set (entries (put now k v c)) \<subseteq> insert (k, v, now + ttl c) (set (entries c))"
    and put_invar: "invar c \<Longrightarrow> invar (put now k v c) \<and> ttl (put now k v c) = ttl c \<and> cap (put now k v c) = cap c"
begin

lemma get_put: "invar c \<Longrightarrow> snd (get t k (put now k v c)) = (if t > now + ttl c then None else Some v)"
  using get_value [of "put now k v c" t k] put_value [of c now k v] put_invar [of c now k v] by simp

lemma run_invar:
  "invar c \<Longrightarrow> invar (cache_run get put ops c) \<and> ttl (cache_run get put ops c) = ttl c \<and>
    cap (cache_run get put ops c) = cap c"
proof (induction ops)
  case (Cons op ops)
  obtain now k mv where "op = (now, k, mv)" by (cases op)
  with Cons show ?case
    by (cases mv) (auto simp: get_invar put_invar)
qed simp

lemma run_entries:
  assumes "invar c" and "entries c = []"
  shows "(k, v, e) \<in> set (entries (cache_run get put ops c)) \<Longrightarrow>
    \<exists>now. (now, k, Some v) \<in> set ops \<and> e = now + ttl c"
proof (induction ops)
  case (Cons op ops)
  obtain now k' mv where op: "op = (now, k', mv)" by (cases op)
  have inv: "invar (cache_run get put ops c)" "ttl (cache_run get put ops c) = ttl c"
    using run_invar [OF assms(1)] by blast+
  show ?case
  proof (cases mv)
    case None
    with Cons op get_entries [OF inv(1), of now k'] show ?thesis
      by auto
  next
    case (Some v')
    with Cons op put_entries [OF inv(1), of now k' v'] inv(2) show ?thesis
      by auto
  qed
qed (simp add: assms(2))

text \<open>A hit is a value that was put under that key, at most \<open>ttl\<close> ago.\<close>

lemma hit_was_put:
  assumes "invar c" and "entries c = []" and "snd (get t k (cache_run get put ops c)) = Some v"
  shows "\<exists>now. (now, k, Some v) \<in> set ops \<and> t \<le> now + ttl c"
proof -
  from assms(3) obtain e where "map_of (entries (cache_run get put ops c)) k = Some (v, e)" and "t \<le> e"
    using get_value [of "cache_run get put ops c" t k] run_invar [OF assms(1)] by (auto split: option.splits if_splits)
  with run_entries [OF assms(1,2), of k v e ops] show ?thesis
    by (auto dest: map_of_SomeD)
qed

lemma run_bounded: "invar c \<Longrightarrow> int (length (entries (cache_run get put ops c))) \<le> max 1 (cap c)"
  by (metis run_invar bounded)

end

section \<open>Both caches keep it\<close>

definition lru_invar :: "'v lruCache \<Rightarrow> bool" where
  "lru_invar c \<longleftrightarrow> distinct (map fst (lru_data c)) \<and> int (length (lru_data c)) \<le> max 1 (lru_cap c)"

definition url_invar :: "urlCache \<Rightarrow> bool" where
  "url_invar c \<longleftrightarrow> distinct (map fst (url_data c)) \<and> int (length (url_data c)) \<le> max 1 (url_maxSize c)"

lemma set_update_subset: "set (AList.update k v xs) \<subseteq> insert (k, v) (set xs)"
  by (induction xs) auto

lemma length_update_le: "length (AList.update k v xs) \<le> Suc (length xs)"
  by (induction xs) auto

lemma length_delete_less: "k \<in> fst ` set xs \<Longrightarrow> length (AList.delete k xs) < length xs"
  by (auto simp: AList.delete_eq intro!: length_filter_less)

lemma set_delete_subset: "set (AList.delete k xs) \<subseteq> set xs"
  by (auto simp: AList.delete_eq)

lemma evict_loop_key: "evict_loop data evict oldest \<in> insert evict (fst ` set data)"
proof (induction data arbitrary: evict oldest)
  case (Cons a data)
  obtain k v e where "a = (k, v, e)" by (cases a)
  with Cons.IH [of k e] Cons.IH [of evict oldest] show ?case
    by auto
qed simp

lemma evict_loop_in: "data \<noteq> [] \<Longrightarrow> evict_loop data [] zero_time \<in> fst ` set data"
proof (cases data)
  case (Cons a rest)
  obtain k v e where "a = (k, v, e)" by (cases a)
  with Cons evict_loop_key [of rest k e] show ?thesis
    by auto
qed simp

lemma delete_distinct: "distinct (map fst xs) \<Longrightarrow> distinct (map fst (AList.delete k xs))"
  by (rule AList.distinct_delete)

interpretation lru: ttl_cache lru_invar lru_ttl lru_cap lru_data lru_get lru_put
proof (unfold_locales, goal_cases)
  case (5 c now k)
  then show ?case
    using AList.length_delete_le [of k "lru_data c"]
    by (auto simp: lru_invar_def lru_get_def AList.distinct_delete split: option.split)
next
  case (8 c now k v)
  let ?data = "if int (length (lru_data c)) \<ge> lru_cap c
    then AList.delete (evict_loop (lru_data c) [] zero_time) (lru_data c) else lru_data c"
  have "int (Suc (length ?data)) \<le> max 1 (lru_cap c)"
    using 8 length_delete_less [OF evict_loop_in, of "lru_data c"]
    by (cases "lru_data c = []") (auto simp: lru_invar_def)
  then have "int (length (AList.update k (v, now + lru_ttl c) ?data)) \<le> max 1 (lru_cap c)"
    using length_update_le [of k "(v, now + lru_ttl c)" ?data] by linarith
  moreover have "distinct (map fst ?data)"
    using 8 by (simp add: lru_invar_def AList.distinct_delete)
  ultimately show ?case
    by (simp add: lru_invar_def lru_put_def Let_def AList.distinct_update)
next
  case (7 c now k v)
  then show ?case
    by (auto simp: lru_put_def Let_def split: if_splits
        dest!: set_update_subset [THEN subsetD] set_delete_subset [THEN subsetD])
qed (auto simp: lru_invar_def lru_get_def lru_put_def Let_def AList.update_conv' AList.delete_eq split: option.splits)

lemma set_tl_subset: "set (tl xs) \<subseteq> set xs"
  by (cases xs) auto

lemma set_drop_expired: "set (drop_expired now xs) \<subseteq> set xs"
  by (induction xs rule: drop_expired.induct) auto

lemma length_drop_expired: "length (drop_expired now xs) \<le> length xs"
  by (induction xs rule: drop_expired.induct) auto

lemma distinct_drop_expired: "distinct (map fst xs) \<Longrightarrow> distinct (map fst (drop_expired now xs))"
proof (induction xs rule: drop_expired.induct)
  case (2 now k u e rest)
  then show ?case
    using image_mono [OF set_drop_expired [of now rest], of fst] by auto
qed simp

lemma url_evict_props:
  "set (url_evict now n xs) \<subseteq> set xs"
  "distinct (map fst xs) \<Longrightarrow> distinct (map fst (url_evict now n xs))"
  "int (length xs) \<le> max 1 n \<Longrightarrow> int (Suc (length (url_evict now n xs))) \<le> max 1 n"
proof -
  show "set (url_evict now n xs) \<subseteq> set xs"
    by (auto simp: url_evict_def Let_def dest!: set_tl_subset [THEN subsetD] set_drop_expired [THEN subsetD])
  show "distinct (map fst xs) \<Longrightarrow> distinct (map fst (url_evict now n xs))"
    using distinct_drop_expired [of xs now] by (auto simp: url_evict_def Let_def map_tl distinct_tl)
  show "int (length xs) \<le> max 1 n \<Longrightarrow> int (Suc (length (url_evict now n xs))) \<le> max 1 n"
    using length_drop_expired [of now xs] by (auto simp: url_evict_def Let_def)
qed

interpretation urlc: ttl_cache url_invar url_ttl url_maxSize url_data "\<lambda>now k c. (c, url_Get now k c)" url_Put
proof (unfold_locales, goal_cases)
  case (8 c now k v)
  then show ?case
    using url_evict_props(2,3) [of "url_data c" now "url_maxSize c"] url_evict_props(3) [of "url_data c" "url_maxSize c" now]
      length_update_le [of k "(v, now + url_ttl c)" "url_evict now (url_maxSize c) (url_data c)"]
    by (auto simp: url_invar_def url_Put_def AList.distinct_update)
next
  case (7 c now k v)
  then show ?case
    using set_update_subset url_evict_props(1) by (fastforce simp: url_Put_def)
qed (auto simp: url_invar_def url_Get_def url_Put_def AList.update_conv' split: option.splits)

text \<open>The merchant cache never serves a merchant past its time: after any interleaving of lookups
  and puts on a fresh cache, a hit at instant \<open>t\<close> is a value that was put under that very key at
  an instant \<open>now\<close> with \<open>t \<le> now + ttl\<close>, and the cache holds at most \<open>max 1 cap\<close> entries.\<close>

theorem lru_hit_fresh:
  fixes v :: 'v
  shows "(snd (lru_get t k (cache_run lru_get lru_put ops (newLRUCache cap ttl))) = Some v \<longrightarrow>
     (\<exists>now. (now, k, Some v) \<in> set ops \<and> t \<le> now + ttl)) \<and>
   int (length (lru_data (cache_run lru_get lru_put ops (newLRUCache cap ttl)))) \<le> max 1 cap"
proof -
  let ?c = "newLRUCache cap ttl :: 'v lruCache"
  have inv: "lru_invar ?c" and data: "lru_data ?c = []" and "lru_ttl ?c = ttl" "lru_cap ?c = cap"
    by (simp_all add: lru_invar_def newLRUCache_def)
  with lru.hit_was_put [OF inv data, of t k ops v] lru.run_bounded [OF inv, of ops] show ?thesis
    by auto
qed

theorem lru_hit_fresh_witness:
  "snd (lru_get 4 ''mid:a'' (cache_run lru_get lru_put [(3, ''mid:b'', None), (1, ''mid:a'', Some (7 :: nat))]
     (newLRUCache 2 5))) = Some 7 \<and>
   (\<exists>now :: int. (now, ''mid:a'', Some (7 :: nat)) \<in> set [(3, ''mid:b'', None), (1, ''mid:a'', Some 7)] \<and> 4 \<le> now + 5)"
  using lru_hit_fresh [of 4 "''mid:a''" "[(3, ''mid:b'', None), (1, ''mid:a'', Some (7 :: nat))]" 2 5 7]
  by (simp add: lru_get_def lru_put_def newLRUCache_def)

end
