(* ===== verification/MerchantRepo.thy ===== *)
theory MerchantRepo
  imports TransactionRepo TtlCache
begin

text \<open>
  \<^verbatim>\<open>internal/repository/merchant_repo.go\<close> and \<^verbatim>\<open>internal/service/merchant_service.go\<close>: the
  \<^verbatim>\<open>merchants\<close> table of the control pool, the cached lookups, the choice of a logical shard for a new
  merchant, and the admin operation that registers one. The store extends the transaction store,
  so that both repositories act on one state.
\<close>

section \<open>The merchants table\<close>

record merchant_store = txn_store +
  merchants :: "Merchant list"
  mcache :: "Merchant lruCache"

text \<open>
  The columns: lengths, the range of \<^verbatim>\<open>INT\<close> and the values of the \<^verbatim>\<open>ENUM\<close>; \<^verbatim>\<open>merchant_id\<close> and
  \<^verbatim>\<open>api_key\<close> are unique under the collation. A \<^verbatim>\<open>NULL\<close> callback URL reads as the empty string.
\<close>

definition merchant_fits :: "Merchant \<Rightarrow> bool" where
  "merchant_fits m \<longleftrightarrow> length (m_MerchantID m) \<le> 64 \<and> length (m_Name m) \<le> 255 \<and> length (m_APIKey m) \<le> 128 \<and>
     length (m_SecretKey m) \<le> 128 \<and> length (m_CallbackURL m) \<le> 512 \<and>
     - 2147483648 \<le> m_RateLimit m \<and> m_RateLimit m \<le> 2147483647 \<and>
     m_Status m \<in> {MerchantStatusActive, MerchantStatusSuspended}"

definition next_id :: "Merchant list \<Rightarrow> int" where
  "next_id ms = 1 + fold (\<lambda>m. max (m_ID m)) ms 0"

definition exec_insert_merchant ::
  "db_env \<Rightarrow> nat \<Rightarrow> Merchant \<Rightarrow> 'a merchant_store_scheme \<Rightarrow> 'a merchant_store_scheme \<times> int result" where
  "exec_insert_merchant env p m s =
     (case env_fault env (stmts s) p of
        Some e \<Rightarrow> (step_store s, Inl e)
      | None \<Rightarrow>
          if \<not> merchant_fits m then (step_store s, Inl data_too_long)
          else if \<exists>x \<in> set (merchants s). env_coll env (m_MerchantID x) (m_MerchantID m) \<or> env_coll env (m_APIKey x) (m_APIKey m)
          then (step_store s, Inl dup_entry)
          else let id = next_id (merchants s);
                   row = m\<lparr>m_ID := id, m_CreatedAt := env_timestamp env (env_clock env (stmts s))\<rparr>
               in (step_store (s\<lparr>merchants := merchants s @ [row]\<rparr>), Inr id))"

definition query_merchant ::
  "db_env \<Rightarrow> nat \<Rightarrow> (Merchant \<Rightarrow> bool) \<Rightarrow> 'a merchant_store_scheme \<Rightarrow> 'a merchant_store_scheme \<times> Merchant option result" where
  "query_merchant env p P s =
     (step_store s,
      case env_fault env (stmts s) p of Some e \<Rightarrow> Inl e | None \<Rightarrow> Inr (find P (merchants s)))"

definition scanMerchant :: "Merchant option result \<Rightarrow> Merchant result" where
  "scanMerchant res =
     (case res of
        Inl e \<Rightarrow> Inl (Wrapf ''query merchant'' e)
      | Inr None \<Rightarrow> Inl (Sentinel ErrMerchantNotFound)
      | Inr (Some m) \<Rightarrow> Inr m)"

section \<open>Lookups\<close>

definition GetByAPIKey ::
  "db_env \<Rightarrow> nat multiShardRouter \<Rightarrow> string \<Rightarrow> 'a merchant_store_scheme \<Rightarrow> 'a merchant_store_scheme \<times> Merchant result" where
  "GetByAPIKey env r apiKey s =
     (case lru_get (env_clock env (stmts s)) (''api:'' @ apiKey) (mcache s) of
        (c, Some m) \<Rightarrow> (s\<lparr>mcache := c\<rparr>, Inr m)
      | (c, None) \<Rightarrow>
          (case query_merchant env (router_Control r) (\<lambda>m. env_coll env (m_APIKey m) apiKey) (s\<lparr>mcache := c\<rparr>) of
             (s', res) \<Rightarrow>
               (case scanMerchant res of
                  Inl e \<Rightarrow> (s', Inl e)
                | Inr m \<Rightarrow> (s'\<lparr>mcache := lru_put (env_clock env (stmts s')) (''api:'' @ apiKey) m (mcache s')\<rparr>, Inr m))))"

definition GetByMerchantID ::
  "db_env \<Rightarrow> nat multiShardRouter \<Rightarrow> string \<Rightarrow> 'a merchant_store_scheme \<Rightarrow> 'a merchant_store_scheme \<times> Merchant result" where
  "GetByMerchantID env r merchantID s =
     (case lru_get (env_clock env (stmts s)) (''mid:'' @ merchantID) (mcache s) of
        (c, Some m) \<Rightarrow> (s\<lparr>mcache := c\<rparr>, Inr m)
      | (c, None) \<Rightarrow>
          (case query_merchant env (router_Control r) (\<lambda>m. env_coll env (m_MerchantID m) merchantID) (s\<lparr>mcache := c\<rparr>) of
             (s', res) \<Rightarrow>
               (case scanMerchant res of
                  Inl e \<Rightarrow> (s', Inl e)
                | Inr m \<Rightarrow> (s'\<lparr>mcache := lru_put (env_clock env (stmts s')) (''mid:'' @ merchantID) m (mcache s')\<rparr>, Inr m))))"

section \<open>Choosing a shard\<close>

definition load :: "Merchant list \<Rightarrow> uint8 \<Rightarrow> int" where
  "load ms i = int (length (filter (\<lambda>m. m_ShardIndex m = i) ms))"

text \<open>\<^verbatim>\<open>SELECT shard_index, COUNT(*) ... WHERE shard_index < ? GROUP BY shard_index\<close>.\<close>

definition count_by_shard :: "uint8 \<Rightarrow> Merchant list \<Rightarrow> (uint8 \<times> int) list" where
  "count_by_shard L ms = map (\<lambda>i. (i, load ms i)) (remdups (filter (\<lambda>i. i < L) (map m_ShardIndex ms)))"

fun fill_counts :: "uint8 \<Rightarrow> (uint8 \<times> int) list \<Rightarrow> int list \<Rightarrow> int list" where
  "fill_counts L [] counts = counts"
| "fill_counts L ((idx, n) # rows) counts =
     fill_counts L rows (if idx < L then counts[unat idx := n] else counts)"

text \<open>The selection loop over \<open>counts[i]\<close>, \<open>counts[i+1]\<close>, ...\<close>

fun pick_loop :: "int list \<Rightarrow> nat \<Rightarrow> nat \<Rightarrow> int \<Rightarrow> nat" where
  "pick_loop [] i best bestN = best"
| "pick_loop (c # cs) i best bestN =
     (if c < bestN then pick_loop cs (Suc i) i c else pick_loop cs (Suc i) best bestN)"

definition pick_index :: "uint8 \<Rightarrow> Merchant list \<Rightarrow> nat" where
  "pick_index L ms =
     (let counts = fill_counts L (count_by_shard L ms) (replicate (unat L) 0)
      in pick_loop (tl counts) 1 0 (hd counts))"

definition pickLeastLoadedShard ::
  "db_env \<Rightarrow> nat multiShardRouter \<Rightarrow> uint8 \<Rightarrow> 'a merchant_store_scheme \<Rightarrow> 'a merchant_store_scheme \<times> uint8 result" where
  "pickLeastLoadedShard env r L s =
     (step_store s,
      case env_fault env (stmts s) (router_Control r) of
        Some e \<Rightarrow> Inl (Wrapf ''count by shard'' e)
      | None \<Rightarrow> Inr (of_nat (pick_index L (merchants s))))"

section \<open>Insert\<close>

definition logical_count :: "uint8 \<Rightarrow> uint8" where
  "logical_count L = (if L = 0 then 1 else L)"

definition merchant_Insert ::
  "db_env \<Rightarrow> nat multiShardRouter \<Rightarrow> uint8 \<Rightarrow> Merchant \<Rightarrow> 'a merchant_store_scheme \<Rightarrow>
    'a merchant_store_scheme \<times> Merchant \<times> unit result" where
  "merchant_Insert env r L m s =
     (case pickLeastLoadedShard env r (logical_count L) s of
        (s', Inl e) \<Rightarrow> (s', m, Inl (Wrapf ''pick shard'' e))
      | (s', Inr idx) \<Rightarrow>
          let m = m\<lparr>m_ShardIndex := idx,
                    m_Status := (if m_Status m = [] then MerchantStatusActive else m_Status m),
                    m_RateLimit := (if m_RateLimit m = 0 then 1000 else m_RateLimit m)\<rparr>
          in (case exec_insert_merchant env (router_Control r) m s' of
               (s2, Inl err) \<Rightarrow>
                 (s2, m, if isDuplicateKeyErr err then Inl (Wrapf ''merchant exists'' err)
                         else Inl (Wrapf ''insert merchant'' err))
             | (s2, Inr newID) \<Rightarrow> (s2, (if newID \<noteq> 0 then m\<lparr>m_ID := newID\<rparr> else m), Inr ())))"

section \<open>merchant\_service.go\<close>

record CreateMerchantInput =
  cm_MerchantID :: string
  cm_Name :: string
  cm_CallbackURL :: string
  cm_RateLimit :: int

record CreateMerchantResult =
  cmr_MerchantID :: string
  cmr_Name :: string
  cmr_APIKey :: string
  cmr_SecretKey :: string
  cmr_CallbackURL :: string
  cmr_RateLimit :: int
  cmr_ShardIndex :: uint8

text \<open>\<open>bytes\<close> is what \<^verbatim>\<open>rand.Read\<close> filled the buffer with, or its error.\<close>

definition randomHex :: "string result \<Rightarrow> int \<Rightarrow> string result" where
  "randomHex bytes n =
     (if n \<le> 0 then Inl (ErrNew ''randomHex: n must be > 0'')
      else case bytes of Inl e \<Rightarrow> Inl e | Inr b \<Rightarrow> Inr (EncodeToString b))"

definition merchant_Create ::
  "(Merchant \<Rightarrow> 's \<Rightarrow> 's \<times> Merchant \<times> unit result) \<Rightarrow> string result \<Rightarrow> string result \<Rightarrow> CreateMerchantInput \<Rightarrow> 's \<Rightarrow>
    's \<times> CreateMerchantResult result" where
  "merchant_Create repo_Insert rand1 rand2 inp s =
     (let mID = TrimSpace (cm_MerchantID inp) in
      if mID = [] \<or> length mID > 64 then (s, Inl (Wrapf ''merchant_id length must be 1..64'' (Sentinel ErrInvalidRequest)))
      else let name = TrimSpace (cm_Name inp) in
      if name = [] \<or> length name > 255 then (s, Inl (Wrapf ''name length must be 1..255'' (Sentinel ErrInvalidRequest)))
      else case randomHex rand1 32 of
        Inl e \<Rightarrow> (s, Inl (Wrapf ''gen api_key'' e))
      | Inr apiKey \<Rightarrow>
     (case randomHex rand2 32 of
        Inl e \<Rightarrow> (s, Inl (Wrapf ''gen secret_key'' e))
      | Inr secretKey \<Rightarrow>
     (let rateLimit = (if cm_RateLimit inp \<le> 0 then 1000 else cm_RateLimit inp);
          m = \<lparr>m_ID = 0, m_MerchantID = mID, m_Name = name, m_APIKey = apiKey, m_SecretKey = secretKey,
               m_CallbackURL = TrimSpace (cm_CallbackURL inp), m_RateLimit = rateLimit,
               m_Status = MerchantStatusActive, m_ShardIndex = 0, m_CreatedAt = zero_time\<rparr>
      in case repo_Insert m s of
        (s', m, Inl e) \<Rightarrow> (s', Inl e)
      | (s', m, Inr _) \<Rightarrow>
          (s', Inr \<lparr>cmr_MerchantID = m_MerchantID m, cmr_Name = m_Name m, cmr_APIKey = m_APIKey m,
                    cmr_SecretKey = m_SecretKey m, cmr_CallbackURL = m_CallbackURL m,
                    cmr_RateLimit = m_RateLimit m, cmr_ShardIndex = m_ShardIndex m\<rparr>))))"

section \<open>The least loaded shard\<close>

lemma pick_loop_min:
  assumes "best < i" and "i \<le> length xs" and "bestN = xs ! best"
    and "\<forall>j < i. xs ! best \<le> xs ! j" and "\<forall>j < best. xs ! best < xs ! j"
  shows "pick_loop (drop i xs) i best bestN < length xs \<and>
    (\<forall>j < length xs. xs ! pick_loop (drop i xs) i best bestN \<le> xs ! j) \<and>
    (\<forall>j < pick_loop (drop i xs) i best bestN. xs ! pick_loop (drop i xs) i best bestN < xs ! j)"
  using assms
proof (induction "length xs - i" arbitrary: i best bestN)
  case 0
  then show ?case by auto
next
  case (Suc k)
  then have i: "i < length xs" "drop i xs = xs ! i # drop (Suc i) xs"
    by (simp_all add: Cons_nth_drop_Suc)
  show ?case
  proof (cases "xs ! i < bestN")
    case True
    then have less: "\<forall>j < i. xs ! i < xs ! j"
      using Suc.prems by fastforce
    then have "\<forall>j < Suc i. xs ! i \<le> xs ! j"
      by (auto simp: less_Suc_eq)
    with less True show ?thesis
      using Suc.hyps(1) [of "Suc i" i "xs ! i"] Suc.hyps(2) i by simp
  next
    case False
    then have "\<forall>j < Suc i. xs ! best \<le> xs ! j"
      using Suc.prems by (auto simp: less_Suc_eq)
    with False show ?thesis
      using Suc.hyps(1) [of "Suc i" best bestN] Suc.hyps(2) Suc.prems i by simp
  qed
qed

lemma length_fill_counts [simp]: "length (fill_counts L rows counts) = length counts"
  by (induction L rows counts rule: fill_counts.induct) auto

lemma nth_fill_counts:
  assumes "distinct (map fst rows)" and "\<forall>(i, n) \<in> set rows. i < L" and "k < L" and "length counts = unat L"
  shows "fill_counts L rows counts ! unat k = (case map_of rows k of Some n \<Rightarrow> n | None \<Rightarrow> counts ! unat k)"
  using assms
proof (induction L rows counts rule: fill_counts.induct)
  case (2 L idx n rows counts)
  then have idx: "unat idx < length counts" and "map_of rows idx = None"
    by (auto simp: map_of_eq_None_iff word_less_nat_alt)
  show ?case
  proof (cases "k = idx")
    case True
    with 2 idx \<open>map_of rows idx = None\<close> show ?thesis
      by simp
  next
    case False
    then have "unat idx \<noteq> unat k"
      by (simp add: word_unat_eq_iff)
    with 2 False show ?thesis
      by (simp split: option.split)
  qed
qed simp

lemma map_of_count_by_shard:
  "map_of (count_by_shard L ms) i = (if i < L \<and> i \<in> m_ShardIndex ` set ms then Some (load ms i) else None)"
proof -
  have "map_of (map (\<lambda>i. (i, f i)) xs) i = (if i \<in> set xs then Some (f i) else None)" for f :: "uint8 \<Rightarrow> int" and xs
    by (induction xs) auto
  then show ?thesis
    by (simp add: count_by_shard_def)
qed

lemma counts_load:
  assumes "k < L"
  shows "fill_counts L (count_by_shard L ms) (replicate (unat L) 0) ! unat k = load ms k"
proof -
  have "distinct (map fst (count_by_shard L ms))" "\<forall>(i, n) \<in> set (count_by_shard L ms). i < L"
    by (auto simp: count_by_shard_def comp_def)
  moreover have "k \<notin> m_ShardIndex ` set ms \<Longrightarrow> load ms k = 0"
    by (auto simp: load_def filter_empty_conv)
  ultimately show ?thesis
    using nth_fill_counts [of "count_by_shard L ms" L k "replicate (unat L) 0"] assms
    by (auto simp: map_of_count_by_shard word_less_nat_alt split: if_splits)
qed

lemma pick_index_least:
  assumes "L \<noteq> 0"
  shows "of_nat (pick_index L ms) < L \<and> (\<forall>j < L. load ms (of_nat (pick_index L ms)) \<le> load ms j) \<and>
    (\<forall>j < of_nat (pick_index L ms). load ms (of_nat (pick_index L ms)) < load ms j)"
proof -
  let ?xs = "fill_counts L (count_by_shard L ms) (replicate (unat L) 0)"
  have len: "length ?xs = unat L" and pos: "0 < unat L"
    using assms by (simp_all add: unat_gt_0)
  then have "tl ?xs = drop 1 ?xs" "hd ?xs = ?xs ! 0"
    by (simp_all add: drop_Suc hd_conv_nth flip: length_greater_0_conv)
  then have b: "pick_index L ms < unat L" "\<forall>j < unat L. ?xs ! pick_index L ms \<le> ?xs ! j"
    "\<forall>j < pick_index L ms. ?xs ! pick_index L ms < ?xs ! j"
    using pick_loop_min [of 0 1 ?xs "?xs ! 0"] len pos by (auto simp: pick_index_def Let_def)
  have "unat (of_nat (pick_index L ms) :: uint8) = pick_index L ms"
    using less_trans [OF b(1) unat_uint8_less] by (simp add: unat_of_nat)
  then have p: "of_nat (pick_index L ms) < L" "?xs ! pick_index L ms = load ms (of_nat (pick_index L ms))"
    using b(1) counts_load [of "of_nat (pick_index L ms)" L ms] by (simp_all add: word_less_nat_alt)
  moreover have "load ms (of_nat (pick_index L ms)) \<le> load ms j" if "j < L" for j
    using b(2) [rule_format, of "unat j"] that counts_load [OF that, of ms] p(2) by (simp add: word_less_nat_alt)
  moreover have "load ms (of_nat (pick_index L ms)) < load ms j" if "j < of_nat (pick_index L ms)" for j
    using b(3) [rule_format, of "unat j"] that counts_load [OF less_trans [OF that p(1)], of ms] p(2)
      \<open>unat (of_nat (pick_index L ms) :: uint8) = pick_index L ms\<close>
    by (simp add: word_less_nat_alt)
  ultimately show ?thesis
    by blast
qed

section \<open>Balance of the shards\<close>

definition balanced :: "uint8 \<Rightarrow> Merchant list \<Rightarrow> bool" where
  "balanced L ms \<longleftrightarrow> (\<forall>i < L. \<forall>j < L. load ms i \<le> load ms j + 1)"

lemma load_snoc: "load (ms @ [m]) i = load ms i + (if m_ShardIndex m = i then 1 else 0)"
  by (simp add: load_def)

lemma balanced_snoc:
  assumes "balanced L ms" and "\<forall>j < L. load ms (m_ShardIndex m) \<le> load ms j"
  shows "balanced L (ms @ [m])"
proof (unfold balanced_def load_snoc, intro allI impI)
  fix i j assume "i < L" "j < L"
  then have "load ms i \<le> load ms j + 1" "load ms (m_ShardIndex m) \<le> load ms j"
    using assms by (auto simp: balanced_def)
  then show "load ms i + (if m_ShardIndex m = i then 1 else 0) \<le> load ms j + (if m_ShardIndex m = j then 1 else 0) + 1"
    by auto
qed

lemma logical_count_nonzero [simp]: "logical_count L \<noteq> 0"
  by (simp add: logical_count_def)

lemma merchants_step_store [simp]:
  fixes s :: "'a merchant_store_scheme"
  shows "merchants (step_store s) = merchants s" and "mcache (step_store s) = mcache s"
  by (simp_all add: step_store_def)

lemma exec_insert_merchant_cases:
  obtains e where "exec_insert_merchant env p m s = (step_store s, Inl e)"
  | i c where "exec_insert_merchant env p m s =
      (step_store (s\<lparr>merchants := merchants s @ [m\<lparr>m_ID := i, m_CreatedAt := c\<rparr>]\<rparr>), Inr i)"
      "\<not> (\<exists>x \<in> set (merchants s). env_coll env (m_MerchantID x) (m_MerchantID m) \<or> env_coll env (m_APIKey x) (m_APIKey m))"
proof (cases "env_fault env (stmts s) p")
  case None
  then show ?thesis
    using that
    by (cases "merchant_fits m";
        cases "\<exists>x \<in> set (merchants s). env_coll env (m_MerchantID x) (m_MerchantID m) \<or> env_coll env (m_APIKey x) (m_APIKey m)")
      (simp_all add: exec_insert_merchant_def Let_def)
qed (use that in \<open>simp add: exec_insert_merchant_def\<close>)

lemma merchant_Insert_cases:
  obtains (unchanged) e where "merchants (fst (merchant_Insert env r L m s)) = merchants s"
      "snd (snd (merchant_Insert env r L m s)) = Inl e"
  | (added) row where "merchants (fst (merchant_Insert env r L m s)) = merchants s @ [row]"
      "snd (snd (merchant_Insert env r L m s)) = Inr ()"
      "m_ShardIndex row = of_nat (pick_index (logical_count L) (merchants s))"
      "\<not> (\<exists>x \<in> set (merchants s). env_coll env (m_MerchantID x) (m_MerchantID row) \<or> env_coll env (m_APIKey x) (m_APIKey row))"
      "m_APIKey row = m_APIKey m" "m_SecretKey row = m_SecretKey m" "m_MerchantID row = m_MerchantID m"
      "m_ShardIndex (fst (snd (merchant_Insert env r L m s))) = m_ShardIndex row"
proof -
  let ?i = "of_nat (pick_index (logical_count L) (merchants s)) :: uint8"
  let ?m = "m\<lparr>m_ShardIndex := ?i, m_Status := (if m_Status m = [] then MerchantStatusActive else m_Status m),
      m_RateLimit := (if m_RateLimit m = 0 then 1000 else m_RateLimit m)\<rparr>"
  show thesis
  proof (cases "env_fault env (stmts s) (router_Control r)")
    case (Some e)
    then show ?thesis
      using unchanged by (simp add: merchant_Insert_def pickLeastLoadedShard_def)
  next
    case None
    then have pick: "pickLeastLoadedShard env r (logical_count L) s = (step_store s, Inr ?i)"
      by (simp add: pickLeastLoadedShard_def)
    show ?thesis
    proof (cases rule: exec_insert_merchant_cases [of env "router_Control r" ?m "step_store s"])
      case (1 e)
      then show ?thesis
        using unchanged by (cases "isDuplicateKeyErr e") (simp_all add: merchant_Insert_def pick Let_def)
    next
      case (2 i c)
      then show ?thesis
        using added [of "?m\<lparr>m_ID := i, m_CreatedAt := c\<rparr>"] by (simp add: merchant_Insert_def pick Let_def)
    qed
  qed
qed

text \<open>A new merchant goes to the least loaded shard: when the count query answers, the index
  chosen is below the logical shard count, no other index has fewer merchants, and every smaller
  index has strictly more (the tie is broken towards the smallest index).\<close>

theorem pickLeastLoadedShard_least:
  assumes "L \<noteq> 0" and "env_fault env (stmts s) (router_Control r) = None"
  shows "\<exists>i. snd (pickLeastLoadedShard env r L s) = Inr i \<and> i < L \<and>
    (\<forall>j < L. load (merchants s) i \<le> load (merchants s) j) \<and>
    (\<forall>j < i. load (merchants s) i < load (merchants s) j)"
  using pick_index_least [OF assms(1), of "merchants s"] assms(2) by (simp add: pickLeastLoadedShard_def)

definition demo_merchant :: "string \<Rightarrow> Merchant" where
  "demo_merchant x = \<lparr>m_ID = 0, m_MerchantID = x, m_Name = ''shop'', m_APIKey = ''k-'' @ x, m_SecretKey = ''s-'' @ x,
     m_CallbackURL = [], m_RateLimit = 1000, m_Status = MerchantStatusActive, m_ShardIndex = 0, m_CreatedAt = 0\<rparr>"

definition demo_mstore :: "Merchant list \<Rightarrow> merchant_store" where
  "demo_mstore ms = \<lparr>tables = (\<lambda>p. []), stmts = 0, merchants = ms, mcache = newLRUCache 1024 300000000000\<rparr>"

theorem pickLeastLoadedShard_least_witness:
  "\<exists>i. snd (pickLeastLoadedShard demo_env demo_router 4 (demo_mstore [demo_merchant ''a''])) = Inr i \<and> i < 4 \<and>
    load [demo_merchant ''a''] i \<le> load [demo_merchant ''a''] 1"
  using pickLeastLoadedShard_least [of 4 demo_env "demo_mstore [demo_merchant ''a'']" demo_router]
  by (auto simp: demo_env_def demo_mstore_def)

text \<open>The fleet stays balanced: after any sequence of registrations on an empty table, accepted
  or refused and with any statements failing, the numbers of merchants on two logical shards
  differ by at most one.\<close>

theorem merchants_balanced:
  assumes "merchants s = []"
  shows "balanced (logical_count L) (merchants (fold (\<lambda>m s. fst (merchant_Insert env r L m s)) ms s))"
proof -
  have step: "balanced (logical_count L) (merchants (fst (merchant_Insert env r L m s)))"
    if "balanced (logical_count L) (merchants s)" for s :: "'a merchant_store_scheme" and m
  proof (cases rule: merchant_Insert_cases [of env r L m s])
    case (added row)
    with that show ?thesis
      using pick_index_least [of "logical_count L" "merchants s"] by (auto intro: balanced_snoc)
  qed (use that in simp)
  have "balanced (logical_count L) (merchants (fold (\<lambda>m s. fst (merchant_Insert env r L m s)) ms s))"
    if "balanced (logical_count L) (merchants s)" for s :: "'a merchant_store_scheme"
    using that by (induction ms arbitrary: s) (auto simp: step)
  then show ?thesis
    using assms by (simp add: balanced_def load_def)
qed

theorem merchants_balanced_witness:
  "balanced (logical_count 4) (merchants (fold (\<lambda>m s. fst (merchant_Insert demo_env demo_router 4 m s))
     (map demo_merchant [''a'', ''b'', ''c'']) (demo_mstore [])))"
  using merchants_balanced [of "demo_mstore []" 4 demo_env demo_router "map demo_merchant [''a'', ''b'', ''c'']"]
  by (simp add: demo_mstore_def)

section \<open>Registering a merchant\<close>

lemma merchant_Create_Inr:
  assumes "merchant_Create ins rand1 rand2 inp s = (s', Inr res)"
  obtains m m' b1 b2 where "ins m s = (s', m', Inr ())"
    and "rand1 = Inr b1" "rand2 = Inr b2" "m_APIKey m = EncodeToString b1" "m_SecretKey m = EncodeToString b2"
    and "m_MerchantID m = TrimSpace (cm_MerchantID inp)" "m_Status m = MerchantStatusActive"
    and "res = \<lparr>cmr_MerchantID = m_MerchantID m', cmr_Name = m_Name m', cmr_APIKey = m_APIKey m',
         cmr_SecretKey = m_SecretKey m', cmr_CallbackURL = m_CallbackURL m',
         cmr_RateLimit = m_RateLimit m', cmr_ShardIndex = m_ShardIndex m'\<rparr>"
  using assms
  by (auto simp: merchant_Create_def Let_def randomHex_def split: if_splits sum.splits prod.splits)

lemma merchant_Insert_keys:
  "snd (snd (merchant_Insert env r L m s)) = Inr () \<Longrightarrow>
    m_APIKey (fst (snd (merchant_Insert env r L m s))) = m_APIKey m \<and>
    m_SecretKey (fst (snd (merchant_Insert env r L m s))) = m_SecretKey m \<and>
    m_MerchantID (fst (snd (merchant_Insert env r L m s))) = m_MerchantID m"
  by (auto simp: merchant_Insert_def Let_def split: sum.splits prod.splits)

lemma find_snoc_new: "\<forall>x \<in> set xs. \<not> P x \<Longrightarrow> P y \<Longrightarrow> find P (xs @ [y]) = Some y"
  by (induction xs) auto

text \<open>Registered merchants can authenticate: when the admin operation returns credentials, the
  merchant has been added to the table, on a shard below the logical count, and the lookup by the
  returned API key, with nothing cached for that key and a query that answers, yields exactly that
  merchant with the returned secret.\<close>

theorem register_then_lookup:
  fixes s :: "'a merchant_store_scheme"
  assumes "merchant_Create (merchant_Insert env r L) rand1 rand2 inp s = (s', Inr res)"
    and "map_of (lru_data (mcache s')) (''api:'' @ cmr_APIKey res) = None"
    and "env_fault env (stmts s') (router_Control r) = None" and "\<forall>x. env_coll env x x"
  shows "\<exists>m. snd (GetByAPIKey env r (cmr_APIKey res) s') = Inr m \<and> merchants s' = merchants s @ [m] \<and>
    m_MerchantID m = cmr_MerchantID res \<and> m_SecretKey m = cmr_SecretKey res \<and>
    m_ShardIndex m = cmr_ShardIndex res \<and> m_ShardIndex m < logical_count L"
proof -
  obtain m m' where ins: "merchant_Insert env r L m s = (s', m', Inr ())"
    and res: "res = \<lparr>cmr_MerchantID = m_MerchantID m', cmr_Name = m_Name m', cmr_APIKey = m_APIKey m',
         cmr_SecretKey = m_SecretKey m', cmr_CallbackURL = m_CallbackURL m',
         cmr_RateLimit = m_RateLimit m', cmr_ShardIndex = m_ShardIndex m'\<rparr>"
    using merchant_Create_Inr [OF assms(1)] by metis
  have keys: "m_APIKey m' = m_APIKey m" "m_SecretKey m' = m_SecretKey m" "m_MerchantID m' = m_MerchantID m"
    using merchant_Insert_keys [of env r L m s] ins by simp_all
  show ?thesis
  proof (cases rule: merchant_Insert_cases [of env r L m s])
    case (added row)
    have "find (\<lambda>x. env_coll env (m_APIKey x) (m_APIKey m)) (merchants s @ [row]) = Some row"
      using added assms(4) by (intro find_snoc_new) auto
    then have "snd (GetByAPIKey env r (cmr_APIKey res) s') = Inr row"
      using assms(2,3) added(1) ins res keys
      by (simp add: GetByAPIKey_def lru_get_def query_merchant_def scanMerchant_def)
    then show ?thesis
      using added ins res keys pick_index_least [of "logical_count L" "merchants s"] by auto
  qed (use ins in simp)
qed

definition demo_input :: CreateMerchantInput where
  "demo_input = \<lparr>cm_MerchantID = ''M1'', cm_Name = ''shop'', cm_CallbackURL = [], cm_RateLimit = 0\<rparr>"

lemma merchant_fits_demo:
  "length b1 = 32 \<Longrightarrow> length b2 = 32 \<Longrightarrow>
    merchant_fits \<lparr>m_ID = 0, m_MerchantID = ''M1'', m_Name = ''shop'', m_APIKey = EncodeToString b1,
      m_SecretKey = EncodeToString b2, m_CallbackURL = [], m_RateLimit = 1000, m_Status = ''active'',
      m_ShardIndex = i, m_CreatedAt = c\<rparr>"
  by (simp add: merchant_fits_def)

lemma demo_Create:
  assumes "length b1 = 32" and "length b2 = 32"
  shows "\<exists>s' res. merchant_Create (merchant_Insert demo_env demo_router 4) (Inr b1) (Inr b2) demo_input (demo_mstore []) =
      (s', Inr res) \<and> mcache s' = newLRUCache 1024 300000000000"
  by (simp add: merchant_Create_def demo_input_def randomHex_def merchant_Insert_def pickLeastLoadedShard_def
      demo_env_def demo_mstore_def exec_insert_merchant_def merchant_fits_demo [OF assms] Let_def go_defs)

theorem register_then_lookup_witness:
  "\<exists>s' res m. merchant_Create (merchant_Insert demo_env demo_router 4) (Inr (replicate 32 CHR ''a''))
      (Inr (replicate 32 CHR ''b'')) demo_input (demo_mstore []) = (s', Inr res) \<and>
    snd (GetByAPIKey demo_env demo_router (cmr_APIKey res) s') = Inr m \<and> m_SecretKey m = cmr_SecretKey res"
proof -
  obtain s' res where c: "merchant_Create (merchant_Insert demo_env demo_router 4) (Inr (replicate 32 CHR ''a''))
      (Inr (replicate 32 CHR ''b'')) demo_input (demo_mstore []) = (s', Inr res)"
    and "mcache s' = newLRUCache 1024 300000000000"
    using demo_Create [of "replicate 32 CHR ''a''" "replicate 32 CHR ''b''"] by auto
  with register_then_lookup [OF c] show ?thesis
    by (auto simp: demo_env_def newLRUCache_def)
qed


lemma demo_Create_long:
  assumes "length b1 = 32" and "length b2 = 32"
  shows "\<exists>s' res. merchant_Create (merchant_Insert demo_env demo_router 4) (Inr b1) (Inr b2)
      (demo_input\<lparr>cm_MerchantID := ''merchant-0123456789''\<rparr>) (demo_mstore []) = (s', Inr res) \<and>
    cmr_MerchantID res = ''merchant-0123456789''"
  using assms
  by (simp add: merchant_Create_def demo_input_def randomHex_def merchant_Insert_def pickLeastLoadedShard_def
      demo_env_def demo_mstore_def exec_insert_merchant_def merchant_fits_def Let_def go_defs)


end
