(* ===== verification/StripeClient.thy ===== *)
theory StripeClient
  imports Domain
begin

text \<open>
  \<^verbatim>\<open>internal/provider/stripe\<close>: the types of the Stripe port, webhook signatures
  (\<^verbatim>\<open>signature.go\<close>), the circuit-breaker wrapper (\<^verbatim>\<open>breaker.go\<close>), the in-process fake
  (\<^verbatim>\<open>fake.go\<close>) and the adapter to the SDK (\<^verbatim>\<open>impl.go\<close>). The SDK's calls, the state machine of the
  \<^verbatim>\<open>gobreaker\<close> package, JSON decoding and random bytes are arguments. A \<^verbatim>\<open>map[string]string\<close> is an
  association list.
\<close>

section \<open>types.go and client.go\<close>

type_synonym metadata = "(string \<times> string) list"

record CreateCheckoutRequest =
  cc_Amount :: int
  cc_Currency :: string
  cc_PaymentMethodTypes :: "string list"
  cc_CustomerEmail :: string
  cc_SuccessURL :: string
  cc_CancelURL :: string
  cc_ClientReferenceID :: string
  cc_Metadata :: metadata

record CheckoutSession =
  cs_ID :: string
  cs_URL :: string
  cs_PaymentIntentID :: string
  cs_ClientSecret :: string
  cs_Status :: string
  cs_AmountTotal :: int
  cs_Currency :: string

record CreatePaymentIntentRequest =
  cp_Amount :: int
  cp_Currency :: string
  cp_PaymentMethodTypes :: "string list"
  cp_CustomerEmail :: string
  cp_Metadata :: metadata
  cp_Description :: string

record PaymentIntent =
  pi_ID :: string
  pi_ClientSecret :: string
  pi_Amount :: int
  pi_Currency :: string
  pi_Status :: string
  pi_ChargeID :: string
  pi_Metadata :: metadata

record CreateRefundRequest =
  cr_PaymentIntentID :: string
  cr_Amount :: int
  cr_Reason :: string
  cr_Metadata :: metadata

record Refund =
  rf_ID :: string
  rf_Amount :: int
  rf_Currency :: string
  rf_Status :: string
  rf_PaymentIntentID :: string
  rf_ChargeID :: string

record Event =
  ev_ID :: string
  ev_Type :: string
  ev_Created :: int
  ev_APIVersion :: string
  ev_Data :: string

text \<open>The interface \<^verbatim>\<open>Client\<close>: its operations may change the state of the outside world.\<close>

record 's StripeClient =
  st_CreateCheckoutSession :: "CreateCheckoutRequest \<Rightarrow> string \<Rightarrow> 's \<Rightarrow> 's \<times> CheckoutSession result"
  st_CreatePaymentIntent :: "CreatePaymentIntentRequest \<Rightarrow> string \<Rightarrow> 's \<Rightarrow> 's \<times> PaymentIntent result"
  st_GetPaymentIntent :: "string \<Rightarrow> 's \<Rightarrow> 's \<times> PaymentIntent result"
  st_GetCheckoutSession :: "string \<Rightarrow> 's \<Rightarrow> 's \<times> CheckoutSession result"
  st_CreateRefund :: "CreateRefundRequest \<Rightarrow> string \<Rightarrow> 's \<Rightarrow> 's \<times> Refund result"
  st_VerifyWebhookSignature :: "string \<Rightarrow> string \<Rightarrow> string \<Rightarrow> 's \<Rightarrow> Event result"

section \<open>signature.go\<close>

definition defaultTolerance :: int where
  "defaultTolerance = 5 * 60 * 1000000000"

definition abs64 :: "int \<Rightarrow> int" where
  "abs64 v = (if v < 0 then int64 (- v) else v)"

text \<open>The loop over the comma-separated parts of the header.\<close>

fun parse_parts :: "string list \<Rightarrow> int \<Rightarrow> string list \<Rightarrow> (int \<times> string list) result" where
  "parse_parts [] ts v1Sigs = Inr (ts, v1Sigs)"
| "parse_parts (part # parts) ts v1Sigs =
     (case SplitN2 (TrimSpace part) CHR ''='' of
        None \<Rightarrow> Inl (Sentinel ErrSignatureFormat)
      | Some (k, v) \<Rightarrow>
          if k = ''t''
          then (case ParseInt v of
                  None \<Rightarrow> Inl (Sentinel ErrSignatureFormat)
                | Some n \<Rightarrow> parse_parts parts n v1Sigs)
          else if k = ''v1'' then parse_parts parts ts (v1Sigs @ [v])
          else parse_parts parts ts v1Sigs)"

definition signed_payload :: "int \<Rightarrow> string \<Rightarrow> string" where
  "signed_payload ts payload = FormatInt ts @ ''.'' @ payload"

fun any_match :: "string \<Rightarrow> string list \<Rightarrow> bool" where
  "any_match expected [] = False"
| "any_match expected (sig # sigs) =
     (case DecodeString sig of
        None \<Rightarrow> any_match expected sigs
      | Some got \<Rightarrow> if got = expected then True else any_match expected sigs)"

definition verifyWithTolerance ::
  "(string \<Rightarrow> Event result) \<Rightarrow> string \<Rightarrow> string \<Rightarrow> string \<Rightarrow> int \<Rightarrow> int \<Rightarrow> Event result" where
  "verifyWithTolerance unmarshal payload sigHeader secret tolerance now =
     (if sigHeader = [] then Inl (Sentinel ErrSignatureMissing)
      else if secret = [] then Inl (ErrNew ''stripe webhook secret not configured'')
      else case parse_parts (Split sigHeader CHR '','') 0 [] of
        Inl e \<Rightarrow> Inl e
      | Inr (ts, v1Sigs) \<Rightarrow>
          if ts = 0 \<or> v1Sigs = [] then Inl (Sentinel ErrSignatureFormat)
          else if abs64 (int64 (unix now - ts)) > tolerance div 1000000000 then Inl (Sentinel ErrSignatureExpired)
          else if \<not> any_match (hmac_sha256 secret (signed_payload ts payload)) v1Sigs
          then Inl (Sentinel ErrSignatureMismatch)
          else (case unmarshal payload of Inl e \<Rightarrow> Inl (Wrapf ''decode event'' e) | Inr ev \<Rightarrow> Inr ev))"

definition VerifyAndConstructEvent ::
  "(string \<Rightarrow> Event result) \<Rightarrow> string \<Rightarrow> string \<Rightarrow> string \<Rightarrow> int \<Rightarrow> Event result" where
  "VerifyAndConstructEvent unmarshal payload sigHeader secret now =
     verifyWithTolerance unmarshal payload sigHeader secret defaultTolerance now"

definition SignPayload :: "string \<Rightarrow> string \<Rightarrow> int \<Rightarrow> string" where
  "SignPayload payload secret ts =
     ''t='' @ FormatInt ts @ '',v1='' @ EncodeToString (hmac_sha256 secret (signed_payload ts payload))"

section \<open>breaker.go\<close>

record Counts =
  Requests :: nat
  TotalFailures :: nat

text \<open>
  \<^verbatim>\<open>float64(f)/float64(n) > 0.5\<close> for 32-bit counters: both conversions are exact, and a quotient
  above one half is at least \<open>1/2 + 1/(2n)\<close>, which rounding keeps above one half.
\<close>

definition ReadyToTrip :: "Counts \<Rightarrow> bool" where
  "ReadyToTrip c \<longleftrightarrow> Requests c \<ge> 20 \<and> 2 * TotalFailures c > Requests c"

definition IsSuccessful :: "goerr option \<Rightarrow> bool" where
  "IsSuccessful err =
     (case err of
        None \<Rightarrow> True
      | Some e \<Rightarrow> (case errors_As_provider e of
          Some category \<Rightarrow> category = ''card'' \<or> category = ''invalid_request''
        | None \<Rightarrow> False))"

definition breaker_wrap ::
  "(('s \<Rightarrow> 's \<times> 'a result) \<Rightarrow> 's \<Rightarrow> 's \<times> 'a result) \<Rightarrow> ('s \<Rightarrow> 's \<times> 'a result) \<Rightarrow> 's \<Rightarrow> 's \<times> 'a result" where
  "breaker_wrap Execute fn s =
     (case Execute fn s of
        (s', Inl err) \<Rightarrow>
          (s', if errors_Is err ErrOpenState \<or> errors_Is err ErrTooManyRequests
               then Inl (Sentinel ErrCircuitOpen) else Inl err)
      | (s', Inr v) \<Rightarrow> (s', Inr v))"

text \<open>\<open>Execute\<close> is one breaker; it is used at the type of each wrapped operation.\<close>

definition NewBreakerClient ::
  "(('s \<Rightarrow> 's \<times> CheckoutSession result) \<Rightarrow> 's \<Rightarrow> 's \<times> CheckoutSession result) \<Rightarrow>
   (('s \<Rightarrow> 's \<times> PaymentIntent result) \<Rightarrow> 's \<Rightarrow> 's \<times> PaymentIntent result) \<Rightarrow>
   (('s \<Rightarrow> 's \<times> Refund result) \<Rightarrow> 's \<Rightarrow> 's \<times> Refund result) \<Rightarrow>
   's StripeClient \<Rightarrow> 's StripeClient" where
  "NewBreakerClient ExecuteCS ExecutePI ExecuteRF inner = \<lparr>
     st_CreateCheckoutSession = (\<lambda>req idem. breaker_wrap ExecuteCS (st_CreateCheckoutSession inner req idem)),
     st_CreatePaymentIntent = (\<lambda>req idem. breaker_wrap ExecutePI (st_CreatePaymentIntent inner req idem)),
     st_GetPaymentIntent = (\<lambda>x. breaker_wrap ExecutePI (st_GetPaymentIntent inner x)),
     st_GetCheckoutSession = (\<lambda>x. breaker_wrap ExecuteCS (st_GetCheckoutSession inner x)),
     st_CreateRefund = (\<lambda>req idem. breaker_wrap ExecuteRF (st_CreateRefund inner req idem)),
     st_VerifyWebhookSignature = st_VerifyWebhookSignature inner\<rparr>"

section \<open>fake.go\<close>

text \<open>\<open>rnd n s\<close> are the \<open>n\<close> bytes \<^verbatim>\<open>rand.Read\<close> fills in; \<open>randHex n\<close> asks for \<open>n/2\<close> of them.\<close>

definition randHex :: "(nat \<Rightarrow> 's \<Rightarrow> 's \<times> string) \<Rightarrow> nat \<Rightarrow> 's \<Rightarrow> 's \<times> string" where
  "randHex rnd n s = (case rnd (n div 2) s of (s', b) \<Rightarrow> (s', EncodeToString b))"

definition NewFake ::
  "(nat \<Rightarrow> 's \<Rightarrow> 's \<times> string) \<Rightarrow> (string \<Rightarrow> Event result) \<Rightarrow> ('s \<Rightarrow> int) \<Rightarrow> 's StripeClient" where
  "NewFake rnd unmarshal clock = \<lparr>
     st_CreateCheckoutSession = (\<lambda>req idem s.
       case randHex rnd 24 s of (s1, r1) \<Rightarrow>
       case randHex rnd 24 s1 of (s2, r2) \<Rightarrow>
       case randHex rnd 16 s2 of (s3, r3) \<Rightarrow>
         (s3, Inr \<lparr>cs_ID = ''cs_fake_'' @ r1,
                   cs_URL = ''https://checkout.fake.local/c/pay/'' @ ''cs_fake_'' @ r1,
                   cs_PaymentIntentID = ''pi_fake_'' @ r2,
                   cs_ClientSecret = ''pi_fake_'' @ r2 @ ''_secret_'' @ r3,
                   cs_Status = ''open'', cs_AmountTotal = cc_Amount req,
                   cs_Currency = ToLower (cc_Currency req)\<rparr>)),
     st_CreatePaymentIntent = (\<lambda>req idem s.
       case randHex rnd 24 s of (s1, r1) \<Rightarrow>
       case randHex rnd 16 s1 of (s2, r2) \<Rightarrow>
         (s2, Inr \<lparr>pi_ID = ''pi_fake_'' @ r1, pi_ClientSecret = ''pi_fake_'' @ r1 @ ''_secret_'' @ r2,
                   pi_Amount = cp_Amount req, pi_Currency = ToLower (cp_Currency req),
                   pi_Status = ''requires_payment_method'', pi_ChargeID = [], pi_Metadata = cp_Metadata req\<rparr>)),
     st_GetPaymentIntent = (\<lambda>x s.
       (s, Inr \<lparr>pi_ID = x, pi_ClientSecret = [], pi_Amount = 0, pi_Currency = ''usd'', pi_Status = ''succeeded'',
                pi_ChargeID = [], pi_Metadata = []\<rparr>)),
     st_GetCheckoutSession = (\<lambda>x s.
       (s, Inr \<lparr>cs_ID = x, cs_URL = [], cs_PaymentIntentID = [], cs_ClientSecret = [], cs_Status = ''complete'',
                cs_AmountTotal = 0, cs_Currency = []\<rparr>)),
     st_CreateRefund = (\<lambda>req idem s.
       case randHex rnd 24 s of (s1, r1) \<Rightarrow>
         (s1, Inr \<lparr>rf_ID = ''re_fake_'' @ r1, rf_Amount = cr_Amount req, rf_Currency = ''usd'',
                   rf_Status = ''succeeded'', rf_PaymentIntentID = cr_PaymentIntentID req, rf_ChargeID = []\<rparr>)),
     st_VerifyWebhookSignature = (\<lambda>payload sigHeader secret s.
       VerifyAndConstructEvent unmarshal payload sigHeader secret (clock s))\<rparr>"

section \<open>impl.go\<close>

text \<open>The parameters the adapter hands to the SDK; an absent pointer is \<^const>\<open>None\<close>.\<close>

record CheckoutSessionParams =
  sp_Mode :: string
  sp_PaymentMethodTypes :: "string list"
  sp_Currency :: string
  sp_UnitAmount :: int
  sp_ProductName :: string
  sp_Quantity :: int
  sp_SuccessURL :: "string option"
  sp_CancelURL :: "string option"
  sp_ClientReferenceID :: "string option"
  sp_CustomerEmail :: "string option"
  sp_Metadata :: metadata
  sp_IdempotencyKey :: "string option"

record PaymentIntentParams =
  pp_Amount :: int
  pp_Currency :: string
  pp_PaymentMethodTypes :: "string list"
  pp_Description :: "string option"
  pp_ReceiptEmail :: "string option"
  pp_Metadata :: metadata
  pp_IdempotencyKey :: "string option"

record RefundParams =
  rp_PaymentIntent :: string
  rp_Amount :: "int option"
  rp_Reason :: "string option"
  rp_Metadata :: metadata
  rp_IdempotencyKey :: "string option"

text \<open>What the SDK returns: its objects, with the nested objects the adapter reads as options.\<close>

record sdk_session =
  ss_ID :: string
  ss_URL :: string
  ss_Status :: string
  ss_AmountTotal :: int
  ss_Currency :: string
  ss_PaymentIntent :: "(string \<times> string) option"

record sdk_intent =
  si_ID :: string
  si_ClientSecret :: string
  si_Amount :: int
  si_Currency :: string
  si_Status :: string
  si_Metadata :: metadata
  si_LatestCharge :: "string option"

record sdk_refund =
  sr_ID :: string
  sr_Amount :: int
  sr_Currency :: string
  sr_Status :: string
  sr_PaymentIntent :: "string option"
  sr_Charge :: "string option"

datatype sdk_error = StripeError string int goerr | OtherError goerr

record 's sdk =
  sdk_session_New :: "CheckoutSessionParams \<Rightarrow> 's \<Rightarrow> 's \<times> (sdk_error + sdk_session)"
  sdk_session_Get :: "string \<Rightarrow> 's \<Rightarrow> 's \<times> (sdk_error + sdk_session)"
  sdk_intent_New :: "PaymentIntentParams \<Rightarrow> 's \<Rightarrow> 's \<times> (sdk_error + sdk_intent)"
  sdk_intent_Get :: "string \<Rightarrow> 's \<Rightarrow> 's \<times> (sdk_error + sdk_intent)"
  sdk_refund_New :: "RefundParams \<Rightarrow> 's \<Rightarrow> 's \<times> (sdk_error + sdk_refund)"

definition nilIfEmpty :: "string \<Rightarrow> string option" where
  "nilIfEmpty s = (if s = [] then None else Some s)"

definition mapStripeError :: "string \<Rightarrow> sdk_error \<Rightarrow> goerr" where
  "mapStripeError op err =
     (case err of
        StripeError typ status e \<Rightarrow>
          (let cat = (if typ = ''card_error'' then ''card''
                      else if typ = ''api_error'' then ''api''
                      else if typ = ''idempotency_error'' then ''idempotency''
                      else if typ = ''invalid_request_error'' then ''invalid_request''
                      else ''api'')
           in ProviderError op (if status = 429 then ''rate_limit'' else cat) e)
      | OtherError e \<Rightarrow> ProviderError op ''network'' e)"

definition mapPaymentIntent :: "sdk_intent \<Rightarrow> PaymentIntent" where
  "mapPaymentIntent pi =
     \<lparr>pi_ID = si_ID pi, pi_ClientSecret = si_ClientSecret pi, pi_Amount = si_Amount pi,
      pi_Currency = si_Currency pi, pi_Status = si_Status pi,
      pi_ChargeID = (case si_LatestCharge pi of Some c \<Rightarrow> c | None \<Rightarrow> []),
      pi_Metadata = si_Metadata pi\<rparr>"

definition map_session :: "sdk_session \<Rightarrow> CheckoutSession" where
  "map_session s =
     \<lparr>cs_ID = ss_ID s, cs_URL = ss_URL s,
      cs_PaymentIntentID = (case ss_PaymentIntent s of Some (i, c) \<Rightarrow> i | None \<Rightarrow> []),
      cs_ClientSecret = (case ss_PaymentIntent s of Some (i, c) \<Rightarrow> c | None \<Rightarrow> []),
      cs_Status = ss_Status s, cs_AmountTotal = ss_AmountTotal s, cs_Currency = ss_Currency s\<rparr>"

definition sdk_result :: "string \<Rightarrow> ('x \<Rightarrow> 'y) \<Rightarrow> 's \<times> (sdk_error + 'x) \<Rightarrow> 's \<times> 'y result" where
  "sdk_result op f r = (case r of (s, Inl e) \<Rightarrow> (s, Inl (mapStripeError op e)) | (s, Inr x) \<Rightarrow> (s, Inr (f x)))"

definition real_CreateCheckoutSession ::
  "'s sdk \<Rightarrow> CreateCheckoutRequest \<Rightarrow> string \<Rightarrow> 's \<Rightarrow> 's \<times> CheckoutSession result" where
  "real_CreateCheckoutSession sdk req idempotencyKey s =
     sdk_result ''create checkout session'' map_session
       (sdk_session_New sdk
         \<lparr>sp_Mode = ''payment'', sp_PaymentMethodTypes = cc_PaymentMethodTypes req,
          sp_Currency = cc_Currency req, sp_UnitAmount = cc_Amount req,
          sp_ProductName = ''Order '' @ cc_ClientReferenceID req, sp_Quantity = 1,
          sp_SuccessURL = nilIfEmpty (cc_SuccessURL req), sp_CancelURL = nilIfEmpty (cc_CancelURL req),
          sp_ClientReferenceID = nilIfEmpty (cc_ClientReferenceID req),
          sp_CustomerEmail = nilIfEmpty (cc_CustomerEmail req), sp_Metadata = cc_Metadata req,
          sp_IdempotencyKey = nilIfEmpty idempotencyKey\<rparr> s)"

definition real_CreatePaymentIntent ::
  "'s sdk \<Rightarrow> CreatePaymentIntentRequest \<Rightarrow> string \<Rightarrow> 's \<Rightarrow> 's \<times> PaymentIntent result" where
  "real_CreatePaymentIntent sdk req idempotencyKey s =
     sdk_result ''create payment intent'' mapPaymentIntent
       (sdk_intent_New sdk
         \<lparr>pp_Amount = cp_Amount req, pp_Currency = cp_Currency req,
          pp_PaymentMethodTypes = cp_PaymentMethodTypes req, pp_Description = nilIfEmpty (cp_Description req),
          pp_ReceiptEmail = nilIfEmpty (cp_CustomerEmail req), pp_Metadata = cp_Metadata req,
          pp_IdempotencyKey = nilIfEmpty idempotencyKey\<rparr> s)"

definition real_CreateRefund ::
  "'s sdk \<Rightarrow> CreateRefundRequest \<Rightarrow> string \<Rightarrow> 's \<Rightarrow> 's \<times> Refund result" where
  "real_CreateRefund sdk req idempotencyKey s =
     sdk_result ''create refund''
       (\<lambda>r. \<lparr>rf_ID = sr_ID r, rf_Amount = sr_Amount r, rf_Currency = sr_Currency r, rf_Status = sr_Status r,
            rf_PaymentIntentID = (case sr_PaymentIntent r of Some i \<Rightarrow> i | None \<Rightarrow> []),
            rf_ChargeID = (case sr_Charge r of Some c \<Rightarrow> c | None \<Rightarrow> [])\<rparr>)
       (sdk_refund_New sdk
         \<lparr>rp_PaymentIntent = cr_PaymentIntentID req,
          rp_Amount = (if cr_Amount req > 0 then Some (cr_Amount req) else None),
          rp_Reason = nilIfEmpty (cr_Reason req), rp_Metadata = cr_Metadata req,
          rp_IdempotencyKey = nilIfEmpty idempotencyKey\<rparr> s)"

definition NewClient ::
  "'s sdk \<Rightarrow> (string \<Rightarrow> Event result) \<Rightarrow> ('s \<Rightarrow> int) \<Rightarrow> string \<Rightarrow> 's StripeClient" where
  "NewClient sdk unmarshal clock webhookSecret = \<lparr>
     st_CreateCheckoutSession = real_CreateCheckoutSession sdk,
     st_CreatePaymentIntent = real_CreatePaymentIntent sdk,
     st_GetPaymentIntent = (\<lambda>x s. sdk_result ''get payment intent'' mapPaymentIntent (sdk_intent_Get sdk x s)),
     st_GetCheckoutSession = (\<lambda>x s. sdk_result ''get checkout session'' map_session (sdk_session_Get sdk x s)),
     st_CreateRefund = real_CreateRefund sdk,
     st_VerifyWebhookSignature = (\<lambda>payload sigHeader secret s.
       VerifyAndConstructEvent unmarshal payload sigHeader
         (if secret = [] then webhookSecret else secret) (clock s))\<rparr>"

section \<open>Webhook signatures\<close>

lemma any_match_iff: "any_match (hmac_sha256 secret msg) sigs \<longleftrightarrow> (\<exists>sig \<in> set sigs. hmac_Verify secret msg sig)"
  by (induction sigs) (auto simp: hmac_Verify_def split: option.splits)

lemma abs64_diff:
  assumes "int64_range x" and "0 \<le> tol" and "tol < 2 ^ 63"
  shows "abs64 (int64 (y - x)) \<le> tol \<longleftrightarrow> \<bar>int64 (y - x)\<bar> \<le> tol \<or> int64 (y - x) = - (2 ^ 63)"
proof -
  have r: "int64_range (int64 (y - x))"
    by (rule int64_range_int64)
  show ?thesis
  proof (cases "int64 (y - x) = - (2 ^ 63)")
    case True
    moreover have "int64 (2 ^ 63) = - (2 ^ 63)"
      by (simp add: int64_def)
    ultimately show ?thesis
      using assms(2) by (simp add: abs64_def)
  next
    case False
    with r have "int64_range (- int64 (y - x))"
      by (simp add: int64_range_def)
    then have "abs64 (int64 (y - x)) = \<bar>int64 (y - x)\<bar>"
      by (simp add: abs64_def int64_id)
    with False show ?thesis
      by simp
  qed
qed

lemma verify_Inr_iff:
  "verifyWithTolerance unmarshal payload hdr secret tol now = Inr ev \<longleftrightarrow>
    hdr \<noteq> [] \<and> secret \<noteq> [] \<and> unmarshal payload = Inr ev \<and>
    (\<exists>ts sigs. parse_parts (Split hdr CHR '','') 0 [] = Inr (ts, sigs) \<and> ts \<noteq> 0 \<and>
       abs64 (int64 (unix now - ts)) \<le> tol div 1000000000 \<and>
       (\<exists>sig \<in> set sigs. hmac_Verify secret (signed_payload ts payload) sig))"
  by (auto simp: verifyWithTolerance_def any_match_iff split: sum.splits if_splits)

lemma int64_diff_small:
  assumes "int64_range x" and "0 \<le> y" and "y < 2 ^ 62"
  shows "\<bar>int64 (y - x)\<bar> \<le> 300 \<longleftrightarrow> \<bar>y - x\<bar> \<le> 300" and "int64 (y - x) = - (2 ^ 63) \<longleftrightarrow> x = y - 2 ^ 63"
proof -
  have "int64 (y - x) = (if y - x < 2 ^ 63 then y - x else y - x - 2 ^ 64)"
  proof (cases "y - x < 2 ^ 63")
    case True
    with assms show ?thesis
      by (simp add: int64_id int64_range_def)
  next
    case False
    then have "int64 (y - x) = int64 (y - x - 2 ^ 64)"
      by (simp add: int64_eq_iff)
    with False assms show ?thesis
      by (simp add: int64_id int64_range_def)
  qed
  with assms show "\<bar>int64 (y - x)\<bar> \<le> 300 \<longleftrightarrow> \<bar>y - x\<bar> \<le> 300" and "int64 (y - x) = - (2 ^ 63) \<longleftrightarrow> x = y - 2 ^ 63"
    by (auto simp: int64_range_def)
qed

lemma parse_parts_range:
  "parse_parts parts ts sigs = Inr (ts', sigs') \<Longrightarrow> int64_range ts \<Longrightarrow> int64_range ts'"
proof (induction parts arbitrary: ts sigs)
  case (Cons part parts)
  then show ?case
    using ParseInt_range by (auto split: option.splits if_splits)
qed simp

text \<open>C6. Exactly which webhooks are accepted: the header parses to a non-zero timestamp and at least
  one \<^verbatim>\<open>v1\<close> signature, one of the \<^verbatim>\<open>v1\<close> signatures is the HMAC of the timestamp and the raw body
  under the configured secret, the body decodes, and the timestamp is within 300 seconds of the
  clock, on either side; because the difference and its absolute value are computed in 64 bits,
  the timestamp lying \<open>2^63\<close> seconds before the clock passes as well.\<close>

theorem webhook_accepted_iff:
  assumes "0 \<le> unix now" and "unix now < 2 ^ 62"
  shows "VerifyAndConstructEvent unmarshal payload hdr secret now = Inr ev \<longleftrightarrow>
    hdr \<noteq> [] \<and> secret \<noteq> [] \<and> unmarshal payload = Inr ev \<and>
    (\<exists>ts sigs. parse_parts (Split hdr CHR '','') 0 [] = Inr (ts, sigs) \<and> ts \<noteq> 0 \<and>
       (\<bar>unix now - ts\<bar> \<le> 300 \<or> ts = unix now - 2 ^ 63) \<and>
       (\<exists>sig \<in> set sigs. hmac_Verify secret (signed_payload ts payload) sig))"
proof -
  have "abs64 (int64 (unix now - ts)) \<le> 300 \<longleftrightarrow> \<bar>unix now - ts\<bar> \<le> 300 \<or> ts = unix now - 2 ^ 63"
    if "parse_parts (Split hdr CHR '','') 0 [] = Inr (ts, sigs)" for ts sigs
    using parse_parts_range [OF that] int64_diff_small [OF _ assms, of ts] abs64_diff [of ts 300 "unix now"]
    by (auto simp: int64_range_def)
  moreover have "defaultTolerance div 1000000000 = 300"
    by (simp add: defaultTolerance_def)
  ultimately show ?thesis
    by (cases "parse_parts (Split hdr CHR '','') 0 []") (auto simp: VerifyAndConstructEvent_def verify_Inr_iff)
qed

lemma hex_char_props: "n < 16 \<Longrightarrow> hex_char n \<noteq> CHR '','' \<and> \<not> is_space (hex_char n)"
  by (auto simp: hex_char_def is_space_def char_eq_ord simp del: of_char_eq_iff)

lemma EncodeToString_props: "c \<in> set (EncodeToString b) \<Longrightarrow> c \<noteq> CHR '','' \<and> \<not> is_space c"
proof (induction b)
  case (Cons x b)
  have "ord x div 16 < 16"
    using ord_less_256 [of x] by linarith
  with Cons show ?case
    using hex_char_props [of "ord x div 16"] hex_char_props [of "ord x mod 16"] by (auto simp: EncodeToString_Cons)
qed simp

lemma FormatInt_props: "c \<in> set (FormatInt i) \<Longrightarrow> c \<noteq> CHR '','' \<and> \<not> is_space c"
  using FormatInt_chars [of c i] by (auto simp: is_digit_def is_space_def)

lemma parse_SignPayload:
  assumes "int64_range ts"
  shows "parse_parts (Split (SignPayload payload secret ts) CHR '','') 0 [] =
    Inr (ts, [EncodeToString (hmac_sha256 secret (signed_payload ts payload))])"
proof -
  let ?sig = "EncodeToString (hmac_sha256 secret (signed_payload ts payload))"
  have "FormatInt ts \<noteq> []" "?sig \<noteq> []"
    by (auto simp: FormatInt_def) (metis length_EncodeToString length_hmac_sha256 list.size(3) mult_eq_0_iff zero_neq_numeral)
  then have t: "TrimSpace (''t='' @ FormatInt ts) = ''t='' @ FormatInt ts" "TrimSpace (''v1='' @ ?sig) = ''v1='' @ ?sig"
    using FormatInt_props [OF last_in_set] EncodeToString_props [OF last_in_set]
    by (auto intro!: TrimSpace_id simp: is_space_def)
  have "SignPayload payload secret ts = (''t='' @ FormatInt ts) @ CHR '','' # (''v1='' @ ?sig)"
    by (simp add: SignPayload_def)
  moreover have "CHR '','' \<notin> set (''t='' @ FormatInt ts)" "CHR '','' \<notin> set (''v1='' @ ?sig)"
    using FormatInt_props EncodeToString_props by auto
  ultimately have "Split (SignPayload payload secret ts) CHR '','' = [''t='' @ FormatInt ts, ''v1='' @ ?sig]"
    by (metis Split_append Split_no_occ)
  then show ?thesis
    using t assms by simp
qed

text \<open>A payload signed by \<^verbatim>\<open>SignPayload\<close> for a non-zero timestamp is accepted exactly while the
  clock is within 300 seconds of it, on either side, and otherwise reported as expired.\<close>

theorem SignPayload_roundtrip:
  assumes "0 \<le> unix now" and "unix now < 2 ^ 62" and "0 < ts" and "ts < 2 ^ 62" and "secret \<noteq> []"
    and "unmarshal payload = Inr ev"
  shows "VerifyAndConstructEvent unmarshal payload (SignPayload payload secret ts) secret now =
    (if \<bar>unix now - ts\<bar> \<le> 300 then Inr ev else Inl (Sentinel ErrSignatureExpired))"
proof -
  have ts: "int64_range ts"
    using assms by (simp add: int64_range_def)
  have tol: "abs64 (int64 (unix now - ts)) \<le> 300 \<longleftrightarrow> \<bar>unix now - ts\<bar> \<le> 300"
    using int64_diff_small [OF ts assms(1,2)] abs64_diff [OF ts, of 300 "unix now"] assms by auto
  have "SignPayload payload secret ts \<noteq> []"
    by (simp add: SignPayload_def)
  with assms tol show ?thesis
    by (auto simp: VerifyAndConstructEvent_def verifyWithTolerance_def defaultTolerance_def
        parse_SignPayload [OF ts] any_match_iff hmac_Verify_def)
qed

definition demo_event :: Event where
  "demo_event = \<lparr>ev_ID = ''evt_1'', ev_Type = ''payment_intent.succeeded'', ev_Created = 1700000000,
     ev_APIVersion = [], ev_Data = ''{}''\<rparr>"

theorem SignPayload_roundtrip_witness:
  "VerifyAndConstructEvent (\<lambda>_. Inr demo_event) ''{}'' (SignPayload ''{}'' ''whsec'' 1700000000) ''whsec''
     (1700000299 * 1000000000) = Inr demo_event"
  using SignPayload_roundtrip [of "1700000299 * 1000000000" 1700000000 "''whsec''" "\<lambda>_. Inr demo_event" "''{}''" demo_event]
  by (simp add: unix_def)

theorem webhook_accepted_iff_witness:
  "VerifyAndConstructEvent (\<lambda>_. Inr demo_event) ''{}'' (SignPayload ''{}'' ''whsec'' (1700000000 - 2 ^ 63)) ''whsec''
     (1700000000 * 1000000000) = Inr demo_event"
proof -
  have "int64_range (1700000000 - 2 ^ 63)"
    by (simp add: int64_range_def)
  from parse_SignPayload [OF this, of "''{}''" "''whsec''"] show ?thesis
    using webhook_accepted_iff [of "1700000000 * 1000000000" "\<lambda>_. Inr demo_event" "''{}''"
        "SignPayload ''{}'' ''whsec'' (1700000000 - 2 ^ 63)" "''whsec''" demo_event]
    by (simp add: unix_def hmac_Verify_def) (simp add: SignPayload_def)
qed

section \<open>The circuit breaker\<close>

text \<open>What trips the breaker: with fewer than 20 requests, or with at most half of them failed, it
  stays closed; and a Stripe error counts as a failure exactly if it is not a card decline or an
  invalid request, an HTTP 429 always counting.\<close>

theorem breaker_failures:
  "(ReadyToTrip c \<longrightarrow> 20 \<le> Requests c \<and> Requests c < 2 * TotalFailures c) \<and>
   (\<not> IsSuccessful (Some (mapStripeError op err)) \<longleftrightarrow>
     (case err of
        StripeError typ status e \<Rightarrow> status = 429 \<or> typ \<notin> {''card_error'', ''invalid_request_error''}
      | OtherError e \<Rightarrow> True))"
  by (cases err) (auto simp: ReadyToTrip_def IsSuccessful_def mapStripeError_def Let_def)

theorem breaker_failures_witness:
  "20 \<le> Requests \<lparr>Requests = 20, TotalFailures = 11\<rparr> \<and>
    \<not> IsSuccessful (Some (mapStripeError ''create refund'' (StripeError ''card_error'' 429 (ErrNew ''slow down''))))"
  using breaker_failures [of "\<lparr>Requests = 20, TotalFailures = 11\<rparr>" "''create refund''"
      "StripeError ''card_error'' 429 (ErrNew ''slow down'')"]
  by (simp add: ReadyToTrip_def)

text \<open>The wrapped client fails fast and changes nothing else: given a breaker that either runs the
  call once and hands its outcome on, or refuses without running it, a wrapped call returns
  \<^verbatim>\<open>ErrCircuitOpen\<close> without touching the provider, or the provider's own state and result.\<close>

theorem breaker_wrap_passes:
  assumes "Execute fn s = fn s \<or> Execute fn s = (s, Inl (Sentinel ErrOpenState)) \<or>
      Execute fn s = (s, Inl (Sentinel ErrTooManyRequests))"
    and "\<forall>e. snd (fn s) = Inl e \<longrightarrow> \<not> errors_Is e ErrOpenState \<and> \<not> errors_Is e ErrTooManyRequests"
  shows "breaker_wrap Execute fn s = fn s \<or> breaker_wrap Execute fn s = (s, Inl (Sentinel ErrCircuitOpen))"
  using assms by (cases "fn s"; cases "snd (fn s)") (auto simp: breaker_wrap_def)

theorem breaker_wrap_passes_witness:
  "breaker_wrap (\<lambda>fn s. (s, Inl (Sentinel ErrOpenState))) (\<lambda>s. (Suc s, Inr True)) (0 :: nat) =
    (0, Inl (Sentinel ErrCircuitOpen))"
  using breaker_wrap_passes [of "\<lambda>fn s. (s, Inl (Sentinel ErrOpenState))" "\<lambda>s. (Suc s, Inr True)" 0]
  by (simp add: breaker_wrap_def)

end
