(* ===== verification/PaymentService.thy ===== *)
theory PaymentService
  imports MerchantRepo StripeClient
begin

text \<open>
  \<^verbatim>\<open>internal/service/payment_service.go\<close>: creation of a payment. The service is written over the
  ports it is constructed with, the transaction repository and the Stripe client, and over a state
  \<open>'s\<close> that both may change; \<open>clock\<close> reads the time. The locale \<open>payment_ports\<close> adds to the
  contract of the repository that a Stripe call does not touch the database; the interpretation
  \<open>pay\<close> takes the repository model and a client that acts on the rest of the state.
\<close>

section \<open>Inputs and results\<close>

record CreatePaymentInput =
  in_Merchant :: "Merchant option"
  in_OrderID :: string
  in_Amount :: int
  in_Currency :: string
  in_PaymentMethodTypes :: "string list"
  in_CustomerEmail :: string
  in_SuccessURL :: string
  in_CancelURL :: string
  in_Method :: string

record CryptoPayload =
  cy_ContractAddress :: string
  cy_OrderID :: string
  cy_Amount :: int
  cy_ChainID :: int

record CreatePaymentResult =
  res_OrderID :: string
  res_TransactionID :: string
  res_StripeSessionID :: string
  res_CheckoutURL :: string
  res_StripePaymentIntentID :: string
  res_ClientSecret :: string
  res_Status :: string
  res_CryptoPayload :: "CryptoPayload option"

record paymentService =
  ps_currency :: string
  ps_cryptoContract :: string
  ps_cryptoChainID :: int
  ps_lazyCheckout :: bool
  ps_publicBaseURL :: string
  ps_checkoutSecret :: string
  ps_checkoutTokenTTL :: int
  ps_defaultSuccessURL :: string
  ps_defaultCancelURL :: string

text \<open>\<open>NewPaymentService\<close> copies its options and defaults the token lifetime.\<close>

definition NewPaymentService :: "paymentService \<Rightarrow> paymentService" where
  "NewPaymentService opts =
     opts\<lparr>ps_checkoutTokenTTL := (if ps_checkoutTokenTTL opts = 0 then 24 * 3600 * 1000000000 else ps_checkoutTokenTTL opts)\<rparr>"

section \<open>Helpers\<close>

definition DeriveTransactionID :: "string \<Rightarrow> string \<Rightarrow> string" where
  "DeriveTransactionID merchantID orderID = EncodeToString (take 16 (sha256 (merchantID @ '':'' @ orderID)))"

definition lazyCheckoutURL :: "paymentService \<Rightarrow> string \<Rightarrow> string \<Rightarrow> int \<Rightarrow> string" where
  "lazyCheckoutURL ps merchantID orderID now =
     (let base = ps_publicBaseURL ps @ ''/pay/'' @ merchantID @ ''/'' @ orderID
      in if ps_checkoutSecret ps = [] then base
         else let token = token_Sign (ps_checkoutSecret ps) merchantID orderID (ps_checkoutTokenTTL ps) now
              in if token = [] then base else base @ ''?t='' @ token)"

definition crypto_payload :: "paymentService \<Rightarrow> string \<Rightarrow> int \<Rightarrow> CryptoPayload" where
  "crypto_payload ps orderID amount =
     \<lparr>cy_ContractAddress = ps_cryptoContract ps, cy_OrderID = orderID, cy_Amount = amount,
      cy_ChainID = ps_cryptoChainID ps\<rparr>"

definition reconstructResult :: "paymentService \<Rightarrow> string \<Rightarrow> Transaction \<Rightarrow> int \<Rightarrow> CreatePaymentResult" where
  "reconstructResult ps merchantID txn now =
     (let res = \<lparr>res_OrderID = t_OrderID txn, res_TransactionID = t_TransactionID txn,
                 res_StripeSessionID = t_StripeSessionID txn, res_CheckoutURL = [],
                 res_StripePaymentIntentID = t_StripePaymentIntentID txn, res_ClientSecret = [],
                 res_Status = ''accepted'', res_CryptoPayload = None\<rparr>
      in if HasPrefix (t_PaymentMethod txn) ''crypto''
         then res\<lparr>res_CryptoPayload := Some (crypto_payload ps (t_OrderID txn) (t_Amount txn))\<rparr>
         else if t_StripeSessionID txn \<noteq> []
         then res\<lparr>res_CheckoutURL := ''https://checkout.stripe.com/c/pay/'' @ t_StripeSessionID txn\<rparr>
         else res\<lparr>res_CheckoutURL := lazyCheckoutURL ps merchantID (t_OrderID txn) now\<rparr>)"

definition sameMaterialPayment :: "Transaction \<Rightarrow> int \<Rightarrow> string \<Rightarrow> string \<Rightarrow> bool" where
  "sameMaterialPayment existing amount currency pmethod =
     (if t_Amount existing \<noteq> amount then False
      else if \<not> EqualFold (t_Currency existing) currency then False
      else HasPrefix (t_PaymentMethod existing) ''crypto'' = HasPrefix pmethod ''crypto'')"

definition primaryMethod :: "CreatePaymentInput \<Rightarrow> string" where
  "primaryMethod inp =
     (if EqualFold (in_Method inp) ''crypto'' then ''crypto_eth''
      else if length (in_PaymentMethodTypes inp) > 0 then in_PaymentMethodTypes inp ! 0
      else ''card'')"

definition defaultIfEmpty :: "string list \<Rightarrow> string list \<Rightarrow> string list" where
  "defaultIfEmpty v d = (if length v = 0 then d else v)"

definition orFallback :: "string \<Rightarrow> string \<Rightarrow> string" where
  "orFallback v d = (if v \<noteq> [] then v else d)"

section \<open>Create\<close>

definition effective_currency :: "paymentService \<Rightarrow> CreatePaymentInput \<Rightarrow> string" where
  "effective_currency ps inp = (if in_Currency inp = [] then ps_currency ps else in_Currency inp)"

text \<open>The row written first, and the three flows that follow a successful insert.\<close>

definition payment_row :: "Merchant \<Rightarrow> CreatePaymentInput \<Rightarrow> string \<Rightarrow> Transaction" where
  "payment_row m inp currency =
     \<lparr>t_MerchantID = m_MerchantID m, t_TransactionID = DeriveTransactionID (m_MerchantID m) (in_OrderID inp),
      t_OrderID = in_OrderID inp, t_Amount = in_Amount inp, t_Currency = ToUpper currency,
      t_Status = TransactionStatusCreated, t_PaymentMethod = primaryMethod inp, t_StripeSessionID = [],
      t_StripePaymentIntentID = [], t_CreatedAt = zero_time, t_UpdatedAt = zero_time,
      t_ShardIndex = m_ShardIndex m\<rparr>"

definition checkout_request :: "paymentService \<Rightarrow> Merchant \<Rightarrow> CreatePaymentInput \<Rightarrow> string \<Rightarrow> CreateCheckoutRequest" where
  "checkout_request ps m inp currency =
     \<lparr>cc_Amount = in_Amount inp, cc_Currency = ToLower (ToUpper currency),
      cc_PaymentMethodTypes = defaultIfEmpty (in_PaymentMethodTypes inp) [''card''],
      cc_CustomerEmail = in_CustomerEmail inp,
      cc_SuccessURL = orFallback (in_SuccessURL inp) (ps_defaultSuccessURL ps),
      cc_CancelURL = orFallback (in_CancelURL inp) (ps_defaultCancelURL ps),
      cc_ClientReferenceID = in_OrderID inp,
      cc_Metadata = [(''order_id'', in_OrderID inp), (''merchant_id'', m_MerchantID m)]\<rparr>"

definition after_insert ::
  "'s StripeClient \<Rightarrow> 's TransactionRepository \<Rightarrow> ('s \<Rightarrow> int) \<Rightarrow> paymentService \<Rightarrow> Merchant \<Rightarrow> CreatePaymentInput \<Rightarrow>
    string \<Rightarrow> 's \<Rightarrow> 's \<times> CreatePaymentResult result" where
  "after_insert stripe repo clock ps m inp currency s =
     (let txnID = DeriveTransactionID (m_MerchantID m) (in_OrderID inp);
          res = \<lparr>res_OrderID = in_OrderID inp, res_TransactionID = txnID, res_StripeSessionID = [],
                 res_CheckoutURL = [], res_StripePaymentIntentID = [], res_ClientSecret = [],
                 res_Status = ''accepted'', res_CryptoPayload = None\<rparr>
      in if EqualFold (in_Method inp) ''crypto''
         then (s, Inr (res\<lparr>res_CryptoPayload := Some (crypto_payload ps (in_OrderID inp) (in_Amount inp))\<rparr>))
         else if ps_lazyCheckout ps
         then (s, Inr (res\<lparr>res_CheckoutURL := lazyCheckoutURL ps (m_MerchantID m) (in_OrderID inp) (clock s)\<rparr>))
         else (case st_CreateCheckoutSession stripe (checkout_request ps m inp currency) txnID s of
                 (s', Inl e) \<Rightarrow> (s', Inl (Wrapf ''stripe checkout'' e))
               | (s', Inr session) \<Rightarrow>
                   (case tr_UpdateCheckout repo (m_ShardIndex m) (m_MerchantID m) (in_OrderID inp)
                           (cs_ID session) (cs_PaymentIntentID session) s' of
                      (s2, Inl e) \<Rightarrow> (s2, Inl (Wrapf ''persist stripe session'' e))
                    | (s2, Inr _) \<Rightarrow>
                        (s2, Inr (res\<lparr>res_StripeSessionID := cs_ID session, res_CheckoutURL := cs_URL session,
                                      res_StripePaymentIntentID := cs_PaymentIntentID session,
                                      res_ClientSecret := cs_ClientSecret session\<rparr>)))))"

definition payment_Create ::
  "'s StripeClient \<Rightarrow> 's TransactionRepository \<Rightarrow> ('s \<Rightarrow> int) \<Rightarrow> paymentService \<Rightarrow> CreatePaymentInput \<Rightarrow> 's \<Rightarrow>
    's \<times> CreatePaymentResult result" where
  "payment_Create stripe repo clock ps inp s =
     (case in_Merchant inp of
        None \<Rightarrow> (s, Inl (Wrapf ''merchant required'' (Sentinel ErrInvalidRequest)))
      | Some m \<Rightarrow>
     (case ValidateOrderID (in_OrderID inp) of
        Inl e \<Rightarrow> (s, Inl (Wrapf ''order_id'' (Sentinel ErrInvalidRequest)))
      | Inr _ \<Rightarrow>
     (if in_Amount inp \<le> 0 then (s, Inl (Wrapf ''amount must be > 0'' (Sentinel ErrInvalidRequest)))
      else
        let currency = effective_currency ps inp;
            txnID = DeriveTransactionID (m_MerchantID m) (in_OrderID inp)
        in case tr_Insert repo (payment_row m inp currency) s of
             (s', row, Inl err) \<Rightarrow>
               if \<not> errors_Is err ErrDuplicateTransaction then (s', Inl (Wrapf ''insert order'' err))
               else (case tr_GetByTransactionID repo (m_ShardIndex m) (m_MerchantID m) txnID s' of
                       (s2, Inl gErr) \<Rightarrow> (s2, Inl (Wrapf ''idem lookup'' gErr))
                     | (s2, Inr existing) \<Rightarrow>
                         if \<not> sameMaterialPayment existing (in_Amount inp) (ToUpper currency) (primaryMethod inp)
                         then (s2, Inl (Wrapf ''amount/currency/method mismatch'' (Sentinel ErrTransactionConflict)))
                         else (s2, Inr (reconstructResult ps (m_MerchantID m) existing (clock s2))))
           | (s', row, Inr _) \<Rightarrow> after_insert stripe repo clock ps m inp currency s')))"

section \<open>Transaction ids\<close>

lemma length_DeriveTransactionID [simp]: "length (DeriveTransactionID m oid) = 32"
  by (simp add: DeriveTransactionID_def)

lemma decodeHex16_DeriveTransactionID:
  "decodeHex16 (DeriveTransactionID m oid) = Inr (take 16 (sha256 (m @ '':'' @ oid)))"
  using length_DeriveTransactionID [of m oid] by (simp add: decodeHex16_def DeriveTransactionID_def)

lemma ToLower_DeriveTransactionID [simp]: "ToLower (DeriveTransactionID m oid) = DeriveTransactionID m oid"
  by (simp add: DeriveTransactionID_def)

lemma payment_row_accepts:
  assumes "length (m_MerchantID m) \<le> 16" and "valid_order_id (in_OrderID inp)" and "0 \<le> in_Amount inp"
    and "in_Amount inp < 2 ^ 63" and "encodeCurrency cur = Inr c"
  shows "txn_accepts (payment_row m inp cur)"
proof -
  have "insert_checks (payment_row m inp cur) = Inr (take 16 (sha256 (m_MerchantID m @ '':'' @ in_OrderID inp)), c, 0)"
    using assms
    by (simp add: insert_checks_Inr payment_row_def decodeHex16_DeriveTransactionID encodeStatus_def encodeCurrency_def)
  with assms(4) show ?thesis
    by (simp add: txn_accepts_def payment_row_def)
qed

lemma sameMaterialPayment_iff:
  "sameMaterialPayment t amount currency pm \<longleftrightarrow> t_Amount t = amount \<and> EqualFold (t_Currency t) currency \<and>
     HasPrefix (t_PaymentMethod t) ''crypto'' = HasPrefix pm ''crypto''"
  by (simp add: sameMaterialPayment_def)

lemma reconstructResult_fields:
  "res_OrderID (reconstructResult ps mid t now) = t_OrderID t"
  "res_TransactionID (reconstructResult ps mid t now) = t_TransactionID t"
  "res_StripeSessionID (reconstructResult ps mid t now) = t_StripeSessionID t"
  "res_StripePaymentIntentID (reconstructResult ps mid t now) = t_StripePaymentIntentID t"
  "res_Status (reconstructResult ps mid t now) = ''accepted''"
  by (simp_all add: reconstructResult_def Let_def)

section \<open>What the service relies on\<close>

text \<open>A request the service and the repository accept.\<close>

definition payable :: "paymentService \<Rightarrow> Merchant \<Rightarrow> CreatePaymentInput \<Rightarrow> bool" where
  "payable ps m inp \<longleftrightarrow> in_Merchant inp = Some m \<and> length (m_MerchantID m) \<le> 16 \<and> valid_order_id (in_OrderID inp) \<and>
     0 < in_Amount inp \<and> in_Amount inp < 2 ^ 63 \<and> (\<exists>c. encodeCurrency (effective_currency ps inp) = Inr c)"

text \<open>The method column keeps the bucket (crypto or Stripe) the request asked for.\<close>

definition method_kept :: "CreatePaymentInput \<Rightarrow> bool" where
  "method_kept inp \<longleftrightarrow>
     HasPrefix (canon_method (primaryMethod inp)) ''crypto'' = HasPrefix (primaryMethod inp) ''crypto''"

text \<open>The ids a provider hands out fit the columns that store them.\<close>

definition session_fits :: "'s StripeClient \<Rightarrow> bool" where
  "session_fits c \<longleftrightarrow> (\<forall>req key u u' cs. st_CreateCheckoutSession c req key u = (u', Inr cs) \<longrightarrow>
     length (cs_ID cs) \<le> 96 \<and> length (cs_PaymentIntentID cs) \<le> 64)"

lemma session_fitsD:
  assumes "session_fits c" "st_CreateCheckoutSession c req key u = (u', Inr cs)"
  shows "length (cs_ID cs) \<le> 96" "length (cs_PaymentIntentID cs) \<le> 64"
  using assms unfolding session_fits_def by blast+

text \<open>The provider answers every request for a session.\<close>

definition provider_up :: "'s StripeClient \<Rightarrow> bool" where
  "provider_up c \<longleftrightarrow> (\<forall>req key u. \<exists>u' cs. st_CreateCheckoutSession c req key u = (u', Inr cs))"

locale payment_ports =
  transaction_repository invar view same known colocated accepts stored
    "tr_Insert repo" "tr_GetByTransactionID repo" "tr_GetByMerchantOrderID repo" "tr_UpdateStatus repo" "tr_UpdateCheckout repo"
  for invar :: "'s \<Rightarrow> bool" and view same known colocated accepts stored and repo :: "'s TransactionRepository" +
  fixes stripe :: "'s StripeClient"
  assumes checkout_frame: "invar s \<Longrightarrow> invar (fst (st_CreateCheckoutSession stripe req key s)) \<and>
      view (fst (st_CreateCheckoutSession stripe req key s)) = view s"
    and stored_fields: "t_MerchantID (stored t) = t_MerchantID t" "t_OrderID (stored t) = t_OrderID t"
      "t_Amount (stored t) = t_Amount t" "t_Status (stored t) = t_Status t" "t_Currency (stored t) = ToUpper (t_Currency t)"
      "t_PaymentMethod (stored t) = canon_method (t_PaymentMethod t)"
      "t_StripeSessionID (stored t) = t_StripeSessionID t" "t_StripePaymentIntentID (stored t) = t_StripePaymentIntentID t"
    and accepts_row: "payable ps m inp \<Longrightarrow> accepts (payment_row m inp (effective_currency ps inp))"
begin

lemma row_id:
  "t_TransactionID (payment_row m inp cur) = DeriveTransactionID (m_MerchantID m) (in_OrderID inp)"
  "t_ShardIndex (payment_row m inp cur) = m_ShardIndex m"
  by (simp_all add: payment_row_def)

lemma Create_checked:
  assumes "payable ps m inp"
  shows "payment_Create stripe' repo clock ps inp s =
    (case tr_Insert repo (payment_row m inp (effective_currency ps inp)) s of
       (s', row, Inl err) \<Rightarrow>
         if \<not> errors_Is err ErrDuplicateTransaction then (s', Inl (Wrapf ''insert order'' err))
         else (case tr_GetByTransactionID repo (m_ShardIndex m) (m_MerchantID m)
                  (DeriveTransactionID (m_MerchantID m) (in_OrderID inp)) s' of
                 (s2, Inl gErr) \<Rightarrow> (s2, Inl (Wrapf ''idem lookup'' gErr))
               | (s2, Inr existing) \<Rightarrow>
                   if \<not> sameMaterialPayment existing (in_Amount inp) (ToUpper (effective_currency ps inp)) (primaryMethod inp)
                   then (s2, Inl (Wrapf ''amount/currency/method mismatch'' (Sentinel ErrTransactionConflict)))
                   else (s2, Inr (reconstructResult ps (m_MerchantID m) existing (clock s2))))
     | (s', row, Inr _) \<Rightarrow> after_insert stripe' repo clock ps m inp (effective_currency ps inp) s')"
  using assms
  by (simp add: payment_Create_def payable_def ValidateOrderID_valid Let_def)

text \<open>A request whose id is taken: the provider is not called and nothing is written.\<close>

lemma Create_taken:
  assumes inv: "invar s" and pay: "payable ps m inp" and known: "known (m_ShardIndex m)"
    and v: "view s (m_ShardIndex m) (DeriveTransactionID (m_MerchantID m) (in_OrderID inp)) = Some t"
    and mer: "same (t_MerchantID t) (m_MerchantID m)"
  shows "\<exists>s'. payment_Create stripe' repo clock ps inp s =
      (s', if sameMaterialPayment t (in_Amount inp) (ToUpper (effective_currency ps inp)) (primaryMethod inp)
           then Inr (reconstructResult ps (m_MerchantID m) t (clock s'))
           else Inl (Wrapf ''amount/currency/method mismatch'' (Sentinel ErrTransactionConflict))) \<and>
    invar s' \<and> view s' = view s"
proof -
  let ?row = "payment_row m inp (effective_currency ps inp)"
  obtain s1 t' where ins: "tr_Insert repo ?row s = (s1, t', Inl (Sentinel ErrDuplicateTransaction))"
    and inv1: "invar s1" and v1: "view s1 = view s"
    using insert_dup [OF inv accepts_row [OF pay]] known v by (auto simp: row_id)
  obtain s2 where "tr_GetByTransactionID repo (m_ShardIndex m) (m_MerchantID m)
      (DeriveTransactionID (m_MerchantID m) (in_OrderID inp)) s1 = (s2, Inr t)" "invar s2" "view s2 = view s1"
    using get_txn [where m = "m_MerchantID m",
        OF inv1 known decodeHex16_DeriveTransactionID [of "m_MerchantID m" "in_OrderID inp"]] v v1 mer
    by auto
  with ins v1 show ?thesis
    by (auto simp: Create_checked [OF pay])
qed

text \<open>A new request: what the database holds when the call has succeeded.\<close>

lemma Create_new:
  assumes inv: "invar s" and pay: "payable ps m inp" and known: "known (m_ShardIndex m)"
    and none: "view s (m_ShardIndex m) (DeriveTransactionID (m_MerchantID m) (in_OrderID inp)) = None"
    and res: "payment_Create stripe repo clock ps inp s = (s', Inr res)"
    and fits: "session_fits stripe"
  shows "invar s' \<and> res_OrderID res = in_OrderID inp \<and>
    res_TransactionID res = DeriveTransactionID (m_MerchantID m) (in_OrderID inp) \<and> res_Status res = ''accepted'' \<and>
    (\<exists>t. view s' (m_ShardIndex m) (DeriveTransactionID (m_MerchantID m) (in_OrderID inp)) = Some t \<and>
       t_MerchantID t = m_MerchantID m \<and> t_OrderID t = in_OrderID inp \<and> t_Amount t = in_Amount inp \<and>
       t_Currency t = ToUpper (effective_currency ps inp) \<and> t_PaymentMethod t = canon_method (primaryMethod inp) \<and>
       t_Status t = TransactionStatusCreated \<and> t_StripeSessionID t = res_StripeSessionID res \<and>
       t_StripePaymentIntentID t = res_StripePaymentIntentID res)"
proof -
  let ?row = "payment_row m inp (effective_currency ps inp)"
  let ?tid = "DeriveTransactionID (m_MerchantID m) (in_OrderID inp)"
  have acc: "accepts ?row" by (rule accepts_row [OF pay])
  obtain s1 now where ins: "tr_Insert repo ?row s = (s1, with_times now ?row, Inr ())" and inv1: "invar s1"
    and v1: "view s1 = (\<lambda>j tid. if colocated j (m_ShardIndex m) \<and> ToLower tid = ToLower ?tid
        then Some ((stored (with_times now ?row))\<lparr>t_ShardIndex := j\<rparr>) else view s j tid)"
    using insert_new [OF inv acc] known none by (auto simp: row_id)
  define t where "t = (stored (with_times now ?row))\<lparr>t_ShardIndex := m_ShardIndex m\<rparr>"
  have v: "view s1 (m_ShardIndex m) ?tid = Some t"
    by (simp add: v1 colocated_refl t_def)
  have f: "t_MerchantID t = m_MerchantID m \<and> t_OrderID t = in_OrderID inp \<and> t_Amount t = in_Amount inp \<and>
      t_Currency t = ToUpper (effective_currency ps inp) \<and> t_PaymentMethod t = canon_method (primaryMethod inp) \<and>
      t_Status t = TransactionStatusCreated \<and> t_StripeSessionID t = [] \<and> t_StripePaymentIntentID t = []"
    by (simp add: t_def stored_fields with_times_def payment_row_def)
  have after: "after_insert stripe repo clock ps m inp (effective_currency ps inp) s1 = (s', Inr res)"
    using res ins by (simp add: Create_checked [OF pay])
  show ?thesis
  proof (cases "EqualFold (in_Method inp) ''crypto'' \<or> ps_lazyCheckout ps")
    case True
    with after f v inv1 show ?thesis
      by (auto simp: after_insert_def Let_def split: if_splits)
  next
    case False
    obtain s2 cs where call: "st_CreateCheckoutSession stripe (checkout_request ps m inp (effective_currency ps inp)) ?tid s1 = (s2, Inr cs)"
      using after False by (auto simp: after_insert_def Let_def split: prod.splits sum.splits)
    have inv2: "invar s2" and v2: "view s2 = view s1"
      using checkout_frame [OF inv1, of "checkout_request ps m inp (effective_currency ps inp)" ?tid] call by auto
    obtain upd where upd: "tr_UpdateCheckout repo (m_ShardIndex m) (m_MerchantID m) (in_OrderID inp) (cs_ID cs)
        (cs_PaymentIntentID cs) s2 = (s', Inr ())" "invar s'"
      "view s' = (\<lambda>j tid. map_option (\<lambda>t. if colocated j (m_ShardIndex m) \<and> same (t_MerchantID t) (m_MerchantID m) \<and> same (t_OrderID t) (in_OrderID inp)
           then t\<lparr>t_StripeSessionID := (if cs_ID cs = [] then t_StripeSessionID t else cs_ID cs),
                  t_StripePaymentIntentID := (if cs_PaymentIntentID cs = [] then t_StripePaymentIntentID t else cs_PaymentIntentID cs),
                  t_UpdatedAt := upd\<rparr> else t) (view s2 j tid))"
      using update_checkout [OF inv2 known _ session_fitsD [OF fits call], of "in_OrderID inp" "m_MerchantID m"]
        pay after call False
      by (auto simp: after_insert_def Let_def payable_def split: if_splits)
    have vt: "view s' (m_ShardIndex m) ?tid = Some (t\<lparr>t_StripeSessionID := cs_ID cs, t_StripePaymentIntentID := cs_PaymentIntentID cs, t_UpdatedAt := upd\<rparr>)"
      using f same_refl [OF inv] by (auto simp: upd(3) v2 v colocated_refl)
    have "res_OrderID res = in_OrderID inp \<and> res_TransactionID res = ?tid \<and> res_Status res = ''accepted'' \<and>
        res_StripeSessionID res = cs_ID cs \<and> res_StripePaymentIntentID res = cs_PaymentIntentID cs"
      using after call upd(1) False by (auto simp: after_insert_def Let_def)
    then show ?thesis
      using f upd(2) by (simp add: vt)
  qed
qed

text \<open>A new request succeeds when the flow it takes needs no provider, or the provider answers.\<close>

lemma Create_succeeds:
  assumes inv: "invar s" and pay: "payable ps m inp" and known: "known (m_ShardIndex m)"
    and none: "view s (m_ShardIndex m) (DeriveTransactionID (m_MerchantID m) (in_OrderID inp)) = None"
    and fits: "session_fits stripe"
    and up: "EqualFold (in_Method inp) ''crypto'' \<or> ps_lazyCheckout ps \<or> provider_up stripe"
  shows "\<exists>s' res. payment_Create stripe repo clock ps inp s = (s', Inr res)"
proof -
  let ?row = "payment_row m inp (effective_currency ps inp)"
  let ?tid = "DeriveTransactionID (m_MerchantID m) (in_OrderID inp)"
  obtain s1 now where ins: "tr_Insert repo ?row s = (s1, with_times now ?row, Inr ())" and inv1: "invar s1"
    and v1: "view s1 = (\<lambda>j tid. if colocated j (m_ShardIndex m) \<and> ToLower tid = ToLower ?tid
        then Some ((stored (with_times now ?row))\<lparr>t_ShardIndex := j\<rparr>) else view s j tid)"
    using insert_new [OF inv accepts_row [OF pay]] known none by (auto simp: row_id)
  show ?thesis
  proof (cases "EqualFold (in_Method inp) ''crypto'' \<or> ps_lazyCheckout ps")
    case True
    with ins show ?thesis
      by (auto simp: Create_checked [OF pay] after_insert_def Let_def)
  next
    case False
    with up obtain s2 cs where
      call: "st_CreateCheckoutSession stripe (checkout_request ps m inp (effective_currency ps inp)) ?tid s1 = (s2, Inr cs)"
      unfolding provider_up_def by blast
    have inv2: "invar s2" and v2: "view s2 = view s1"
      using checkout_frame [OF inv1, of "checkout_request ps m inp (effective_currency ps inp)" ?tid] call by auto
    have at: "view s2 (m_ShardIndex m) ?tid = Some ((stored (with_times now ?row))\<lparr>t_ShardIndex := m_ShardIndex m\<rparr>)"
      by (simp add: v2 v1 colocated_refl)
    have "\<exists>tid t. view s2 (m_ShardIndex m) tid = Some t \<and> same (t_MerchantID t) (m_MerchantID m) \<and>
        same (t_OrderID t) (in_OrderID inp)"
      by (rule exI, rule exI, rule conjI [OF at])
        (simp add: stored_fields with_times_def payment_row_def same_refl [OF inv2])
    then obtain s' where upd: "tr_UpdateCheckout repo (m_ShardIndex m) (m_MerchantID m) (in_OrderID inp) (cs_ID cs)
        (cs_PaymentIntentID cs) s2 = (s', Inr ())"
      using update_checkout [OF inv2 known _ session_fitsD [OF fits call], of "in_OrderID inp" "m_MerchantID m"] pay
      unfolding payable_def by (elim conjE) (simp only: if_True, blast)
    show ?thesis
      using False by (simp add: Create_checked [OF pay] after_insert_def Let_def ins call upd)
  qed
qed

text \<open>The second of two identical requests returns what the first one wrote.\<close>

lemma Create_retry:
  assumes inv: "invar s" and pay: "payable ps m inp" and known: "known (m_ShardIndex m)"
    and none: "view s (m_ShardIndex m) (DeriveTransactionID (m_MerchantID m) (in_OrderID inp)) = None"
    and res: "payment_Create stripe repo clock ps inp s = (s1, Inr res)"
    and fits: "session_fits stripe"
    and kept: "method_kept inp"
  shows "\<exists>s2 res'. payment_Create stripe' repo clock' ps inp s1 = (s2, Inr res') \<and> view s2 = view s1 \<and>
    res_OrderID res' = res_OrderID res \<and> res_TransactionID res' = res_TransactionID res \<and>
    res_StripeSessionID res' = res_StripeSessionID res \<and>
    res_StripePaymentIntentID res' = res_StripePaymentIntentID res \<and> res_Status res' = res_Status res"
proof -
  obtain t where inv1: "invar s1" and r: "res_OrderID res = in_OrderID inp"
      "res_TransactionID res = DeriveTransactionID (m_MerchantID m) (in_OrderID inp)" "res_Status res = ''accepted''"
    and v: "view s1 (m_ShardIndex m) (DeriveTransactionID (m_MerchantID m) (in_OrderID inp)) = Some t"
    and f: "t_MerchantID t = m_MerchantID m" "t_OrderID t = in_OrderID inp" "t_Amount t = in_Amount inp"
      "t_Currency t = ToUpper (effective_currency ps inp)" "t_PaymentMethod t = canon_method (primaryMethod inp)"
      "t_StripeSessionID t = res_StripeSessionID res" "t_StripePaymentIntentID t = res_StripePaymentIntentID res"
    using Create_new [OF inv pay known none res fits] by (elim conjE exE) (rule that)
  have tid: "t_TransactionID t = DeriveTransactionID (m_MerchantID m) (in_OrderID inp)"
    using view_shape [OF v] by simp
  have "sameMaterialPayment t (in_Amount inp) (ToUpper (effective_currency ps inp)) (primaryMethod inp)"
    using f kept by (simp add: sameMaterialPayment_def method_kept_def)
  moreover have "same (t_MerchantID t) (m_MerchantID m)"
    using same_refl [OF inv1] f(1) by simp
  ultimately obtain s2 where again: "payment_Create stripe' repo clock' ps inp s1 =
      (s2, Inr (reconstructResult ps (m_MerchantID m) t (clock' s2)))" "view s2 = view s1"
    using Create_taken [OF inv1 pay known v, of stripe' clock'] by auto
  show ?thesis
    by (rule exI [of _ s2], rule exI, rule conjI [OF again(1) conjI [OF again(2)]])
      (simp add: reconstructResult_fields f r tid)
qed

text \<open>A different merchant holds the id: the request fails, nothing is written.\<close>

lemma Create_foreign:
  assumes inv: "invar s" and pay: "payable ps m inp" and known: "known (m_ShardIndex m)"
    and v: "view s (m_ShardIndex m) (DeriveTransactionID (m_MerchantID m) (in_OrderID inp)) = Some t"
    and mer: "\<not> same (t_MerchantID t) (m_MerchantID m)"
  shows "\<exists>s'. payment_Create stripe' repo clock ps inp s = (s', Inl (Wrapf ''idem lookup'' (Sentinel ErrNotFound))) \<and>
    view s' = view s"
proof -
  let ?row = "payment_row m inp (effective_currency ps inp)"
  obtain s1 t' where ins: "tr_Insert repo ?row s = (s1, t', Inl (Sentinel ErrDuplicateTransaction))"
    and inv1: "invar s1" and v1: "view s1 = view s"
    using insert_dup [OF inv accepts_row [OF pay]] known v by (auto simp: row_id)
  have "view s1 (m_ShardIndex m) (DeriveTransactionID (m_MerchantID m) (in_OrderID inp)) = Some t"
    using v v1 by simp
  then obtain s2 where get: "tr_GetByTransactionID repo (m_ShardIndex m) (m_MerchantID m)
      (DeriveTransactionID (m_MerchantID m) (in_OrderID inp)) s1 = (s2, Inl (Sentinel ErrNotFound))" "view s2 = view s1"
    using get_txn [where m = "m_MerchantID m",
        OF inv1 known decodeHex16_DeriveTransactionID [of "m_MerchantID m" "in_OrderID inp"]] mer
    by (simp del: ex_simps) (elim exE conjE, rule that)
  show ?thesis
    by (rule exI [of _ s2]) (simp add: Create_checked [OF pay] ins get v1)
qed

end

section \<open>The ports of the running program\<close>

text \<open>A Stripe client sees the part of the state the repository does not own.\<close>

definition lift_op :: "('x \<Rightarrow> 'x \<times> 'a) \<Rightarrow> 'x txn_store_scheme \<Rightarrow> 'x txn_store_scheme \<times> 'a" where
  "lift_op f s = (case f (txn_store.more s) of (x, res) \<Rightarrow> (txn_store.more_update (\<lambda>_. x) s, res))"

definition lift_stripe :: "'x StripeClient \<Rightarrow> 'x txn_store_scheme StripeClient" where
  "lift_stripe c = \<lparr>
     st_CreateCheckoutSession = (\<lambda>req key. lift_op (st_CreateCheckoutSession c req key)),
     st_CreatePaymentIntent = (\<lambda>req key. lift_op (st_CreatePaymentIntent c req key)),
     st_GetPaymentIntent = (\<lambda>x. lift_op (st_GetPaymentIntent c x)),
     st_GetCheckoutSession = (\<lambda>x. lift_op (st_GetCheckoutSession c x)),
     st_CreateRefund = (\<lambda>req key. lift_op (st_CreateRefund c req key)),
     st_VerifyWebhookSignature = (\<lambda>p h k s. st_VerifyWebhookSignature c p h k (txn_store.more s))\<rparr>"

lemma lift_op_tables [simp]: "tables (fst (lift_op f s)) = tables s"
  by (simp add: lift_op_def split: prod.split)

lemma repo_good_tables: "tables s' = tables s \<Longrightarrow> repo_good env r s' = repo_good env r s"
  unfolding repo_good_def by (drule txn_inv_tables ) simp

interpretation pay: payment_ports "repo_good env r" "txn_view r" "env_coll env" "router_known r"
  "router_colocated r" txn_accepts "stored_txn env" "NewTransactionRepository env r" "lift_stripe client"
  for env :: db_env and r :: "nat multiShardRouter" and client :: "'x StripeClient"
proof (intro payment_ports.intro payment_ports_axioms.intro)
  show "transaction_repository (repo_good env r) (txn_view r) (env_coll env) (router_known r) (router_colocated r)
      txn_accepts (stored_txn env) (tr_Insert (NewTransactionRepository env r))
      (tr_GetByTransactionID (NewTransactionRepository env r)) (tr_GetByMerchantOrderID (NewTransactionRepository env r))
      (tr_UpdateStatus (NewTransactionRepository env r))
      (tr_UpdateCheckout (NewTransactionRepository env r :: 'x txn_store_scheme TransactionRepository))"
    using txr.transaction_repository_axioms by simp
  show "repo_good env r (fst (st_CreateCheckoutSession (lift_stripe client) req key s)) \<and>
      txn_view r (fst (st_CreateCheckoutSession (lift_stripe client) req key s)) = txn_view r s"
    if "repo_good env r s" for s :: "'x txn_store_scheme" and req key
    using that repo_good_tables [of "fst (lift_op (st_CreateCheckoutSession client req key) s)" s]
      txn_view_tables [of "fst (lift_op (st_CreateCheckoutSession client req key) s)" s]
    by (simp add: lift_stripe_def)
  show "txn_accepts (payment_row m inp (effective_currency ps inp))" if "payable ps m inp" for ps m inp
    using that by (auto simp: payable_def intro: payment_row_accepts)
qed (simp_all add: stored_txn_def)

section \<open>Properties\<close>


definition demo_ps :: paymentService where
  "demo_ps = NewPaymentService \<lparr>ps_currency = ''USD'', ps_cryptoContract = ''0xabc'', ps_cryptoChainID = 1,
     ps_lazyCheckout = False, ps_publicBaseURL = ''https://pay.test'', ps_checkoutSecret = ''k'',
     ps_checkoutTokenTTL = 0, ps_defaultSuccessURL = ''https://ok'', ps_defaultCancelURL = ''https://no''\<rparr>"

definition demo_payer :: "string \<Rightarrow> Merchant" where
  "demo_payer mid = (demo_merchant mid)\<lparr>m_ShardIndex := 3\<rparr>"

definition demo_pay :: "string \<Rightarrow> string \<Rightarrow> string list \<Rightarrow> CreatePaymentInput" where
  "demo_pay mid oid pmt = \<lparr>in_Merchant = Some (demo_payer mid), in_OrderID = oid, in_Amount = 1500, in_Currency = ''usd'',
     in_PaymentMethodTypes = pmt, in_CustomerEmail = [], in_SuccessURL = [], in_CancelURL = [], in_Method = []\<rparr>"

definition demo_stripe :: "unit StripeClient" where
  "demo_stripe = NewFake (\<lambda>n u. (u, replicate n (CHR ''x''))) (\<lambda>p. Inl (ErrNew [])) (\<lambda>u. 0)"

lemma demo_payable:
  assumes "length mid \<le> 16" and "valid_order_id oid"
  shows "payable demo_ps (demo_payer mid) (demo_pay mid oid pmt)"
  using assms by (simp add: payable_def demo_pay_def demo_payer_def demo_merchant_def effective_currency_def
      encodeCurrency_def demo_upper currencyToCode_def)

lemma demo_stripe_up: "session_fits (lift_stripe demo_stripe)" "provider_up (lift_stripe demo_stripe)"
  by (auto simp: session_fits_def provider_up_def lift_stripe_def lift_op_def demo_stripe_def NewFake_def randHex_def)

lemma demo_payer_known: "router_known demo_router (m_ShardIndex (demo_payer mid))"
  by (simp add: demo_known demo_payer_def)

lemma demo_method_card: "method_kept (demo_pay mid oid [])"
  by (simp add: method_kept_def primaryMethod_def demo_pay_def) code_simp


text \<open>C5. A request that names an existing order of the merchant never calls the provider and never changes
  a row: it is answered from the stored row if amount, currency and bucket (crypto or Stripe) agree with it,
  and refused with \<open>ErrTransactionConflict\<close> otherwise.\<close>

theorem payment_create_existing:
  assumes "repo_good env r s" and "payable ps m inp" and "router_known r (m_ShardIndex m)"
    and "txn_view r s (m_ShardIndex m) (DeriveTransactionID (m_MerchantID m) (in_OrderID inp)) = Some t"
    and "env_coll env (t_MerchantID t) (m_MerchantID m)"
  shows "\<exists>s'. payment_Create client (NewTransactionRepository env r) clock ps inp s =
      (s', if t_Amount t = in_Amount inp \<and> EqualFold (t_Currency t) (ToUpper (effective_currency ps inp)) \<and>
              HasPrefix (t_PaymentMethod t) ''crypto'' = HasPrefix (primaryMethod inp) ''crypto''
           then Inr (reconstructResult ps (m_MerchantID m) t (clock s'))
           else Inl (Wrapf ''amount/currency/method mismatch'' (Sentinel ErrTransactionConflict))) \<and>
    txn_view r s' = txn_view r s"
  using pay.Create_taken [OF assms, of client clock]
  unfolding sameMaterialPayment_iff by blast


lemma demo_created:
  assumes "length mid \<le> 16" and "valid_order_id oid"
  obtains s1 res t where
    "payment_Create (lift_stripe demo_stripe) (NewTransactionRepository demo_env demo_router) (\<lambda>s. 0) demo_ps
      (demo_pay mid oid pmt) demo_store = (s1, Inr res)"
    and "repo_good demo_env demo_router s1"
    and "txn_view demo_router s1 3 (DeriveTransactionID mid oid) = Some t"
    and "t_MerchantID t = mid" and "t_Amount t = 1500"
proof -
  have p: "payable demo_ps (demo_payer mid) (demo_pay mid oid pmt)"
    by (rule demo_payable [OF assms])
  obtain s1 res where one: "payment_Create (lift_stripe demo_stripe) (NewTransactionRepository demo_env demo_router)
      (\<lambda>s. 0) demo_ps (demo_pay mid oid pmt) demo_store = (s1, Inr res)"
    using pay.Create_succeeds [OF demo_good p demo_payer_known demo_view_empty demo_stripe_up(1)] demo_stripe_up(2) by blast
  from pay.Create_new [OF demo_good p demo_payer_known demo_view_empty one demo_stripe_up(1)] one that
  show thesis
    by (auto simp: demo_payer_def demo_pay_def demo_merchant_def)
qed

theorem payment_create_existing_witness:
  "\<exists>s1 res s2 e.
    payment_Create (lift_stripe demo_stripe) (NewTransactionRepository demo_env demo_router) (\<lambda>s. 0) demo_ps
      (demo_pay ''M1'' ''o-1'' []) demo_store = (s1, Inr res) \<and>
    payment_Create (lift_stripe demo_stripe) (NewTransactionRepository demo_env demo_router) (\<lambda>s. 9) demo_ps
      ((demo_pay ''M1'' ''o-1'' [])\<lparr>in_Amount := 2000\<rparr>) s1 = (s2, Inl e) \<and> errors_Is e ErrTransactionConflict"
proof -
  let ?inp = "(demo_pay ''M1'' ''o-1'' [])\<lparr>in_Amount := 2000\<rparr>"
  obtain s1 res t where one: "payment_Create (lift_stripe demo_stripe) (NewTransactionRepository demo_env demo_router)
      (\<lambda>s. 0) demo_ps (demo_pay ''M1'' ''o-1'' []) demo_store = (s1, Inr res)"
    and good: "repo_good demo_env demo_router s1"
    and t: "txn_view demo_router s1 3 (DeriveTransactionID ''M1'' ''o-1'') = Some t" "t_MerchantID t = ''M1''" "t_Amount t = 1500"
    by (rule demo_created [OF _ demo_oid, of "''M1''" "[]"]) simp
  have p: "payable demo_ps (demo_payer ''M1'') ?inp"
    using demo_oid by (simp add: payable_def demo_pay_def demo_payer_def demo_merchant_def effective_currency_def
      encodeCurrency_def demo_upper currencyToCode_def)
  have f: "m_ShardIndex (demo_payer ''M1'') = 3" "m_MerchantID (demo_payer ''M1'') = ''M1''" "in_OrderID ?inp = ''o-1''"
    by (simp_all add: demo_payer_def demo_merchant_def demo_pay_def)
  have "env_coll demo_env (t_MerchantID t) (m_MerchantID (demo_payer ''M1''))"
    using good by (simp add: f t repo_good_def healthy_def)
  from payment_create_existing [OF good p demo_payer_known _ this, of "lift_stripe demo_stripe" "\<lambda>s. 9"] t f
  obtain s2 where "payment_Create (lift_stripe demo_stripe) (NewTransactionRepository demo_env demo_router) (\<lambda>s. 9)
      demo_ps ?inp s1 = (s2, Inl (Wrapf ''amount/currency/method mismatch'' (Sentinel ErrTransactionConflict)))"
    by auto
  with one show ?thesis by fastforce
qed

text \<open>A request without a merchant, with an order id that is not well formed, or with an amount that is
  not positive is refused with \<open>ErrInvalidRequest\<close> before any port is used: no row is written and the
  provider is not called, whatever the ports are.\<close>

theorem payment_create_invalid:
  assumes "in_Merchant inp = None \<or> \<not> valid_order_id (in_OrderID inp) \<or> in_Amount inp \<le> 0"
  shows "\<exists>e. payment_Create client repo clock ps inp s = (s, Inl e) \<and> errors_Is e ErrInvalidRequest"
  using assms
  by (cases rule: ValidateOrderID_cases [of "in_OrderID inp"]) (auto simp: payment_Create_def split: option.split)

theorem payment_create_invalid_witness:
  "\<exists>e. payment_Create (lift_stripe demo_stripe) (NewTransactionRepository demo_env demo_router) (\<lambda>s. 0) demo_ps
      (demo_pay ''M1'' ''no spaces'' []) demo_store = (demo_store, Inl e) \<and> errors_Is e ErrInvalidRequest"
  by (rule payment_create_invalid) (simp add: demo_pay_def valid_order_id_def order_char_def)

text \<open>The converse of the idempotency property: when the stored method column does not keep the bucket
  of the requested method (an unknown method with prefix \<open>crypto\<close>, or one written in upper case), the
  identical second request is refused with \<open>ErrTransactionConflict\<close>.\<close>

theorem payment_create_method_lost:
  assumes "repo_good env r s" and "payable ps m inp" and "router_known r (m_ShardIndex m)"
    and "txn_view r s (m_ShardIndex m) (DeriveTransactionID (m_MerchantID m) (in_OrderID inp)) = None"
    and "session_fits (lift_stripe client)"
    and "payment_Create (lift_stripe client) (NewTransactionRepository env r) clock ps inp s = (s1, Inr res)"
    and "\<not> method_kept inp"
  shows "\<exists>s2 e. payment_Create client' (NewTransactionRepository env r) clock' ps inp s1 = (s2, Inl e) \<and>
    errors_Is e ErrTransactionConflict"
proof -
  from pay.Create_new [OF assms(1-4,6,5)] obtain t where good: "repo_good env r s1"
    and v: "txn_view r s1 (m_ShardIndex m) (DeriveTransactionID (m_MerchantID m) (in_OrderID inp)) = Some t"
    and f: "t_MerchantID t = m_MerchantID m" "t_PaymentMethod t = canon_method (primaryMethod inp)"
    by (elim conjE exE)
  have "\<not> sameMaterialPayment t (in_Amount inp) (ToUpper (effective_currency ps inp)) (primaryMethod inp)"
    using assms(7) f by (simp add: sameMaterialPayment_iff method_kept_def)
  moreover have "env_coll env (t_MerchantID t) (m_MerchantID m)"
    using good f by (simp add: repo_good_def healthy_def)
  ultimately show ?thesis
    using pay.Create_taken [OF good assms(2,3) v, of client' clock'] by fastforce
qed

theorem payment_create_method_lost_witness:
  "\<exists>s1 res s2 e.
    payment_Create (lift_stripe demo_stripe) (NewTransactionRepository demo_env demo_router) (\<lambda>s. 0) demo_ps
      (demo_pay ''M1'' ''o-1'' [''crypto_xyz'']) demo_store = (s1, Inr res) \<and>
    payment_Create (lift_stripe demo_stripe) (NewTransactionRepository demo_env demo_router) (\<lambda>s. 0) demo_ps
      (demo_pay ''M1'' ''o-1'' [''crypto_xyz'']) s1 = (s2, Inl e) \<and> errors_Is e ErrTransactionConflict"
proof -
  obtain s1 res where one: "payment_Create (lift_stripe demo_stripe) (NewTransactionRepository demo_env demo_router)
      (\<lambda>s. 0) demo_ps (demo_pay ''M1'' ''o-1'' [''crypto_xyz'']) demo_store = (s1, Inr res)"
    by (rule demo_created [OF _ demo_oid, of "''M1''" "[''crypto_xyz'']"]) simp
  have "\<not> method_kept (demo_pay ''M1'' ''o-1'' [''crypto_xyz''])"
    by (simp add: method_kept_def primaryMethod_def demo_pay_def) code_simp
  from payment_create_method_lost [OF demo_good demo_payable [OF _ demo_oid] demo_payer_known demo_view_empty
      demo_stripe_up(1) one this, of "lift_stripe demo_stripe" "\<lambda>s. 0"] one
  show ?thesis by auto
qed

text \<open>C40. Transaction ids are derived from \<open>merchant:order\<close>, and both parts may contain a colon, so two
  merchants on one database can share an id: once the merchant \<open>m1\<close> has created its order, a valid request of
  the merchant \<open>m2\<close> for its own, different order fails and writes nothing, whatever the amounts are.\<close>

theorem payment_create_colon_block:
  assumes "repo_good env r s" and "payable ps m1 inp1" and "payable ps m2 inp2"
    and "router_known r (m_ShardIndex m1)" and "m_ShardIndex m2 = m_ShardIndex m1"
    and "txn_view r s (m_ShardIndex m1) (DeriveTransactionID (m_MerchantID m1) (in_OrderID inp1)) = None"
    and "session_fits (lift_stripe client)"
    and "payment_Create (lift_stripe client) (NewTransactionRepository env r) clock ps inp1 s = (s1, Inr res)"
    and "m_MerchantID m1 = m_MerchantID m2 @ '':'' @ x" and "in_OrderID inp2 = x @ '':'' @ in_OrderID inp1"
    and "\<not> env_coll env (m_MerchantID m1) (m_MerchantID m2)"
  shows "\<exists>s2 e. payment_Create client' (NewTransactionRepository env r) clock' ps inp2 s1 = (s2, Inl e) \<and>
    txn_view r s2 = txn_view r s1"
proof -
  have tid: "DeriveTransactionID (m_MerchantID m2) (in_OrderID inp2) = DeriveTransactionID (m_MerchantID m1) (in_OrderID inp1)"
    using assms(9,10) by (simp add: DeriveTransactionID_def)
  from pay.Create_new [OF assms(1,2,4,6,8,7)] obtain t where good: "repo_good env r s1"
    and v: "txn_view r s1 (m_ShardIndex m1) (DeriveTransactionID (m_MerchantID m1) (in_OrderID inp1)) = Some t"
    and f: "t_MerchantID t = m_MerchantID m1"
    by (elim conjE exE)
  have "\<not> env_coll env (t_MerchantID t) (m_MerchantID m2)"
    using assms(11) f by simp
  then show ?thesis
    using pay.Create_foreign [OF good assms(3), of t client' clock'] assms(4,5) v tid by fastforce
qed

theorem payment_create_colon_block_witness:
  "\<exists>s1 res s2 e.
    payment_Create (lift_stripe demo_stripe) (NewTransactionRepository demo_env demo_router) (\<lambda>s. 0) demo_ps
      (demo_pay ''a:b'' ''c'' []) demo_store = (s1, Inr res) \<and>
    payment_Create (lift_stripe demo_stripe) (NewTransactionRepository demo_env demo_router) (\<lambda>s. 0) demo_ps
      (demo_pay ''a'' ''b:c'' []) s1 = (s2, Inl e)"
proof -
  have oid: "valid_order_id ''c''" "valid_order_id ''b:c''"
    by (simp_all add: valid_order_id_def order_char_def)
  obtain s1 res where one: "payment_Create (lift_stripe demo_stripe) (NewTransactionRepository demo_env demo_router)
      (\<lambda>s. 0) demo_ps (demo_pay ''a:b'' ''c'' []) demo_store = (s1, Inr res)"
    by (rule demo_created [OF _ oid(1), of "''a:b''" "[]"]) simp
  have coll: "\<not> env_coll demo_env ''a:b'' ''a''"
    by (simp add: demo_env_def) code_simp
  show ?thesis
    using payment_create_colon_block [OF demo_good demo_payable [OF _ oid(1), of "''a:b''" "[]"]
        demo_payable [OF _ oid(2), of "''a''" "[]"] demo_payer_known _ demo_view_empty demo_stripe_up(1) one, of "''b''"
        "lift_stripe demo_stripe" "\<lambda>s. 0"] one coll
    by (simp add: demo_payer_def demo_merchant_def demo_pay_def) blast
qed

end
