(* ===== verification/Redis.thy ===== *)
theory Redis
  imports Complex_Main MerchantRepo
begin

text \<open>
  \<^verbatim>\<open>internal/cache/lock.go\<close>, \<^verbatim>\<open>ratelimiter.go\<close> and \<^verbatim>\<open>token_bucket.go\<close>: the distributed lock, the
  sliding-window limiter and the token bucket. The Lua scripts are written out over a keyspace
  with expiry times in milliseconds. An environment gives the clock, the random lock tokens and
  the faults of the connection; a command whose reply is lost may or may not have been applied.
  Lua numbers are doubles: \<open>dbl\<close> is the rounding of an integer to a double, which the limiter
  meets because nanosecond time stamps need more than 53 bits.
\<close>

section \<open>Keyspace\<close>

datatype redis_obj = RString string | RZSet "(string \<times> int) list" | RHash "(string \<times> rat) list"

type_synonym redis_db = "string \<Rightarrow> (redis_obj \<times> int option) option"

record redis_env =
  rd_fault :: "nat \<Rightarrow> (bool \<times> goerr) option"
  rd_clock :: "nat \<Rightarrow> int"
  rd_uuid :: "nat \<Rightarrow> string"

record redis_store = merchant_store +
  rd_db :: redis_db
  rd_calls :: nat

definition millis :: "int \<Rightarrow> int" where
  "millis now = now div 1000000"

definition live :: "int \<Rightarrow> redis_db \<Rightarrow> string \<Rightarrow> redis_obj option" where
  "live now db k =
     (case db k of
        None \<Rightarrow> None
      | Some (v, None) \<Rightarrow> Some v
      | Some (v, Some w) \<Rightarrow> if millis now \<le> w then Some v else None)"

definition wrong_type :: goerr where
  "wrong_type = ErrNew ''WRONGTYPE Operation against a key holding the wrong kind of value''"

text \<open>One round trip: a fault is an error of the client; its first component tells whether the server ran the command.\<close>

definition redis_do ::
  "redis_env \<Rightarrow> (int \<Rightarrow> redis_db \<Rightarrow> redis_db \<times> 'r result) \<Rightarrow> 'a redis_store_scheme \<Rightarrow> 'a redis_store_scheme \<times> 'r result" where
  "redis_do env cmd s =
     (let n = rd_calls s; s' = s\<lparr>rd_calls := Suc n\<rparr> in
      case cmd (rd_clock env n) (rd_db s) of (db, res) \<Rightarrow>
        (case rd_fault env n of
           None \<Rightarrow> (s'\<lparr>rd_db := db\<rparr>, res)
         | Some (applied, e) \<Rightarrow> (if applied then s'\<lparr>rd_db := db\<rparr> else s', Inl e)))"

text \<open>\<^verbatim>\<open>SET key value NX\<close> with a positive lifetime, in whole milliseconds.\<close>

definition cmd_SetNX :: "string \<Rightarrow> string \<Rightarrow> int \<Rightarrow> int \<Rightarrow> redis_db \<Rightarrow> redis_db \<times> bool result" where
  "cmd_SetNX k v ttl now db =
     (if live now db k = None
      then (db(k \<mapsto> (RString v, if ttl = 0 then None else Some (millis now + max 1 (ttl div 1000000)))), Inr True)
      else (db, Inr False))"

definition SetNX ::
  "redis_env \<Rightarrow> string \<Rightarrow> string \<Rightarrow> int \<Rightarrow> 'a redis_store_scheme \<Rightarrow> 'a redis_store_scheme \<times> bool result" where
  "SetNX env k v ttl = redis_do env (cmd_SetNX k v ttl)"

section \<open>lock.go\<close>

record redisLock =
  lk_key :: string
  lk_token :: string

definition Acquire ::
  "redis_env \<Rightarrow> string \<Rightarrow> int \<Rightarrow> 'a redis_store_scheme \<Rightarrow> 'a redis_store_scheme \<times> redisLock result" where
  "Acquire env key ttl s =
     (let token = rd_uuid env (rd_calls s) in
      case SetNX env (''lock:'' @ key) token ttl s of
        (s', Inl e) \<Rightarrow> (s', Inl (Wrapf ''acquire lock'' e))
      | (s', Inr ok) \<Rightarrow>
          (s', if \<not> ok then Inl (Sentinel ErrLockNotAcquired)
               else Inr \<lparr>lk_key = ''lock:'' @ key, lk_token = token\<rparr>))"

definition releaseScript :: "string \<Rightarrow> string \<Rightarrow> int \<Rightarrow> redis_db \<Rightarrow> redis_db \<times> int result" where
  "releaseScript key token now db =
     (case live now db key of
        None \<Rightarrow> (db, Inr 0)
      | Some (RString v) \<Rightarrow> if v = token then (db(key := None), Inr 1) else (db, Inr 0)
      | Some _ \<Rightarrow> (db, Inl wrong_type))"

definition Release ::
  "redis_env \<Rightarrow> redisLock option \<Rightarrow> 'a redis_store_scheme \<Rightarrow> 'a redis_store_scheme \<times> unit result" where
  "Release env lk s =
     (case lk of
        None \<Rightarrow> (s, Inr ())
      | Some l \<Rightarrow>
          (case redis_do env (releaseScript (lk_key l) (lk_token l)) s of
             (s', Inl e) \<Rightarrow> (s', if \<not> errors_Is e RedisNil then Inl (Wrapf ''release lock'' e) else Inr ())
           | (s', Inr _) \<Rightarrow> (s', Inr ())))"

section \<open>ratelimiter.go\<close>

fun bits :: "nat \<Rightarrow> nat" where
  "bits n = (if n = 0 then 0 else Suc (bits (n div 2)))"

declare bits.simps [simp del]

text \<open>Rounding to a 53-bit significand, ties to even.\<close>

definition round_even :: "nat \<Rightarrow> nat \<Rightarrow> nat" where
  "round_even e a =
     (let q = a div 2 ^ e; r = a mod 2 ^ e; h = 2 ^ (e - 1)
      in (if r < h \<or> (r = h \<and> even q) then q else q + 1) * 2 ^ e)"

definition dbl :: "int \<Rightarrow> int" where
  "dbl n = (let a = nat \<bar>n\<bar>; b = bits a in if b \<le> 53 then n else sgn n * int (round_even (b - 53) a))"

definition zset_of :: "int \<Rightarrow> redis_db \<Rightarrow> string \<Rightarrow> (string \<times> int) list result" where
  "zset_of now db k =
     (case live now db k of None \<Rightarrow> Inr [] | Some (RZSet zs) \<Rightarrow> Inr zs | Some _ \<Rightarrow> Inl wrong_type)"

definition zremrange :: "int \<Rightarrow> int \<Rightarrow> (string \<times> int) list \<Rightarrow> (string \<times> int) list" where
  "zremrange lo hi zs = filter (\<lambda>(m, sc). \<not> (lo \<le> sc \<and> sc \<le> hi)) zs"

text \<open>An empty sorted set is no key; a trimmed one keeps its expiry.\<close>

definition set_trimmed :: "string \<Rightarrow> (string \<times> int) list \<Rightarrow> redis_db \<Rightarrow> redis_db" where
  "set_trimmed k zs db = db(k := if zs = [] then None else map_option (\<lambda>(_, w). (RZSet zs, w)) (db k))"

definition slidingWindowScript ::
  "string \<Rightarrow> int \<Rightarrow> int \<Rightarrow> int \<Rightarrow> string \<Rightarrow> int \<Rightarrow> redis_db \<Rightarrow> redis_db \<times> (int \<times> int) result" where
  "slidingWindowScript key now windowNs limit member srv db =
     (case zset_of srv db key of
        Inl e \<Rightarrow> (db, Inl e)
      | Inr zs \<Rightarrow>
          (let zs' = zremrange 0 (dbl (dbl now - dbl windowNs)) zs; count = int (length zs')
           in if count \<ge> dbl limit then (set_trimmed key zs' db, Inr (0, dbl limit - count))
              else (db(key \<mapsto> (RZSet (AList.update member (dbl now) zs'),
                                Some (millis srv - (- dbl windowNs) div 1000000))),
                    Inr (1, dbl limit - (count + 1)))))"

definition rate_Allow ::
  "redis_env \<Rightarrow> string \<Rightarrow> int \<Rightarrow> int \<Rightarrow> 'a redis_store_scheme \<Rightarrow> 'a redis_store_scheme \<times> (bool \<times> int) result" where
  "rate_Allow env key limit window s =
     (if limit \<le> 0 then (s, Inr (False, 0))
      else let now = rd_clock env (rd_calls s) in
        case redis_do env (slidingWindowScript (''rate:'' @ key) now window limit (FormatInt now)) s of
          (s', Inl e) \<Rightarrow> (s', Inl (Wrapf ''ratelimit eval'' e))
        | (s', Inr (allowed, remaining)) \<Rightarrow> (s', Inr (allowed = 1, if remaining < 0 then 0 else remaining)))"

section \<open>token\_bucket.go\<close>

text \<open>\<open>fl\<close> rounds the result of one floating-point operation.\<close>

record redisTokenBucket =
  tb_key :: string
  tb_capacity :: int
  tb_refill :: rat

definition NewTokenBucket :: "string \<Rightarrow> int \<Rightarrow> rat \<Rightarrow> redisTokenBucket" where
  "NewTokenBucket key capacity ratePerSec = \<lparr>tb_key = ''tb:'' @ key, tb_capacity = capacity, tb_refill = ratePerSec\<rparr>"

definition hash_of :: "int \<Rightarrow> redis_db \<Rightarrow> string \<Rightarrow> (string \<times> rat) list result" where
  "hash_of now db k =
     (case live now db k of None \<Rightarrow> Inr [] | Some (RHash fs) \<Rightarrow> Inr fs | Some _ \<Rightarrow> Inl wrong_type)"

definition refilled :: "(rat \<Rightarrow> rat) \<Rightarrow> rat \<Rightarrow> rat \<Rightarrow> rat \<Rightarrow> rat \<Rightarrow> rat \<Rightarrow> rat" where
  "refilled fl capacity refill now_ms tokens ts =
     min capacity (fl (tokens + fl (fl (max 0 (now_ms - ts) / 1000) * refill)))"

definition tbScript ::
  "(rat \<Rightarrow> rat) \<Rightarrow> string \<Rightarrow> rat \<Rightarrow> rat \<Rightarrow> rat \<Rightarrow> int \<Rightarrow> redis_db \<Rightarrow> redis_db \<times> (int \<times> int) result" where
  "tbScript fl key capacity refill now_ms srv db =
     (case hash_of srv db key of
        Inl e \<Rightarrow> (db, Inl e)
      | Inr fs \<Rightarrow>
          (let tokens0 = (case map_of fs ''tokens'' of None \<Rightarrow> capacity | Some t \<Rightarrow> t);
               ts = (case map_of fs ''ts'' of None \<Rightarrow> now_ms | Some t \<Rightarrow> t);
               tokens = refilled fl capacity refill now_ms tokens0 ts;
               (tokens', allowed, wait_ms) =
                 (if tokens \<ge> 1 then (fl (tokens - 1), 1, 0)
                  else (tokens, 0, \<lceil>fl (fl (fl (1 - tokens) / refill) * 1000)\<rceil>));
               fs' = AList.update ''ts'' now_ms (AList.update ''tokens'' tokens' fs)
           in if refill = 0
              then (db(key \<mapsto> (RHash fs', case db key of Some (_, w) \<Rightarrow> (if live srv db key = None then None else w) | None \<Rightarrow> None)),
                    Inl (ErrNew ''ERR value is not an integer or out of range''))
              else (db(key \<mapsto> (RHash fs', Some (millis srv + \<lceil>fl (fl (capacity / refill) * 1000)\<rceil> + 5000))),
                    Inr (allowed, wait_ms))))"

definition tb_Allow ::
  "(rat \<Rightarrow> rat) \<Rightarrow> redis_env \<Rightarrow> redisTokenBucket \<Rightarrow> 'a redis_store_scheme \<Rightarrow> 'a redis_store_scheme \<times> unit result" where
  "tb_Allow fl env b s =
     (case redis_do env (tbScript fl (tb_key b) (of_int (tb_capacity b)) (tb_refill b)
             (of_int (millis (rd_clock env (rd_calls s))))) s of
        (s', Inl e) \<Rightarrow> (s', Inl (Wrapf ''token bucket eval'' e))
      | (s', Inr (allowed, _)) \<Rightarrow> (s', if allowed = 1 then Inr () else Inl (Sentinel ErrRateLimited)))"

section \<open>Everything the gateway does with Redis\<close>

datatype redis_op =
    OpAcquire string int
  | OpRelease "redisLock option"
  | OpDedup string int
  | OpRate string int int
  | OpBucket string int rat

fun redis_step :: "(rat \<Rightarrow> rat) \<Rightarrow> redis_env \<Rightarrow> redis_op \<Rightarrow> 'a redis_store_scheme \<Rightarrow> 'a redis_store_scheme" where
  "redis_step fl env (OpAcquire key ttl) s = fst (Acquire env key ttl s)"
| "redis_step fl env (OpRelease lk) s = fst (Release env lk s)"
| "redis_step fl env (OpDedup eid ttl) s = fst (SetNX env (''webhook:'' @ eid) ''1'' ttl s)"
| "redis_step fl env (OpRate key limit window) s = fst (rate_Allow env key limit window s)"
| "redis_step fl env (OpBucket key capacity rate) s = fst (tb_Allow fl env (NewTokenBucket key capacity rate) s)"

fun redis_run :: "(rat \<Rightarrow> rat) \<Rightarrow> redis_env \<Rightarrow> redis_op list \<Rightarrow> 'a redis_store_scheme \<Rightarrow> 'a redis_store_scheme" where
  "redis_run fl env [] s = s"
| "redis_run fl env (op # ops) s = redis_run fl env ops (redis_step fl env op s)"

lemma redis_do_calls [simp]: "rd_calls (fst (redis_do env cmd s)) = Suc (rd_calls s)"
  by (simp add: redis_do_def Let_def split: prod.split option.split)

lemma redis_do_keeps:
  "fst (cmd (rd_clock env (rd_calls s)) (rd_db s)) k = rd_db s k \<Longrightarrow> rd_db (fst (redis_do env cmd s)) k = rd_db s k"
  by (auto simp: redis_do_def Let_def split: prod.split option.split)

lemma redis_step_eqs:
  "fst (Acquire env key ttl s) = fst (redis_do env (cmd_SetNX (''lock:'' @ key) (rd_uuid env (rd_calls s)) ttl) s)"
  "fst (Release env (Some l) s) = fst (redis_do env (releaseScript (lk_key l) (lk_token l)) s)"
  "fst (rate_Allow env key' limit window s) = (if limit \<le> 0 then s else
     fst (redis_do env (slidingWindowScript (''rate:'' @ key') (rd_clock env (rd_calls s)) window limit
       (FormatInt (rd_clock env (rd_calls s)))) s))"
  "fst (tb_Allow fl env b s) = fst (redis_do env (tbScript fl (tb_key b) (of_int (tb_capacity b)) (tb_refill b)
     (of_int (millis (rd_clock env (rd_calls s))))) s)"
  by (simp_all add: Acquire_def SetNX_def Release_def rate_Allow_def tb_Allow_def Let_def split: prod.split sum.split)

lemma live_Some: "db k = Some (v, Some w) \<Longrightarrow> millis now \<le> w \<Longrightarrow> live now db k = Some v"
  by (simp add: live_def)

lemma cmd_other_keys:
  "k \<noteq> k' \<Longrightarrow> fst (cmd_SetNX k' v ttl now db) k = db k"
  "k \<noteq> k' \<Longrightarrow> fst (slidingWindowScript k' t window limit member now db) k = db k"
  "k \<noteq> k' \<Longrightarrow> fst (tbScript fl k' capacity refill now_ms now db) k = db k"
  "k \<noteq> k' \<Longrightarrow> fst (releaseScript k' token now db) k = db k"
  by (simp_all add: cmd_SetNX_def slidingWindowScript_def tbScript_def releaseScript_def set_trimmed_def Let_def
      split: sum.split option.split redis_obj.split prod.split)

lemma cmd_held_key:
  assumes "db k = Some (RString token, Some w)" and "millis now \<le> w"
  shows "fst (cmd_SetNX k v ttl now db) k = db k" and "v \<noteq> token \<Longrightarrow> fst (releaseScript k v now db) k = db k"
  using live_Some [of db k, OF assms] by (simp_all add: cmd_SetNX_def releaseScript_def)

text \<open>A live string key survives a step that does not release it.\<close>

lemma redis_step_held:
  assumes held: "rd_db s (''lock:'' @ key) = Some (RString token, Some w)"
    and now: "millis (rd_clock env (rd_calls s)) \<le> w"
    and free: "\<And>l. op = OpRelease (Some l) \<Longrightarrow> lk_key l = ''lock:'' @ key \<Longrightarrow> lk_token l \<noteq> token"
  shows "rd_db (redis_step fl env op s) (''lock:'' @ key) = rd_db s (''lock:'' @ key)"
proof (cases op)
  case (OpAcquire key' ttl)
  then show ?thesis
    using cmd_held_key(1) [of "rd_db s", OF held now] cmd_other_keys(1) [of "''lock:'' @ key" "''lock:'' @ key'"]
    by (cases "key' = key") (simp_all add: redis_step_eqs redis_do_keeps)
next
  case (OpRelease lk)
  then show ?thesis
    using cmd_held_key(2) [of "rd_db s", OF held now] cmd_other_keys(4) free
    by (cases lk; cases "lk_key (the lk) = ''lock:'' @ key")
      (auto simp: redis_step_eqs Release_def [of env None] intro!: redis_do_keeps)
next
  case (OpDedup eid ttl)
  then show ?thesis
    by (simp add: SetNX_def redis_do_keeps cmd_other_keys)
next
  case (OpRate key' limit window)
  then show ?thesis
    by (simp add: redis_step_eqs redis_do_keeps cmd_other_keys)
next
  case (OpBucket key' capacity rate)
  then show ?thesis
    by (simp add: redis_step_eqs redis_do_keeps cmd_other_keys NewTokenBucket_def)
qed

lemma redis_step_calls_le: "rd_calls s \<le> rd_calls (redis_step fl env op s)"
proof (cases op)
  case (OpRelease lk)
  then show ?thesis
    by (cases lk) (simp_all add: redis_step_eqs Release_def [of env None])
qed (simp_all add: redis_step_eqs SetNX_def)

lemma redis_run_calls_le: "rd_calls s \<le> rd_calls (redis_run fl env ops s)"
proof (induction ops arbitrary: s)
  case (Cons op ops)
  then show ?case
    using redis_step_calls_le [of s fl env op] order_trans by fastforce
qed simp

lemma redis_run_held:
  assumes "rd_db s (''lock:'' @ key) = Some (RString token, Some w)"
    and "\<forall>n. rd_calls s \<le> n \<and> n \<le> rd_calls (redis_run fl env ops s) \<longrightarrow> millis (rd_clock env n) \<le> w"
    and "OpRelease (Some \<lparr>lk_key = ''lock:'' @ key, lk_token = token\<rparr>) \<notin> set ops"
  shows "rd_db (redis_run fl env ops s) (''lock:'' @ key) = Some (RString token, Some w)"
  using assms
proof (induction ops arbitrary: s)
  case (Cons op ops)
  have le: "rd_calls s \<le> rd_calls (redis_step fl env op s)"
      "rd_calls (redis_step fl env op s) \<le> rd_calls (redis_run fl env (op # ops) s)"
    using redis_step_calls_le redis_run_calls_le by simp_all
  have "rd_db (redis_step fl env op s) (''lock:'' @ key) = rd_db s (''lock:'' @ key)"
    using Cons.prems le by (intro redis_step_held) auto
  then show ?case
    using Cons.IH [of "redis_step fl env op s"] Cons.prems le by auto
qed simp

lemma redis_do_Inr:
  assumes "redis_do env cmd s = (s', Inr x)"
  shows "rd_fault env (rd_calls s) = None" "cmd (rd_clock env (rd_calls s)) (rd_db s) = (rd_db s', Inr x)"
  using assms by (auto simp: redis_do_def Let_def split: prod.splits option.splits if_splits)

lemma Acquire_Inr:
  assumes "Acquire env key ttl s = (s', Inr lk)"
  shows "live (rd_clock env (rd_calls s)) (rd_db s) (''lock:'' @ key) = None"
    and "0 < ttl \<Longrightarrow> rd_db s' (''lock:'' @ key) =
      Some (RString (lk_token lk), Some (millis (rd_clock env (rd_calls s)) + max 1 (ttl div 1000000)))"
    and "lk_key lk = ''lock:'' @ key" and "lk_token lk = rd_uuid env (rd_calls s)"
    and "rd_calls s' = Suc (rd_calls s)"
proof -
  obtain lk': "redis_do env (cmd_SetNX (''lock:'' @ key) (rd_uuid env (rd_calls s)) ttl) s = (s', Inr True)"
    and k: "lk = \<lparr>lk_key = ''lock:'' @ key, lk_token = rd_uuid env (rd_calls s)\<rparr>"
    using assms by (auto simp: Acquire_def SetNX_def Let_def split: prod.splits sum.splits if_splits)
  from redis_do_Inr(2) [OF lk'] k show
    "live (rd_clock env (rd_calls s)) (rd_db s) (''lock:'' @ key) = None"
    "0 < ttl \<Longrightarrow> rd_db s' (''lock:'' @ key) =
      Some (RString (lk_token lk), Some (millis (rd_clock env (rd_calls s)) + max 1 (ttl div 1000000)))"
    by (auto simp: cmd_SetNX_def split: if_splits dest!: sym [of _ "rd_db s'"])
  show "lk_key lk = ''lock:'' @ key" "lk_token lk = rd_uuid env (rd_calls s)"
    using k by simp_all
  show "rd_calls s' = Suc (rd_calls s)"
    using redis_do_calls [of env _ s] lk' by (metis fst_conv)
qed

text \<open>C27. The distributed lock excludes. From the moment a client has acquired the lock until its lifetime is
  over or that client releases it, no other attempt to acquire it succeeds, whatever else the gateway does
  with Redis in between: other locks, releases with any other handle, webhook marks, both limiters, and lost
  commands or replies.\<close>

theorem lock_exclusive:
  assumes "Acquire env key ttl s = (s1, Inr lk)" and "0 < ttl"
    and "\<forall>n. rd_calls s1 \<le> n \<and> n \<le> rd_calls (redis_run fl env ops s1) \<longrightarrow>
      millis (rd_clock env n) \<le> millis (rd_clock env (rd_calls s)) + max 1 (ttl div 1000000)"
    and "OpRelease (Some lk) \<notin> set ops"
  shows "\<exists>e. snd (Acquire env key ttl' (redis_run fl env ops s1)) = Inl e"
proof -
  let ?w = "millis (rd_clock env (rd_calls s)) + max 1 (ttl div 1000000)"
  let ?s = "redis_run fl env ops s1"
  have "lk = \<lparr>lk_key = ''lock:'' @ key, lk_token = lk_token lk\<rparr>"
    using Acquire_Inr(3) [OF assms(1)] by (cases lk) simp
  then have held: "rd_db ?s (''lock:'' @ key) = Some (RString (lk_token lk), Some ?w)"
    using redis_run_held [OF Acquire_Inr(2) [OF assms(1,2)] assms(3)] assms(4) by metis
  moreover have "millis (rd_clock env (rd_calls ?s)) \<le> ?w"
    using assms(3) redis_run_calls_le by blast
  ultimately have "live (rd_clock env (rd_calls ?s)) (rd_db ?s) (''lock:'' @ key) \<noteq> None"
    using live_Some [of "rd_db ?s"] by simp
  then show ?thesis
    using Acquire_Inr(1) [of env key ttl' ?s] by (cases "Acquire env key ttl' ?s"; cases "snd (Acquire env key ttl' ?s)") auto
qed

definition demo_redis :: redis_env where
  "demo_redis = \<lparr>rd_fault = (\<lambda>n. if n = 2 then Some (True, ErrNew ''i/o timeout'') else None),
     rd_clock = (\<lambda>n. int n * 1000000000), rd_uuid = (\<lambda>n. ''u'' @ replicate n CHR ''x'')\<rparr>"

definition demo_rstore :: redis_store where
  "demo_rstore = \<lparr>tables = (\<lambda>p. []), stmts = 0, merchants = [], mcache = newLRUCache 1024 300000000000,
     rd_db = (\<lambda>k. None), rd_calls = 0\<rparr>"

definition demo_ops :: "redis_op list" where
  "demo_ops = [OpRelease (Some \<lparr>lk_key = ''lock:k'', lk_token = ''other''\<rparr>), OpAcquire ''k'' 5000000000,
     OpRate ''m'' 10 60000000000]"

theorem lock_exclusive_witness:
  "\<exists>s1 lk e. Acquire demo_redis ''k'' 10000000000 demo_rstore = (s1, Inr lk) \<and>
    snd (Acquire demo_redis ''k'' 5000000000 (redis_run id demo_redis demo_ops s1)) = Inl e"
proof -
  obtain s1 lk where acq: "Acquire demo_redis ''k'' 10000000000 demo_rstore = (s1, Inr lk)"
    by (simp add: Acquire_def SetNX_def redis_do_def cmd_SetNX_def live_def demo_redis_def demo_rstore_def Let_def)
  have lk: "lk_token lk = ''u''" and c: "rd_calls s1 = 1"
    using Acquire_Inr(4,5) [OF acq] by (simp_all add: demo_rstore_def demo_redis_def)
  have n: "rd_calls (redis_run id demo_redis demo_ops s1) = 4"
    using c by (simp add: demo_ops_def redis_step_eqs)
  have "OpRelease (Some lk) \<notin> set demo_ops"
    using lk by (auto simp: demo_ops_def)
  moreover have "\<forall>n. rd_calls s1 \<le> n \<and> n \<le> rd_calls (redis_run id demo_redis demo_ops s1) \<longrightarrow>
      millis (rd_clock demo_redis n) \<le> millis (rd_clock demo_redis (rd_calls demo_rstore)) + max 1 (10000000000 div 1000000)"
    unfolding n by (auto simp: demo_redis_def demo_rstore_def millis_def)
  ultimately show ?thesis
    using lock_exclusive [OF acq _ _ _, of id demo_ops 5000000000] acq by auto
qed

section \<open>The rounding error of a time stamp\<close>

lemma bits_le: "n < 2 ^ k \<Longrightarrow> bits n \<le> k"
proof (induction n arbitrary: k rule: bits.induct)
  case (1 n)
  show ?case
  proof (cases "n = 0")
    case False
    with 1(2) obtain k' where k: "k = Suc k'" by (cases k) auto
    then have "n div 2 < 2 ^ k'" using 1(2) by simp
    from 1(1) [OF False this] False k show ?thesis by (simp add: bits.simps [of n])
  qed (simp add: bits.simps)
qed

lemma round_even_error:
  assumes "0 < e"
  shows "\<bar>int (round_even e a) - int a\<bar> \<le> 2 ^ (e - 1)"
proof -
  define h :: nat where "h = 2 ^ (e - 1)"
  have two: "2 ^ e = 2 * h" using assms by (cases e) (simp_all add: h_def)
  define q where "q = a div (2 * h)"
  define r where "r = a mod (2 * h)"
  have "0 < h" by (simp add: h_def)
  then have a: "a = q * (2 * h) + r" and r: "r < 2 * h"
    unfolding q_def r_def by (simp_all only: div_mult_mod_eq) simp
  have "int (round_even e a) = (if r < h \<or> r = h \<and> even q then int (q * (2 * h)) else int (q * (2 * h)) + int (2 * h))"
    unfolding round_even_def two Let_def h_def [symmetric] q_def [symmetric] r_def [symmetric]
    by (simp add: algebra_simps)
  moreover have "int a = int (q * (2 * h)) + int r"
    using a by (metis of_nat_add)
  moreover have "(2 :: int) ^ (e - 1) = int h" by (simp add: h_def)
  ultimately show ?thesis using r by (simp only: split: if_split) auto
qed

lemma dbl_exact: "\<bar>n\<bar> < 2 ^ 53 \<Longrightarrow> dbl n = n"
  using bits_le [of "nat \<bar>n\<bar>" 53] by (simp add: dbl_def nat_less_iff)

lemma dbl_error:
  assumes "\<bar>n\<bar> < 2 ^ 61"
  shows "\<bar>dbl n - n\<bar> \<le> 128"
proof (cases "bits (nat \<bar>n\<bar>) \<le> 53")
  case True
  then show ?thesis by (simp add: dbl_def)
next
  case False
  let ?e = "bits (nat \<bar>n\<bar>) - 53"
  have "bits (nat \<bar>n\<bar>) \<le> 61"
    using assms bits_le [of "nat \<bar>n\<bar>" 61] by (simp add: nat_less_iff)
  then have "(2 :: int) ^ (?e - 1) \<le> 2 ^ 7"
    by (intro power_increasing) simp_all
  moreover have "\<bar>int (round_even ?e (nat \<bar>n\<bar>)) - \<bar>n\<bar>\<bar> \<le> 2 ^ (?e - 1)"
    using round_even_error [of ?e "nat \<bar>n\<bar>"] False by simp
  ultimately have "\<bar>int (round_even ?e (nat \<bar>n\<bar>)) - \<bar>n\<bar>\<bar> \<le> 128" by simp
  moreover have "dbl n = sgn n * int (round_even ?e (nat \<bar>n\<bar>))"
    using False by (simp add: dbl_def Let_def)
  ultimately show ?thesis
    by (cases n "0 :: int" rule: linorder_cases) (simp_all add: abs_if split: if_splits)
qed

section \<open>The sliding window\<close>

text \<open>
  \<open>A\<close> are the times at which requests were let through so far, \<open>T\<close> is the last time the script
  ran. A request that has left the sorted set is older than the window, up to the rounding of
  three time stamps; every entry of the set outlives its window.
\<close>

definition stamped :: "int \<Rightarrow> int \<Rightarrow> int \<Rightarrow> string \<times> int \<Rightarrow> bool" where
  "stamped w T e z \<longleftrightarrow> (\<exists>x. z = (FormatInt x, dbl x) \<and> 0 \<le> x \<and> x \<le> T \<and> x + w < 1000000 * (e + 1))"

definition window_inv :: "int \<Rightarrow> int \<Rightarrow> int \<Rightarrow> string \<Rightarrow> int set \<Rightarrow> redis_db \<Rightarrow> bool" where
  "window_inv w limit T k A db \<longleftrightarrow>
     finite A \<and> (\<forall>x\<in>A. 0 \<le> x \<and> x \<le> T) \<and>
     (\<forall>y\<in>A. int (card {x \<in> A. y - w + 384 < x \<and> x \<le> y}) \<le> limit) \<and>
     (case db k of
        None \<Rightarrow> \<forall>x\<in>A. x \<le> T - w + 384
      | Some (RZSet zs, Some e) \<Rightarrow>
          (\<forall>z\<in>set zs. stamped w T e z) \<and> (\<forall>x\<in>A. (FormatInt x, dbl x) \<in> set zs \<or> x \<le> T - w + 384)
      | Some _ \<Rightarrow> False)"

lemma stamped_later:
  assumes "stamped w T e z" and "T \<le> T'" and "e \<le> e'"
  shows "stamped w T' e' z"
proof -
  obtain x where "z = (FormatInt x, dbl x)" "0 \<le> x" "x \<le> T" "x + w < 1000000 * (e + 1)"
    using assms(1) unfolding stamped_def by blast
  with assms(2,3) show ?thesis
    unfolding stamped_def by (intro exI [of _ x] conjI) auto
qed

lemma stamped_time:
  assumes "stamped w T e (FormatInt x, dbl x)" and "0 \<le> x" "x < 2 ^ 62" "T < 2 ^ 62"
  shows "x + w < 1000000 * (e + 1)"
proof -
  obtain x' where x': "FormatInt x = FormatInt x'" "0 \<le> x'" "x' \<le> T" "x' + w < 1000000 * (e + 1)"
    using assms(1) unfolding stamped_def by blast
  have "int64_range x" "int64_range x'"
    using assms x' by (simp_all add: int64_range_def)
  then have "x = x'"
    using FormatInt_inject x'(1) by blast
  then show ?thesis using x'(4) by simp
qed

lemma millis_bounds: "1000000 * millis now \<le> now" "now < 1000000 * (millis now + 1)"
  unfolding millis_def by presburger+

lemma expiry_covers:
  assumes "x \<le> now"
  shows "x + w < 1000000 * (millis now - (- w) div 1000000 + 1)"
proof -
  define c where "c = (- w) div 1000000"
  have "- w = c * 1000000 + (- w) mod 1000000" "0 \<le> (- w) mod 1000000"
    unfolding c_def by (simp_all only: div_mult_mod_eq pos_mod_sign)
  then have "w \<le> - 1000000 * c" by linarith
  then have "x + w < 1000000 * (millis now - c + 1)"
    using assms millis_bounds(2) [of now] by (simp add: algebra_simps)
  then show ?thesis by (simp only: c_def)
qed

lemma stamped_now:
  assumes "stamped w T e z" and "T \<le> now"
  shows "stamped w T (millis now - (- w) div 1000000) z"
proof -
  obtain x where x: "z = (FormatInt x, dbl x)" "0 \<le> x" "x \<le> T"
    using assms(1) unfolding stamped_def by blast
  then have "x + w < 1000000 * (millis now - (- w) div 1000000 + 1)"
    using assms(2) by (intro expiry_covers) simp
  with x show ?thesis unfolding stamped_def by blast
qed

lemma stamped_self: "0 \<le> now \<Longrightarrow> stamped w now (millis now - (- w) div 1000000) (FormatInt now, dbl now)"
  unfolding stamped_def using expiry_covers [of now now w] by blast

lemma window_inv_cases:
  assumes "window_inv w limit T k A db"
  obtains (fresh) "db k = None" "\<forall>x\<in>A. x \<le> T - w + 384"
  | (used) zs e where "db k = Some (RZSet zs, Some e)" "\<forall>z\<in>set zs. stamped w T e z"
      "\<forall>x\<in>A. (FormatInt x, dbl x) \<in> set zs \<or> x \<le> T - w + 384"
proof (cases "db k")
  case None
  then show thesis using fresh assms by (simp add: window_inv_def)
next
  case (Some v)
  then show thesis using used assms
    by (cases v; cases "fst v"; cases "snd v") (auto simp: window_inv_def)
qed

lemma window_inv_later: "window_inv w limit T k A db \<Longrightarrow> T \<le> T' \<Longrightarrow> db' k = db k \<Longrightarrow> window_inv w limit T' k A db'"
  by (fastforce simp: window_inv_def intro: stamped_later split: option.splits prod.splits redis_obj.splits)

lemma window_inv_mono:
  assumes "window_inv w limit T k A db" and "B \<subseteq> A"
  shows "window_inv w limit T k B db"
proof -
  have fin: "finite A" using assms(1) by (simp add: window_inv_def)
  have card: "int (card {x \<in> B. y - w + 384 < x \<and> x \<le> y}) \<le> limit" if "y \<in> B" for y
  proof -
    have "card {x \<in> B. y - w + 384 < x \<and> x \<le> y} \<le> card {x \<in> A. y - w + 384 < x \<and> x \<le> y}"
      using assms(2) fin by (intro card_mono) auto
    moreover have "int (card {x \<in> A. y - w + 384 < x \<and> x \<le> y}) \<le> limit"
      using assms that by (auto simp: window_inv_def)
    ultimately show ?thesis by linarith
  qed
  have "finite B" using fin assms(2) finite_subset by blast
  have "\<forall>x\<in>B. 0 \<le> x \<and> x \<le> T" using assms by (auto simp: window_inv_def)
  from assms(1) show ?thesis
  proof (cases rule: window_inv_cases)
    case (used zs e)
    then have "\<forall>x\<in>B. (FormatInt x, dbl x) \<in> set zs \<or> x \<le> T - w + 384" using assms(2) by blast
    with used \<open>finite B\<close> show ?thesis
      using \<open>\<forall>x\<in>B. 0 \<le> x \<and> x \<le> T\<close> card by (simp add: window_inv_def)
  next
    case fresh
    then show ?thesis
      using \<open>finite B\<close> \<open>\<forall>x\<in>B. 0 \<le> x \<and> x \<le> T\<close> card assms(2) by (auto simp: window_inv_def)
  qed
qed

text \<open>What the script counts: an entry that is trimmed, or lost with its key, is older than the window.\<close>

lemma trimmed_old:
  assumes "0 \<le> w" "w < 2 ^ 53" and "0 \<le> x" "x \<le> now" "now < 2 ^ 61 - 1000"
    and "dbl x \<le> dbl (dbl now - dbl w)"
  shows "x \<le> now - w + 384"
proof -
  have w: "dbl w = w" using assms by (intro dbl_exact) simp
  have e1: "\<bar>dbl now - now\<bar> \<le> 128" and e2: "\<bar>dbl x - x\<bar> \<le> 128"
    using assms by (auto intro!: dbl_error)
  have "\<bar>dbl now - w\<bar> < 2 ^ 61"
    using e1 assms by simp
  then have "\<bar>dbl (dbl now - w) - (dbl now - w)\<bar> \<le> 128"
    by (rule dbl_error)
  moreover have "dbl x \<le> dbl (dbl now - w)" using assms(6) by (simp only: w)
  ultimately show ?thesis using e1 e2 by linarith
qed

lemma window_trim:
  assumes inv: "window_inv w limit T k A db" and w: "0 \<le> w" "w < 2 ^ 53" and now: "T \<le> now" "now < 2 ^ 61 - 1000"
  obtains zs where "zset_of now db k = Inr zs"
    and "\<forall>z\<in>set zs. stamped w T (millis now - (- w) div 1000000) z"
    and "\<forall>x\<in>A. (FormatInt x, dbl x) \<in> set (zremrange 0 (dbl (dbl now - dbl w)) zs) \<or> x \<le> now - w + 384"
    and "zs \<noteq> [] \<longrightarrow> (\<exists>e. db k = Some (RZSet zs, Some e) \<and> (\<forall>z\<in>set zs. stamped w T e z))"
proof -
  have A: "0 \<le> x \<and> x \<le> T" if "x \<in> A" for x
    using inv that by (simp add: window_inv_def)
  from inv show thesis
  proof (cases rule: window_inv_cases)
    case fresh
    then have "zset_of now db k = Inr []" by (simp add: zset_of_def live_def)
    moreover have "\<forall>x\<in>A. x \<le> now - w + 384" using fresh(2) now(1) by fastforce
    ultimately show ?thesis by (intro that [of "[]"]) auto
  next
    case (used zs e)
    show ?thesis
    proof (cases "millis now \<le> e")
      case True
      have z: "zset_of now db k = Inr zs" using used(1) True by (simp add: zset_of_def live_def)
      have "(FormatInt x, dbl x) \<in> set (zremrange 0 (dbl (dbl now - dbl w)) zs) \<or> x \<le> now - w + 384" if x: "x \<in> A" for x
      proof (cases "(FormatInt x, dbl x) \<in> set zs \<and> dbl (dbl now - dbl w) < dbl x")
        case False
        then consider "dbl x \<le> dbl (dbl now - dbl w)" | "x \<le> T - w + 384"
          using used(3) x not_less by blast
        then have "x \<le> now - w + 384"
          using trimmed_old [OF w, of x now] A [OF x] now by cases simp_all
        then show ?thesis ..
      qed (simp add: zremrange_def)
      moreover have "\<forall>z\<in>set zs. stamped w T (millis now - (- w) div 1000000) z"
        by (blast intro: stamped_now [OF _ now(1)] used(2) [rule_format])
      ultimately show ?thesis
        by (intro that [OF z]) (simp_all add: used(1,2))
    next
      case False
      then have z: "zset_of now db k = Inr []" using used(1) by (simp add: zset_of_def live_def)
      have e: "1000000 * (e + 1) \<le> now" using False millis_bounds(1) [of now] by auto
      have "x \<le> now - w + 384" if x: "x \<in> A" for x
      proof (cases "(FormatInt x, dbl x) \<in> set zs")
        case True
        then have "x + w < 1000000 * (e + 1)"
          using stamped_time [OF used(2) [rule_format, OF True]] A [OF x] now by simp
        then show ?thesis using e by linarith
      next
        case False
        then have "x \<le> T - w + 384" using used(3) x by blast
        then show ?thesis using now(1) by linarith
      qed
      then have "\<forall>x\<in>A. (FormatInt x, dbl x) \<in> set (zremrange 0 (dbl (dbl now - dbl w)) []) \<or> x \<le> now - w + 384"
        by blast
      then show ?thesis
        by (rule that [OF z, rotated]) simp_all
    qed
  qed
qed

lemma AList_update_set:
  "set (AList.update k v al) \<subseteq> insert (k, v) (set al)" "p \<in> set al \<Longrightarrow> fst p \<noteq> k \<Longrightarrow> p \<in> set (AList.update k v al)"
  "(k, v) \<in> set (AList.update k v al)" "length (AList.update k v al) \<le> Suc (length al)"
  by (induction al) auto

lemma window_refuse:
  assumes inv: "window_inv w limit T k A db" and w: "0 \<le> w" "w < 2 ^ 53" and now: "T \<le> now" "now < 2 ^ 61 - 1000"
    and zs: "zset_of now db k = Inr zs" and n: "zremrange 0 (dbl (dbl now - dbl w)) zs \<noteq> []"
  shows "window_inv w limit now k A (set_trimmed k (zremrange 0 (dbl (dbl now - dbl w)) zs) db)"
proof -
  let ?zs = "zremrange 0 (dbl (dbl now - dbl w)) zs"
  obtain zs1 where z1: "zset_of now db k = Inr zs1"
    and "\<forall>z\<in>set zs1. stamped w T (millis now - (- w) div 1000000) z"
    and old: "\<forall>x\<in>A. (FormatInt x, dbl x) \<in> set (zremrange 0 (dbl (dbl now - dbl w)) zs1) \<or> x \<le> now - w + 384"
    and key: "zs1 \<noteq> [] \<longrightarrow> (\<exists>e. db k = Some (RZSet zs1, Some e) \<and> (\<forall>z\<in>set zs1. stamped w T e z))"
    by (rule window_trim [OF inv w now])
  have eq: "zs1 = zs" using z1 zs by simp
  have "zs \<noteq> []" using n by (auto simp: zremrange_def)
  then obtain e where e: "db k = Some (RZSet zs, Some e)" "\<forall>z\<in>set zs. stamped w T e z"
    using key eq by blast
  have "\<forall>z\<in>set ?zs. stamped w now e z"
    using e(2) stamped_later [of w T e _ now e] now(1) by (simp add: zremrange_def)
  moreover have "\<forall>x\<in>A. 0 \<le> x \<and> x \<le> now" using inv now(1) by (auto simp: window_inv_def)
  ultimately show ?thesis
    using inv old e n unfolding window_inv_def eq by (simp add: set_trimmed_def)
qed

text \<open>Admitted stamps within a window are members of the set, so the set bounds their number.\<close>

lemma window_count:
  assumes mem: "\<And>x. x \<in> A \<Longrightarrow> (FormatInt x, dbl x) \<in> set zs \<or> x \<le> now - w + 384" and range: "\<And>x. x \<in> A \<Longrightarrow> int64_range x"
  shows "card {x \<in> A. now - w + 384 < x \<and> x \<le> now} \<le> length zs" (is "card ?B \<le> _")
proof -
  have "inj_on (\<lambda>x. (FormatInt x, dbl x)) ?B"
    using FormatInt_inject range by (intro inj_onI) blast
  moreover have "(\<lambda>x. (FormatInt x, dbl x)) ` ?B \<subseteq> set zs"
    using mem by fastforce
  ultimately have "card ?B \<le> card (set zs)"
    by (intro card_inj_on_le) simp_all
  also have "\<dots> \<le> length zs"
    by (rule card_length)
  finally show ?thesis .
qed

lemma window_admit:
  assumes inv: "window_inv w limit T k A db" and w: "0 \<le> w" "w < 2 ^ 53" and now: "T \<le> now" "0 \<le> now" "now < 2 ^ 61 - 1000"
    and zs: "zset_of now db k = Inr zs" and n: "int (length (zremrange 0 (dbl (dbl now - dbl w)) zs)) < limit"
    and db': "db' k = Some (RZSet (AList.update (FormatInt now) (dbl now) (zremrange 0 (dbl (dbl now - dbl w)) zs)),
      Some (millis now - (- w) div 1000000))"
  shows "window_inv w limit now k (insert now A) db'"
proof -
  let ?zs = "zremrange 0 (dbl (dbl now - dbl w)) zs"
  let ?new = "AList.update (FormatInt now) (dbl now) ?zs"
  let ?e = "millis now - (- w) div 1000000"
  obtain zs1 where z1: "zset_of now db k = Inr zs1"
    and st: "\<forall>z\<in>set zs1. stamped w T ?e z"
    and old1: "\<forall>x\<in>A. (FormatInt x, dbl x) \<in> set (zremrange 0 (dbl (dbl now - dbl w)) zs1) \<or> x \<le> now - w + 384"
    and "zs1 \<noteq> [] \<longrightarrow> (\<exists>e. db k = Some (RZSet zs1, Some e) \<and> (\<forall>z\<in>set zs1. stamped w T e z))"
    by (rule window_trim [OF inv w now(1,3)])
  have eq: "zs1 = zs" using z1 zs by simp
  have A: "finite A" "\<forall>x\<in>A. 0 \<le> x \<and> x \<le> T" "\<forall>y\<in>A. int (card {x \<in> A. y - w + 384 < x \<and> x \<le> y}) \<le> limit"
    using inv by (simp_all add: window_inv_def)
  have range: "int64_range x" if "x \<in> insert now A" for x
    using that A(2) now by (auto simp: int64_range_def)
  have mem: "(FormatInt x, dbl x) \<in> set ?new \<or> x \<le> now - w + 384" if x: "x \<in> insert now A" for x
  proof (cases "x = now")
    case True
    then show ?thesis using AList_update_set(3) [of "FormatInt now" "dbl now" ?zs] by simp
  next
    case False
    then have "FormatInt x \<noteq> FormatInt now" "x \<in> A"
      using FormatInt_inject range x by blast+
    then show ?thesis
      using old1 eq AList_update_set(2) [of "(FormatInt x, dbl x)" ?zs "FormatInt now"] by auto
  qed
  have "stamped w now ?e z" if "z \<in> set zs" for z
    using st eq that now(1) stamped_later [of w T ?e z now ?e] by blast
  then have all: "\<forall>z\<in>set ?new. stamped w now ?e z"
    using AList_update_set(1) [of "FormatInt now" "dbl now" ?zs] stamped_self [OF now(2)]
    by (auto simp: zremrange_def)
  have card: "int (card {x \<in> insert now A. y - w + 384 < x \<and> x \<le> y}) \<le> limit" if y: "y \<in> insert now A" for y
  proof (cases "y = now")
    case True
    show ?thesis
      using window_count [of "insert now A", OF mem range] AList_update_set(4) [of "FormatInt now" "dbl now" ?zs] n
      unfolding True by linarith
  next
    case False
    then have "y \<in> A" "{x \<in> insert now A. y - w + 384 < x \<and> x \<le> y} = {x \<in> A. y - w + 384 < x \<and> x \<le> y}"
      using y A(2) now(1) by force+
    then show ?thesis using A(3) by simp
  qed
  have "\<forall>x\<in>insert now A. 0 \<le> x \<and> x \<le> now" using A(2) now by auto
  moreover have "\<forall>x\<in>insert now A. (FormatInt x, dbl x) \<in> set ?new \<or> x \<le> now - w + 384" using mem by blast
  moreover have "\<forall>y\<in>insert now A. int (card {x \<in> insert now A. y - w + 384 < x \<and> x \<le> y}) \<le> limit" using card by blast
  ultimately show ?thesis
    unfolding window_inv_def using db' all A(1) by (simp del: ball_simps)
qed

lemma window_script:
  assumes inv: "window_inv w limit T k A db" and w: "0 \<le> w" "w < 2 ^ 53" and limit: "0 < limit" "limit < 2 ^ 53"
    and now: "T \<le> now" "0 \<le> now" "now < 2 ^ 61 - 1000"
    and run: "slidingWindowScript k now w limit (FormatInt now) now db = (db', res)"
  shows "window_inv w limit now k (A \<union> (if \<exists>r. res = Inr (1, r) then {now} else {})) db'"
proof -
  obtain zs where zs: "zset_of now db k = Inr zs"
    and "\<forall>z\<in>set zs. stamped w T (millis now - (- w) div 1000000) z"
    and "\<forall>x\<in>A. (FormatInt x, dbl x) \<in> set (zremrange 0 (dbl (dbl now - dbl w)) zs) \<or> x \<le> now - w + 384"
    and "zs \<noteq> [] \<longrightarrow> (\<exists>e. db k = Some (RZSet zs, Some e) \<and> (\<forall>z\<in>set zs. stamped w T e z))"
    by (rule window_trim [OF inv w now(1,3)])
  let ?zs = "zremrange 0 (dbl (dbl now - dbl w)) zs"
  have exact: "dbl limit = limit" "dbl w = w" using limit w by (simp_all add: dbl_exact)
  show ?thesis
  proof (cases "int (length ?zs) \<ge> limit")
    case True
    then have "?zs \<noteq> []" using limit(1) by auto
    moreover have "db' = set_trimmed k ?zs db" "\<exists>r. res = Inr (0, r)"
      using run zs True exact by (auto simp: slidingWindowScript_def Let_def)
    ultimately show ?thesis
      using window_refuse [OF inv w now(1,3) zs] by auto
  next
    case False
    then have r: "\<exists>r. res = Inr (1, r)" and
      d: "db' k = Some (RZSet (AList.update (FormatInt now) (dbl now) ?zs), Some (millis now - (- w) div 1000000))"
      using run zs exact by (auto simp: slidingWindowScript_def Let_def)
    have "window_inv w limit now k (insert now A) db'"
      using False d by (intro window_admit [OF inv w now zs]) simp_all
    with r show ?thesis by auto
  qed
qed

definition admits :: "redis_env \<Rightarrow> string \<Rightarrow> redis_op \<Rightarrow> 'a redis_store_scheme \<Rightarrow> int list" where
  "admits env key op s =
     (case op of
        OpRate k limit window \<Rightarrow>
          (if k = key then (case snd (rate_Allow env k limit window s) of
              Inr (True, _) \<Rightarrow> [rd_clock env (rd_calls s)] | _ \<Rightarrow> []) else [])
      | _ \<Rightarrow> [])"

fun admitted :: "(rat \<Rightarrow> rat) \<Rightarrow> redis_env \<Rightarrow> string \<Rightarrow> redis_op list \<Rightarrow> 'a redis_store_scheme \<Rightarrow> int list" where
  "admitted fl env key [] s = []"
| "admitted fl env key (op # ops) s = admits env key op s @ admitted fl env key ops (redis_step fl env op s)"

lemma window_release: "window_inv w limit T k A db \<Longrightarrow> fst (releaseScript k' token now db) k = db k"
proof (cases "k' = k")
  case True
  assume "window_inv w limit T k A db"
  then show ?thesis
    by (cases rule: window_inv_cases) (simp_all add: True releaseScript_def live_def)
qed (simp add: cmd_other_keys)

lemma window_keeps:
  assumes "window_inv w limit T k A (rd_db s)" and "T \<le> rd_clock env (rd_calls s)"
    and "fst (cmd (rd_clock env (rd_calls s)) (rd_db s)) k = rd_db s k"
  shows "window_inv w limit (rd_clock env (rd_calls s)) k A (rd_db (fst (redis_do env cmd s)))"
  by (rule window_inv_later [OF assms(1,2)]) (rule redis_do_keeps, rule assms(3))

lemma redis_do_cases:
  obtains (lost) e where "redis_do env cmd s = (s\<lparr>rd_calls := Suc (rd_calls s)\<rparr>, Inl e)"
  | (unheard) e where "redis_do env cmd s =
      (s\<lparr>rd_calls := Suc (rd_calls s), rd_db := fst (cmd (rd_clock env (rd_calls s)) (rd_db s))\<rparr>, Inl e)"
  | (heard) "redis_do env cmd s =
      (s\<lparr>rd_calls := Suc (rd_calls s), rd_db := fst (cmd (rd_clock env (rd_calls s)) (rd_db s))\<rparr>,
       snd (cmd (rd_clock env (rd_calls s)) (rd_db s)))"
proof (cases "rd_fault env (rd_calls s)")
  case None
  then show thesis by (intro heard) (simp add: redis_do_def Let_def case_prod_beta)
next
  case (Some f)
  then obtain a e where f: "rd_fault env (rd_calls s) = Some (a, e)" by (cases f) auto
  show thesis
  proof (cases a)
    case True
    with f show thesis by (intro unheard [of e]) (simp add: redis_do_def Let_def case_prod_beta)
  next
    case False
    with f show thesis by (intro lost [of e]) (simp add: redis_do_def Let_def case_prod_beta)
  qed
qed

lemma rate_Allow_window:
  assumes inv: "window_inv w limit T (''rate:'' @ key) A (rd_db s)" and w: "0 \<le> w" "w < 2 ^ 53"
    and limit: "0 < limit" "limit < 2 ^ 53" and T: "T \<le> rd_clock env (rd_calls s)"
    and now: "0 \<le> rd_clock env (rd_calls s)" "rd_clock env (rd_calls s) < 2 ^ 61 - 1000"
  shows "window_inv w limit (rd_clock env (rd_calls s)) (''rate:'' @ key)
    (A \<union> set (admits env key (OpRate key limit w) s)) (rd_db (fst (rate_Allow env key limit w s)))"
proof -
  let ?k = "''rate:'' @ key" and ?now = "rd_clock env (rd_calls s)"
  let ?cmd = "slidingWindowScript ?k ?now w limit (FormatInt ?now)"
  obtain db' res where run: "?cmd ?now (rd_db s) = (db', res)" by (cases "?cmd ?now (rd_db s)")
  have step: "window_inv w limit ?now ?k (A \<union> (if \<exists>r. res = Inr (1, r) then {?now} else {})) db'"
    by (rule window_script [OF inv w limit T now run])
  then have quiet: "window_inv w limit ?now ?k A db'"
    by (rule window_inv_mono) simp
  show ?thesis
  proof (cases rule: redis_do_cases [of env ?cmd s])
    case (lost e)
    then show ?thesis
      using limit window_inv_later [OF inv T] by (simp add: rate_Allow_def admits_def Let_def)
  next
    case (unheard e)
    then show ?thesis
      using limit quiet run by (simp add: rate_Allow_def admits_def Let_def)
  next
    case heard
    consider e where "res = Inl e" | a r where "res = Inr (a, r)" "a = 1" | a r where "res = Inr (a, r)" "a \<noteq> 1"
      by (cases res) auto
    then show ?thesis
      using limit step run heard by cases (simp_all add: rate_Allow_def admits_def Let_def)
  qed
qed

lemma redis_step_window:
  assumes inv: "window_inv w limit T (''rate:'' @ key) A (rd_db s)" and w: "0 \<le> w" "w < 2 ^ 53"
    and limit: "0 < limit" "limit < 2 ^ 53" and T: "T \<le> rd_clock env (rd_calls s)"
    and now: "0 \<le> rd_clock env (rd_calls s)" "rd_clock env (rd_calls s) < 2 ^ 61 - 1000"
    and same: "\<And>limit' w'. op = OpRate key limit' w' \<Longrightarrow> limit' = limit \<and> w' = w"
  shows "window_inv w limit (rd_clock env (rd_calls s)) (''rate:'' @ key) (A \<union> set (admits env key op s))
    (rd_db (redis_step fl env op s))"
proof (cases "\<exists>limit' w'. op = OpRate key limit' w'")
  case True
  then have "op = OpRate key limit w" using same by blast
  then show ?thesis
    using rate_Allow_window [OF inv w limit T now] by simp
next
  case False
  have a: "admits env key op s = []" using False by (auto simp: admits_def split: redis_op.split)
  note keep = window_keeps [OF inv T]
  have "window_inv w limit (rd_clock env (rd_calls s)) (''rate:'' @ key) A (rd_db (redis_step fl env op s))"
  proof (cases op)
    case (OpRelease lk)
    then show ?thesis
    proof (cases lk)
      case None
      then show ?thesis using OpRelease window_inv_later [OF inv T] by (simp add: Release_def)
    next
      case (Some l)
      then show ?thesis
        unfolding OpRelease Some redis_step.simps redis_step_eqs by (intro keep window_release [OF inv])
    qed
  next
    case (OpRate key' limit' w')
    then show ?thesis
      unfolding OpRate redis_step.simps redis_step_eqs
      using False OpRate window_inv_later [OF inv T] by (simp add: keep cmd_other_keys del: append.simps)
  qed (auto simp: redis_step_eqs SetNX_def NewTokenBucket_def cmd_other_keys intro!: keep [unfolded append.simps])
  then show ?thesis by (simp add: a)
qed

lemma redis_run_window:
  assumes "window_inv w limit T (''rate:'' @ key) A (rd_db s)" and "0 \<le> w" "w < 2 ^ 53" and "0 < limit" "limit < 2 ^ 53"
    and "T \<le> rd_clock env (rd_calls s)" and "mono (rd_clock env)"
    and "\<forall>n. 0 \<le> rd_clock env n \<and> rd_clock env n < 2 ^ 61 - 1000"
    and "\<forall>limit' w'. OpRate key limit' w' \<in> set ops \<longrightarrow> limit' = limit \<and> w' = w"
  shows "\<exists>T'. window_inv w limit T' (''rate:'' @ key) (A \<union> set (admitted fl env key ops s)) (rd_db (redis_run fl env ops s))"
  using assms
proof (induction ops arbitrary: s T A)
  case Nil
  then show ?case by auto
next
  case (Cons op ops)
  have "rd_clock env (rd_calls s) \<le> rd_clock env (rd_calls (redis_step fl env op s))"
    using Cons.prems(7) redis_step_calls_le by (rule monoD)
  with Cons.IH [OF redis_step_window [OF Cons.prems(1-6)]] Cons.prems show ?case
    by (simp add: Un_assoc)
qed


definition demo_tick :: redis_env where
  "demo_tick = \<lparr>rd_fault = (\<lambda>n. if n = 1 then Some (False, ErrNew ''EOF'') else None),
     rd_clock = (\<lambda>n. 1700000000000000000 + int (min n 5) * 1000000000), rd_uuid = (\<lambda>n. ''u'')\<rparr>"


section \<open>The token bucket\<close>

text \<open>What the script needs of floating-point rounding: it is monotone, idempotent, and exact on integers of 53 bits.\<close>

definition rounding :: "(rat \<Rightarrow> rat) \<Rightarrow> bool" where
  "rounding fl \<longleftrightarrow> mono fl \<and> (\<forall>x. fl (fl x) = fl x) \<and> (\<forall>i. \<bar>i\<bar> \<le> 2 ^ 53 \<longrightarrow> fl (of_int i) = of_int i)"

fun grants :: "(rat \<Rightarrow> rat) \<Rightarrow> redis_env \<Rightarrow> redisTokenBucket \<Rightarrow> nat \<Rightarrow> 'a redis_store_scheme \<Rightarrow> nat" where
  "grants fl env b 0 s = 0"
| "grants fl env b (Suc n) s =
     (case tb_Allow fl env b s of
        (s', Inr _) \<Rightarrow> Suc (grants fl env b n s')
      | (s', Inl _) \<Rightarrow> grants fl env b n s')"

text \<open>After some grants in one millisecond \<open>T\<close>, at most \<open>left\<close> tokens are stored.\<close>

definition bucket_inv :: "(rat \<Rightarrow> rat) \<Rightarrow> redisTokenBucket \<Rightarrow> int \<Rightarrow> int \<Rightarrow> redis_db \<Rightarrow> bool" where
  "bucket_inv fl b T left db \<longleftrightarrow> left \<le> tb_capacity b \<and>
     (case db (tb_key b) of
        None \<Rightarrow> left = tb_capacity b
      | Some (RHash fs, Some e) \<Rightarrow>
          T \<le> e \<and> map_of fs ''ts'' = Some (of_int T) \<and>
          (\<exists>t. map_of fs ''tokens'' = Some t \<and> fl t = t \<and> 0 \<le> t \<and> t \<le> of_int left)
      | Some _ \<Rightarrow> False)"

lemma rounding_simps:
  assumes "rounding fl"
  shows "fl 0 = 0" "fl (fl x) = fl x" "x \<le> y \<Longrightarrow> fl x \<le> fl y" "\<bar>i\<bar> \<le> 2 ^ 53 \<Longrightarrow> fl (of_int i) = of_int i"
proof -
  show "fl 0 = 0"
    using assms unfolding rounding_def by (metis abs_zero of_int_0 zero_le_numeral zero_le_power)
qed (use assms in \<open>auto simp: rounding_def mono_def\<close>)

lemma tbScript_bucket:
  assumes fl: "rounding fl" and cap: "0 \<le> tb_capacity b" "tb_capacity b \<le> 2 ^ 53" and refill: "0 < tb_refill b"
    and inv: "bucket_inv fl b (millis now) left db"
    and run: "tbScript fl (tb_key b) (of_int (tb_capacity b)) (tb_refill b) (of_int (millis now)) now db = (db', res)"
  shows "\<exists>allowed wait. res = Inr (allowed, wait) \<and> bucket_inv fl b (millis now) (if allowed = 1 then left - 1 else left) db' \<and>
    (allowed = 1 \<longrightarrow> 1 \<le> left) \<and> bucket_inv fl b (millis now) left db'"
proof -
  let ?cap = "of_int (tb_capacity b) :: rat" and ?ms = "of_int (millis now) :: rat"
  note r = rounding_simps [OF fl]
  obtain fs where fs: "hash_of now db (tb_key b) = Inr fs"
    and left: "left \<le> tb_capacity b"
    and tok: "\<exists>t. (case map_of fs ''tokens'' of None \<Rightarrow> ?cap | Some t \<Rightarrow> t) = t \<and> fl t = t \<and> 0 \<le> t \<and> t \<le> of_int left"
    and ts: "(case map_of fs ''ts'' of None \<Rightarrow> ?ms | Some t \<Rightarrow> t) = ?ms"
    using inv cap r(4) [of "tb_capacity b"]
    by (auto simp: bucket_inv_def hash_of_def live_def split: option.splits prod.splits redis_obj.splits)
  obtain t where t: "(case map_of fs ''tokens'' of None \<Rightarrow> ?cap | Some t \<Rightarrow> t) = t" "fl t = t" "0 \<le> t" "t \<le> of_int left"
    using tok by blast
  have "t \<le> ?cap" using t(4) left by (meson of_int_le_iff order_trans)
  then have ref: "refilled fl ?cap (tb_refill b) ?ms t ?ms = t"
    using r t by (simp add: refilled_def min_absorb2)
  have "0 \<le> ?cap / tb_refill b" using cap refill by simp
  then have "0 \<le> fl (?cap / tb_refill b)" using r(1,3) by metis
  then have "0 \<le> fl (fl (?cap / tb_refill b) * 1000)" using r(1,3) by (metis mult_nonneg_nonneg zero_le_numeral)
  then have e: "millis now \<le> millis now + \<lceil>fl (fl (?cap / tb_refill b) * 1000)\<rceil> + 5000" by (simp add: ceiling_mono)
  show ?thesis
  proof (cases "1 \<le> t")
    case True
    have "fl (t - 1) \<le> fl (of_int (left - 1))" "fl 0 \<le> fl (t - 1)"
      using t(4) True by (auto intro!: r(3))
    moreover have "1 \<le> left" using t(4) True by (metis of_int_1 of_int_le_iff order_trans)
    moreover have "fl (of_int (left - 1)) = of_int (left - 1)" using calculation left cap by (intro r(4)) simp
    ultimately have t': "0 \<le> fl (t - 1)" "fl (t - 1) \<le> of_int (left - 1)" "fl (t - 1) \<le> of_int left" "1 \<le> left"
      using r(1) by simp_all
    have "res = Inr (1, 0) \<and> db' = db(tb_key b \<mapsto> (RHash (AList.update ''ts'' ?ms (AList.update ''tokens'' (fl (t - 1)) fs)),
        Some (millis now + \<lceil>fl (fl (?cap / tb_refill b) * 1000)\<rceil> + 5000)))"
      using run fs t(1) ts ref refill True by (simp add: tbScript_def Let_def)
    then show ?thesis
      using t' left e r(2) [of "t - 1"] by (simp add: bucket_inv_def update_conv)
  next
    case False
    then have "\<exists>w. res = Inr (0, w) \<and> db' = db(tb_key b \<mapsto> (RHash (AList.update ''ts'' ?ms (AList.update ''tokens'' t fs)),
        Some (millis now + \<lceil>fl (fl (?cap / tb_refill b) * 1000)\<rceil> + 5000)))"
      using run fs t(1) ts ref refill by (auto simp: tbScript_def Let_def)
    then show ?thesis
      using t left e by (auto simp: bucket_inv_def update_conv)
  qed
qed

lemma tb_Allow_bucket:
  assumes "rounding fl" and "0 \<le> tb_capacity b" "tb_capacity b \<le> 2 ^ 53" and "0 < tb_refill b"
    and inv: "bucket_inv fl b T left (rd_db s)" and T: "T = millis (rd_clock env (rd_calls s))"
  shows "case tb_Allow fl env b s of
      (s', Inr _) \<Rightarrow> 1 \<le> left \<and> bucket_inv fl b T (left - 1) (rd_db s')
    | (s', Inl _) \<Rightarrow> bucket_inv fl b T left (rd_db s')"
proof -
  let ?cmd = "tbScript fl (tb_key b) (of_int (tb_capacity b)) (tb_refill b) (of_int (millis (rd_clock env (rd_calls s))))"
  obtain db' res where run: "?cmd (rd_clock env (rd_calls s)) (rd_db s) = (db', res)"
    by (cases "?cmd (rd_clock env (rd_calls s)) (rd_db s)")
  from tbScript_bucket [OF assms(1-4) inv [unfolded T] run] obtain allowed w where
    "res = Inr (allowed, w)" "bucket_inv fl b T (if allowed = 1 then left - 1 else left) db'"
    "allowed = 1 \<longrightarrow> 1 \<le> left" "bucket_inv fl b T left db'"
    unfolding T by blast
  then show ?thesis
    using inv run by (cases rule: redis_do_cases [of env ?cmd s]) (auto simp: tb_Allow_def)
qed

lemma grants_bound:
  assumes "rounding fl" and "0 \<le> tb_capacity b" "tb_capacity b \<le> 2 ^ 53" and "0 < tb_refill b"
    and "\<forall>n. millis (rd_clock env n) = T" and "bucket_inv fl b T left (rd_db s)" and "0 \<le> left"
  shows "int (grants fl env b n s) \<le> left"
  using assms(6,7)
proof (induction n arbitrary: s left)
  case (Suc n)
  have "case tb_Allow fl env b s of
      (s', Inr _) \<Rightarrow> 1 \<le> left \<and> bucket_inv fl b T (left - 1) (rd_db s')
    | (s', Inl _) \<Rightarrow> bucket_inv fl b T left (rd_db s')"
    using Suc.prems(1) assms(5) by (intro tb_Allow_bucket [OF assms(1-4)]) simp_all
  then show ?case
    using Suc.IH Suc.prems(2) by (cases "tb_Allow fl env b s"; cases "snd (tb_Allow fl env b s)") fastforce+
qed simp

text \<open>C29. The token bucket bounds a burst: starting from a full bucket, at most \<open>capacity\<close> of the calls made within
  one millisecond are granted, for any rounding of the floating-point arithmetic and any lost commands or
  replies.\<close>

theorem token_bucket_burst:
  assumes "rounding fl" and "0 \<le> capacity" "capacity \<le> 2 ^ 53" and "0 < rate"
    and "\<forall>n. millis (rd_clock env n) = T" and "rd_db s (''tb:'' @ key) = None"
  shows "int (grants fl env (NewTokenBucket key capacity rate) n s) \<le> capacity"
  using assms
  by (intro grants_bound [where T = T]) (simp_all add: NewTokenBucket_def bucket_inv_def)

theorem token_bucket_burst_witness:
  "int (grants id (demo_redis\<lparr>rd_clock := (\<lambda>n. 7)\<rparr>) (NewTokenBucket ''stripe'' 3 2) 5 demo_rstore) \<le> 3"
  by (rule token_bucket_burst [where T = 0]) (simp_all add: rounding_def demo_rstore_def millis_def mono_def)

end
