(* ===== verification/Kafka.thy ===== *)
theory Kafka
  imports Redis
begin

text \<open>
  \<^verbatim>\<open>internal/kafka\<close>: the event a confirmed payment produces, the publisher, and the batch consumer with
  its dead-letter topic. \<^verbatim>\<open>encoding/json\<close> appears as functions \<open>marshal\<close>; the brokers and the handler of a
  batch are ports over the state.
\<close>

section \<open>producer.go\<close>

record PaymentConfirmedEvent =
  ev_OrderID :: string
  ev_MerchantID :: string
  ev_Status :: string
  ev_StripePaymentIntentID :: string
  ev_Amount :: int
  ev_Currency :: string
  ev_ConfirmedAt :: int

record Message =
  msg_Topic :: string
  msg_Partition :: int
  msg_Offset :: int
  msg_Key :: string
  msg_Value :: string

record 's EventPublisher =
  ep_PublishPaymentConfirmed :: "PaymentConfirmedEvent \<Rightarrow> 's \<Rightarrow> 's \<times> unit result"

text \<open>The state of the gateway: database, Redis, and the messages written to the confirmed topic.\<close>

record gateway = redis_store +
  topic :: "(string \<times> string) list"
  writes :: nat

text \<open>\<open>faults n\<close> is the failure of the \<open>n\<close>-th write.\<close>

definition WriteMessages ::
  "(nat \<Rightarrow> goerr option) \<Rightarrow> (string \<times> string) list \<Rightarrow> 'a gateway_scheme \<Rightarrow> 'a gateway_scheme \<times> unit result" where
  "WriteMessages faults kvs s =
     (let s' = s\<lparr>writes := Suc (writes s)\<rparr> in
      case faults (writes s) of
        Some e \<Rightarrow> (s', Inl e)
      | None \<Rightarrow> (s'\<lparr>topic := topic s @ kvs\<rparr>, Inr ()))"

definition PublishPaymentConfirmed ::
  "(PaymentConfirmedEvent \<Rightarrow> string result) \<Rightarrow> ((string \<times> string) list \<Rightarrow> 's \<Rightarrow> 's \<times> unit result) \<Rightarrow>
    PaymentConfirmedEvent \<Rightarrow> 's \<Rightarrow> 's \<times> unit result" where
  "PublishPaymentConfirmed marshal confirmed e s =
     (case marshal e of
        Inl err \<Rightarrow> (s, Inl (Wrapf ''marshal confirmed event'' err))
      | Inr payload \<Rightarrow> confirmed [(ev_OrderID e, payload)] s)"

definition NewPublisher ::
  "(PaymentConfirmedEvent \<Rightarrow> string result) \<Rightarrow> (nat \<Rightarrow> goerr option) \<Rightarrow> 'a gateway_scheme EventPublisher" where
  "NewPublisher marshal faults =
     \<lparr>ep_PublishPaymentConfirmed = PublishPaymentConfirmed marshal (WriteMessages faults)\<rparr>"

text \<open>Creating the topics: the broker connections are ports, and every error is swallowed.\<close>

record 's adminConn =
  ac_Controller :: "'s \<Rightarrow> 's \<times> (string \<times> int) result"
  ac_CreateTopics :: "string list \<Rightarrow> 's \<Rightarrow> 's \<times> unit result"
  ac_Close :: "'s \<Rightarrow> 's"

definition ensureTopicsWithDialer ::
  "(string \<Rightarrow> 's \<Rightarrow> 's \<times> 's adminConn result) \<Rightarrow> string list \<Rightarrow> string list \<Rightarrow> 's \<Rightarrow> 's" where
  "ensureTopicsWithDialer dial brokers topics s =
     (if brokers = [] then s
      else case dial (brokers ! 0) s of
        (s1, Inl _) \<Rightarrow> s1
      | (s1, Inr conn) \<Rightarrow>
          (case ac_Controller conn s1 of
             (s2, Inl _) \<Rightarrow> ac_Close conn s2
           | (s2, Inr (host, port)) \<Rightarrow>
               (case dial (host @ '':'' @ FormatInt port) s2 of
                  (s3, Inl _) \<Rightarrow> ac_Close conn s3
                | (s3, Inr ctrlConn) \<Rightarrow>
                    (case ac_CreateTopics ctrlConn (filter (\<lambda>t. t \<noteq> []) topics) s3 of
                       (s4, _) \<Rightarrow> ac_Close conn (ac_Close ctrlConn s4)))))"

definition ensureTopics ::
  "(string \<Rightarrow> 's \<Rightarrow> 's \<times> 's adminConn result) \<Rightarrow> string list \<Rightarrow> string list \<Rightarrow> 's \<Rightarrow> 's" where
  "ensureTopics DialContext brokers topics =
     ensureTopicsWithDialer
       (\<lambda>address s. case DialContext address s of (s', Inl err) \<Rightarrow> (s', Inl err) | (s', Inr conn) \<Rightarrow> (s', Inr conn))
       brokers topics"

text \<open>\<open>Close\<close> of the publisher, and the metadata fetch of \<^verbatim>\<open>/readyz\<close>.\<close>

definition publisher_Close :: "('s \<Rightarrow> 's \<times> unit result) option \<Rightarrow> 's \<Rightarrow> 's \<times> unit result" where
  "publisher_Close confirmed s = (case confirmed of None \<Rightarrow> (s, Inr ()) | Some close \<Rightarrow> close s)"

record 's brokerConn =
  bc_Brokers :: "'s \<Rightarrow> 's \<times> string list result"
  bc_Close :: "'s \<Rightarrow> 's"

definition kafka_Ping :: "(string \<Rightarrow> 's \<Rightarrow> 's \<times> 's brokerConn result) \<Rightarrow> string list \<Rightarrow> 's \<Rightarrow> 's \<times> goerr option" where
  "kafka_Ping DialContext brokers s =
     (if brokers = [] then (s, Some (ErrNew ''no brokers configured''))
      else case DialContext (brokers ! 0) s of
        (s1, Inl err) \<Rightarrow> (s1, Some err)
      | (s1, Inr conn) \<Rightarrow>
          (case bc_Brokers conn s1 of
             (s2, Inl err) \<Rightarrow> (bc_Close conn s2, Some err)
           | (s2, Inr _) \<Rightarrow> (bc_Close conn s2, None)))"

section \<open>consumer.go\<close>

text \<open>
  Ports of the batch consumer: a fetch with or without the deadline of the batch, a commit, a
  write to the dead-letter topic, the handler, and the cancellation of the context.
\<close>

record 's consumer =
  cn_FetchMessage :: "bool \<Rightarrow> 's \<Rightarrow> 's \<times> Message result"
  cn_CommitMessages :: "Message list \<Rightarrow> 's \<Rightarrow> 's \<times> unit result"
  cn_dlq :: "(string \<times> string) list \<Rightarrow> 's \<Rightarrow> 's \<times> unit result"
  cn_Handle :: "Message list \<Rightarrow> 's \<Rightarrow> 's \<times> unit result"
  cn_HandleOne :: "Message \<Rightarrow> 's \<Rightarrow> 's \<times> unit result"
  cn_marshalDLQ :: "Message \<Rightarrow> string \<Rightarrow> string result"
  cn_ctxErr :: "'s \<Rightarrow> goerr option"
  cn_BatchSize :: nat

text \<open>\<open>c\<close> brings the reader and the writer made from the configuration; the batches of the default have 500 messages.\<close>

definition NewBatchConsumer ::
  "'s consumer \<Rightarrow> (Message list \<Rightarrow> 's \<Rightarrow> 's \<times> unit result) \<Rightarrow> (Message \<Rightarrow> 's \<Rightarrow> 's \<times> unit result) \<Rightarrow> 's consumer" where
  "NewBatchConsumer c Handle HandleOne = c\<lparr>cn_Handle := Handle, cn_HandleOne := HandleOne, cn_BatchSize := 500\<rparr>"

definition commit :: "'s consumer \<Rightarrow> Message list \<Rightarrow> 's \<Rightarrow> 's \<times> unit result" where
  "commit c msgs = cn_CommitMessages c msgs"

text \<open>\<open>n\<close> is the room left in the batch; a message already fetched switches the deadline on.\<close>

fun fetch_loop :: "'s consumer \<Rightarrow> nat \<Rightarrow> Message list \<Rightarrow> 's \<Rightarrow> 's \<times> Message list \<times> goerr option" where
  "fetch_loop c 0 out s = (s, out, None)"
| "fetch_loop c (Suc n) out s =
     (case cn_FetchMessage c (out \<noteq> []) s of
        (s', Inl err) \<Rightarrow> (s', out, if errors_Is err DeadlineExceeded \<and> out \<noteq> [] then None else Some err)
      | (s', Inr msg) \<Rightarrow> fetch_loop c n (out @ [msg]) s')"

definition fetchBatch :: "'s consumer \<Rightarrow> 's \<Rightarrow> 's \<times> Message list \<times> goerr option" where
  "fetchBatch c = fetch_loop c (cn_BatchSize c) []"

definition MarshalForDLQ :: "(Message \<Rightarrow> string \<Rightarrow> string result) \<Rightarrow> Message \<Rightarrow> goerr \<Rightarrow> string result" where
  "MarshalForDLQ marshal m cause =
     (case marshal m (Error cause) of Inl e \<Rightarrow> Inl (Wrapf ''marshal dlq'' e) | Inr b \<Rightarrow> Inr b)"

definition toDLQ :: "'s consumer \<Rightarrow> Message \<Rightarrow> goerr \<Rightarrow> 's \<Rightarrow> 's" where
  "toDLQ c m cause s =
     fst (cn_dlq c [(msg_Key m, case MarshalForDLQ (cn_marshalDLQ c) m cause of Inl _ \<Rightarrow> [] | Inr b \<Rightarrow> b)] s)"

fun fallback :: "'s consumer \<Rightarrow> Message list \<Rightarrow> 's \<Rightarrow> 's" where
  "fallback c [] s = s"
| "fallback c (m # ms) s =
     (case cn_HandleOne c m s of
        (s', Inl err) \<Rightarrow> fallback c ms (toDLQ c m err s')
      | (s', Inr _) \<Rightarrow> fallback c ms s')"

text \<open>One turn of the loop of \<open>Run\<close>; \<^const>\<open>Some\<close> ends it.\<close>

definition run_turn :: "'s consumer \<Rightarrow> 's \<Rightarrow> 's \<times> goerr option option" where
  "run_turn c s =
     (case cn_ctxErr c s of
        Some e \<Rightarrow> (s, Some (Some e))
      | None \<Rightarrow>
          (case fetchBatch c s of
             (s1, msgs, Some err) \<Rightarrow>
               (s1, if errors_Is err Canceled \<or> errors_Is err DeadlineExceeded then Some None else None)
           | (s1, msgs, None) \<Rightarrow>
               (if msgs = [] then (s1, None)
                else case cn_Handle c msgs s1 of
                  (s2, Inr _) \<Rightarrow> (fst (commit c msgs s2), None)
                | (s2, Inl _) \<Rightarrow> (fst (commit c msgs (fallback c msgs s2)), None))))"

fun consumer_Run :: "nat \<Rightarrow> 's consumer \<Rightarrow> 's \<Rightarrow> 's \<times> goerr option option" where
  "consumer_Run 0 c s = (s, None)"
| "consumer_Run (Suc n) c s =
     (case run_turn c s of (s', Some r) \<Rightarrow> (s', Some r) | (s', None) \<Rightarrow> consumer_Run n c s')"

section \<open>What happens to a fetched message\<close>

text \<open>
  The same consumer with its ports observed: the state carries the list of what was done. The
  observed run projects to the run of the consumer itself.
\<close>

datatype kafka_event = EvBatch "Message list" | EvOne Message | EvDead "(string \<times> string) list" bool | EvCommit "Message list"

definition observe :: "('s \<Rightarrow> 's \<times> 'r) \<Rightarrow> ('r \<Rightarrow> kafka_event list) \<Rightarrow> 's \<times> kafka_event list \<Rightarrow> ('s \<times> kafka_event list) \<times> 'r" where
  "observe f note_of st = (case f (fst st) of (s', res) \<Rightarrow> ((s', snd st @ note_of res), res))"

definition observed :: "'s consumer \<Rightarrow> ('s \<times> kafka_event list) consumer" where
  "observed c = \<lparr>
     cn_FetchMessage = (\<lambda>b. observe (cn_FetchMessage c b) (\<lambda>_. [])),
     cn_CommitMessages = (\<lambda>ms. observe (cn_CommitMessages c ms) (\<lambda>_. [EvCommit ms])),
     cn_dlq = (\<lambda>kvs. observe (cn_dlq c kvs) (\<lambda>res. [EvDead kvs (isl res)])),
     cn_Handle = (\<lambda>ms. observe (cn_Handle c ms) (\<lambda>res. if isl res then [] else [EvBatch ms])),
     cn_HandleOne = (\<lambda>m. observe (cn_HandleOne c m) (\<lambda>res. if isl res then [] else [EvOne m])),
     cn_marshalDLQ = cn_marshalDLQ c,
     cn_ctxErr = (\<lambda>st. cn_ctxErr c (fst st)),
     cn_BatchSize = cn_BatchSize c\<rparr>"

lemma observed_simps [simp]:
  "cn_FetchMessage (observed c) b = observe (cn_FetchMessage c b) (\<lambda>_. [])"
  "cn_CommitMessages (observed c) ms = observe (cn_CommitMessages c ms) (\<lambda>_. [EvCommit ms])"
  "cn_dlq (observed c) kvs = observe (cn_dlq c kvs) (\<lambda>res. [EvDead kvs (isl res)])"
  "cn_Handle (observed c) ms = observe (cn_Handle c ms) (\<lambda>res. if isl res then [] else [EvBatch ms])"
  "cn_HandleOne (observed c) m = observe (cn_HandleOne c m) (\<lambda>res. if isl res then [] else [EvOne m])"
  "cn_marshalDLQ (observed c) = cn_marshalDLQ c"
  "cn_ctxErr (observed c) st = cn_ctxErr c (fst st)"
  "cn_BatchSize (observed c) = cn_BatchSize c"
  by (simp_all add: observed_def)

text \<open>How a message was dealt with, according to a list of events.\<close>

definition accounted :: "kafka_event list \<Rightarrow> Message \<Rightarrow> bool" where
  "accounted tr m \<longleftrightarrow> EvOne m \<in> set tr \<or> (\<exists>ms. EvBatch ms \<in> set tr \<and> m \<in> set ms) \<or>
     (\<exists>b lost. EvDead [(msg_Key m, b)] lost \<in> set tr)"

lemma accounted_append: "accounted tr m \<Longrightarrow> accounted (tr @ tr') m"
  by (auto simp: accounted_def)

lemma fetch_loop_observed:
  "fetch_loop (observed c) n out (s, tr) =
     (case fetch_loop c n out s of (s', out', err) \<Rightarrow> ((s', tr), out', err))"
  by (induction n arbitrary: out s) (auto simp: observe_def split: prod.split sum.split)

lemma fallback_observed:
  "\<exists>tr'. fallback (observed c) ms (s, tr) = (fallback c ms s, tr @ tr') \<and> (\<forall>m\<in>set ms. accounted tr' m) \<and>
    (\<forall>ms'. EvCommit ms' \<notin> set tr')"
proof (induction ms arbitrary: s tr)
  case (Cons m ms)
  obtain s' res where one: "cn_HandleOne c m s = (s', res)" by (cases "cn_HandleOne c m s")
  show ?case
  proof (cases res)
    case (Inl err)
    let ?kvs = "[(msg_Key m, case MarshalForDLQ (cn_marshalDLQ c) m err of Inl _ \<Rightarrow> [] | Inr b \<Rightarrow> b)]"
    let ?ev = "EvDead ?kvs (isl (snd (cn_dlq c ?kvs s')))"
    obtain tr' where "fallback (observed c) ms (toDLQ c m err s', tr @ [?ev]) = (fallback c ms (toDLQ c m err s'), (tr @ [?ev]) @ tr')"
      and tr': "\<forall>m\<in>set ms. accounted tr' m" "\<forall>ms'. EvCommit ms' \<notin> set tr'"
      using Cons.IH by blast
    then have "fallback (observed c) (m # ms) (s, tr) = (fallback c (m # ms) s, tr @ (?ev # tr'))"
      using one Inl by (simp add: observe_def toDLQ_def case_prod_beta)
    moreover have "\<forall>m'\<in>set (m # ms). accounted (?ev # tr') m'"
      using tr'(1) by (auto simp: accounted_def)
    ultimately show ?thesis
      using tr'(2) by (intro exI [of _ "?ev # tr'"]) simp
  next
    case (Inr u)
    obtain tr' where "fallback (observed c) ms (s', tr @ [EvOne m]) = (fallback c ms s', (tr @ [EvOne m]) @ tr')"
      and tr': "\<forall>m\<in>set ms. accounted tr' m" "\<forall>ms'. EvCommit ms' \<notin> set tr'"
      using Cons.IH by blast
    then have "fallback (observed c) (m # ms) (s, tr) = (fallback c (m # ms) s, tr @ (EvOne m # tr'))"
      using one Inr by (simp add: observe_def)
    moreover have "\<forall>m'\<in>set (m # ms). accounted (EvOne m # tr') m'"
      using tr'(1) by (auto simp: accounted_def)
    ultimately show ?thesis
      using tr'(2) by (intro exI [of _ "EvOne m # tr'"]) simp
  qed
qed simp

definition commits_ok :: "kafka_event list \<Rightarrow> bool" where
  "commits_ok tr \<longleftrightarrow> (\<forall>tr1 ms tr2. tr = tr1 @ EvCommit ms # tr2 \<longrightarrow> (\<forall>m\<in>set ms. accounted tr1 m))"

lemma commits_ok_quiet:
  assumes "commits_ok tr" and "\<forall>ms. EvCommit ms \<notin> set tr'"
  shows "commits_ok (tr @ tr')"
  unfolding commits_ok_def
proof (intro allI impI)
  fix tr1 ms tr2
  assume "tr @ tr' = tr1 @ EvCommit ms # tr2"
  then consider us where "tr1 @ us = tr" "us @ tr' = EvCommit ms # tr2" | us where "tr1 = tr @ us" "tr' = us @ EvCommit ms # tr2"
    by (auto simp: append_eq_append_conv2)
  then show "\<forall>m\<in>set ms. accounted tr1 m"
  proof cases
    case 1
    with assms(2) obtain us' where "us = EvCommit ms # us'" by (cases us) auto
    with 1 assms(1) show ?thesis by (auto simp: commits_ok_def)
  qed (use assms(2) in auto)
qed

lemma commits_ok_commit:
  assumes "commits_ok tr" and "\<forall>m\<in>set ms. accounted tr m"
  shows "commits_ok (tr @ [EvCommit ms])"
  unfolding commits_ok_def
proof (intro allI impI)
  fix tr1 ms' tr2
  assume eq: "tr @ [EvCommit ms] = tr1 @ EvCommit ms' # tr2"
  show "\<forall>m\<in>set ms'. accounted tr1 m"
  proof (cases tr2 rule: rev_cases)
    case Nil
    with eq assms(2) show ?thesis by simp
  next
    case (snoc tr3 e)
    with eq have "tr = tr1 @ EvCommit ms' # tr3" by simp
    with assms(1) show ?thesis by (simp add: commits_ok_def)
  qed
qed

lemma run_turn_observed:
  "\<exists>tr'. run_turn (observed c) (s, tr) = ((fst (run_turn c s), tr @ tr'), snd (run_turn c s)) \<and>
    (commits_ok tr \<longrightarrow> commits_ok (tr @ tr'))"
proof (cases "cn_ctxErr c s")
  case (Some e)
  then show ?thesis by (auto simp: run_turn_def commit_def)
next
  case None
  obtain s1 msgs err where f: "fetch_loop c (cn_BatchSize c) [] s = (s1, msgs, err)"
    by (cases "fetch_loop c (cn_BatchSize c) [] s") auto
  show ?thesis
  proof (cases "err = None \<and> msgs \<noteq> []")
    case False
    then show ?thesis
      using None f by (cases err) (auto simp: run_turn_def commit_def fetchBatch_def fetch_loop_observed)
  next
    case True
    obtain s2 res where h: "cn_Handle c msgs s1 = (s2, res)" by (cases "cn_Handle c msgs s1")
    show ?thesis
    proof (cases res)
      case (Inr u)
      have "commits_ok tr \<longrightarrow> commits_ok ((tr @ [EvBatch msgs]) @ [EvCommit msgs])"
        by (intro impI commits_ok_commit commits_ok_quiet) (auto simp: accounted_def)
      then show ?thesis
        using None f True h Inr
        by (intro exI [of _ "[EvBatch msgs, EvCommit msgs]"])
          (simp add: run_turn_def commit_def fetchBatch_def fetch_loop_observed observe_def case_prod_beta)
    next
      case (Inl e)
      obtain tr' where fb: "fallback (observed c) msgs (s2, tr) = (fallback c msgs s2, tr @ tr')"
        and tr': "\<forall>m\<in>set msgs. accounted tr' m" "\<forall>ms'. EvCommit ms' \<notin> set tr'"
        using fallback_observed [of c msgs s2 tr] by blast
      have "\<forall>m\<in>set msgs. accounted (tr @ tr') m"
        using tr'(1) by (auto simp: accounted_def)
      then have "commits_ok tr \<longrightarrow> commits_ok ((tr @ tr') @ [EvCommit msgs])"
        using tr'(2) by (intro impI commits_ok_commit commits_ok_quiet) auto
      then show ?thesis
        using None f True h Inl fb
        by (intro exI [of _ "tr' @ [EvCommit msgs]"])
          (simp add: run_turn_def commit_def fetchBatch_def fetch_loop_observed observe_def case_prod_beta)
    qed
  qed
qed

lemma consumer_Run_observed:
  "\<exists>tr'. consumer_Run n (observed c) (s, tr) = ((fst (consumer_Run n c s), tr @ tr'), snd (consumer_Run n c s)) \<and>
    (commits_ok tr \<longrightarrow> commits_ok (tr @ tr'))"
proof (induction n arbitrary: s tr)
  case (Suc n)
  obtain tr1 where t: "run_turn (observed c) (s, tr) = ((fst (run_turn c s), tr @ tr1), snd (run_turn c s))"
    "commits_ok tr \<longrightarrow> commits_ok (tr @ tr1)"
    using run_turn_observed [of c s tr] by (elim exE conjE)
  show ?case
  proof (cases "snd (run_turn c s)")
    case None
    obtain tr2 where "consumer_Run n (observed c) (fst (run_turn c s), tr @ tr1) =
        ((fst (consumer_Run n c (fst (run_turn c s))), (tr @ tr1) @ tr2), snd (consumer_Run n c (fst (run_turn c s))))"
      "commits_ok (tr @ tr1) \<longrightarrow> commits_ok ((tr @ tr1) @ tr2)"
      using Suc.IH [of "fst (run_turn c s)" "tr @ tr1"] by (elim exE conjE)
    with t None show ?thesis
      by (intro exI [of _ "tr1 @ tr2"]) (cases "run_turn c s", simp)
  next
    case (Some r)
    with t show ?thesis by (intro exI [of _ tr1]) (cases "run_turn c s", simp)
  qed
qed simp

text \<open>C30. The batch consumer commits a message only after it was dealt with. Whatever the brokers and the handler do,
  observing the consumer does not change it, and when a batch is committed each of its messages has before
  been handled in a batch that succeeded, handled alone successfully, or handed to the dead-letter writer.\<close>

theorem consumer_commit_accounted:
  "\<exists>tr. consumer_Run n (observed c) (s, []) = ((fst (consumer_Run n c s), tr), snd (consumer_Run n c s)) \<and>
    (\<forall>tr1 ms tr2. tr = tr1 @ EvCommit ms # tr2 \<longrightarrow> (\<forall>m\<in>set ms. accounted tr1 m))"
  using consumer_Run_observed [of n c s "[]"] by (auto simp: commits_ok_def)

definition demo_msg :: "int \<Rightarrow> Message" where
  "demo_msg n = \<lparr>msg_Topic = ''payment.confirmed'', msg_Partition = 0, msg_Offset = n, msg_Key = ''o-1'', msg_Value = ''{}''\<rparr>"

text \<open>A reader that answers from a list, then reports cancellation; the handler refuses odd offsets.\<close>

definition demo_consumer :: "Message result list consumer" where
  "demo_consumer = \<lparr>
     cn_FetchMessage = (\<lambda>b rs. case rs of [] \<Rightarrow> ([], Inl (Sentinel Canceled)) | r # rs' \<Rightarrow> (rs', r)),
     cn_CommitMessages = (\<lambda>ms rs. (rs, Inr ())), cn_dlq = (\<lambda>kvs rs. (rs, Inr ())),
     cn_Handle = (\<lambda>ms rs. (rs, if list_ex (\<lambda>m. odd (msg_Offset m)) ms then Inl (ErrNew ''refused'') else Inr ())),
     cn_HandleOne = (\<lambda>m rs. (rs, if odd (msg_Offset m) then Inl (ErrNew ''refused'') else Inr ())),
     cn_marshalDLQ = (\<lambda>m e. Inr e), cn_ctxErr = (\<lambda>rs. None), cn_BatchSize = 2\<rparr>"

theorem consumer_commit_accounted_witness:
  "\<exists>tr. consumer_Run 3 (observed demo_consumer) ([Inr (demo_msg 0), Inr (demo_msg 1)], []) = (([], tr), Some None) \<and>
    tr = [EvOne (demo_msg 0), EvDead [(''o-1'', ''refused'')] False, EvCommit [demo_msg 0, demo_msg 1]] \<and>
    accounted [EvOne (demo_msg 0), EvDead [(''o-1'', ''refused'')] False] (demo_msg 1)"
proof -
  have run: "consumer_Run 3 (observed demo_consumer) ([Inr (demo_msg 0), Inr (demo_msg 1)], []) =
      (([], [EvOne (demo_msg 0), EvDead [(''o-1'', ''refused'')] False, EvCommit [demo_msg 0, demo_msg 1]]), Some None)"
    by (simp add: numeral_nat run_turn_def commit_def fetchBatch_def observed_def observe_def demo_consumer_def toDLQ_def
        MarshalForDLQ_def demo_msg_def)
  obtain tr where tr: "snd (fst (consumer_Run 3 (observed demo_consumer) ([Inr (demo_msg 0), Inr (demo_msg 1)], []))) = tr"
    and ok: "\<forall>tr1 ms tr2. tr = tr1 @ EvCommit ms # tr2 \<longrightarrow> (\<forall>m\<in>set ms. accounted tr1 m)"
    using consumer_commit_accounted [of 3 demo_consumer "[Inr (demo_msg 0), Inr (demo_msg 1)]"] by auto
  have "tr = [EvOne (demo_msg 0), EvDead [(''o-1'', ''refused'')] False] @ EvCommit [demo_msg 0, demo_msg 1] # []"
    using tr run by simp
  with ok have "accounted [EvOne (demo_msg 0), EvDead [(''o-1'', ''refused'')] False] (demo_msg 1)" by fastforce
  with run show ?thesis by simp
qed

text \<open>Messages that were already fetched are dropped when a later fetch of the same batch fails with anything but
  a cancellation or the deadline: the turn ends without handling, dead-lettering or committing them, and the
  loop goes on behind them.\<close>

theorem consumer_drops_fetched:
  assumes "cn_ctxErr c s = None" and "fetchBatch c s = (s1, msgs, Some err)"
    and "\<not> errors_Is err Canceled" and "\<not> errors_Is err DeadlineExceeded"
  shows "run_turn (observed c) (s, tr) = ((s1, tr), None)"
  using assms by (simp add: run_turn_def commit_def fetchBatch_def fetch_loop_observed)

theorem consumer_drops_fetched_witness:
  "run_turn (observed demo_consumer) ([Inr (demo_msg 0), Inl (ErrNew ''EOF''), Inr (demo_msg 2)], []) =
     (([Inr (demo_msg 2)], []), None) \<and>
   snd (fst (consumer_Run 4 (observed demo_consumer) ([Inr (demo_msg 0), Inl (ErrNew ''EOF''), Inr (demo_msg 2), Inr (demo_msg 4)], []))) =
     [EvBatch [demo_msg 2, demo_msg 4], EvCommit [demo_msg 2, demo_msg 4]]"
proof
  have "fetchBatch demo_consumer [Inr (demo_msg 0), Inl (ErrNew ''EOF''), Inr (demo_msg 2)] =
      ([Inr (demo_msg 2)], [demo_msg 0], Some (ErrNew ''EOF''))"
    by (simp add: fetchBatch_def demo_consumer_def numeral_nat)
  from consumer_drops_fetched [OF _ this, of "[]"]
  show "run_turn (observed demo_consumer) ([Inr (demo_msg 0), Inl (ErrNew ''EOF''), Inr (demo_msg 2)], []) =
      (([Inr (demo_msg 2)], []), None)"
    by (simp add: demo_consumer_def)
  show "snd (fst (consumer_Run 4 (observed demo_consumer) ([Inr (demo_msg 0), Inl (ErrNew ''EOF''), Inr (demo_msg 2), Inr (demo_msg 4)], []))) =
      [EvBatch [demo_msg 2, demo_msg 4], EvCommit [demo_msg 2, demo_msg 4]]"
    by (simp add: numeral_nat run_turn_def commit_def fetchBatch_def observed_def observe_def demo_consumer_def demo_msg_def)
qed

end
