(* ===== verification/Settlement.thy ===== *)
theory Settlement
  imports Kafka
begin

text \<open>
  \<^verbatim>\<open>internal/consumer/settlement_consumer.go\<close> and the merchant lookup of \<^verbatim>\<open>cmd/server/main.go\<close>: the
  handler of confirmed payments, which posts the event, signed with the secret of the merchant,
  to its callback URL, with a bounded number of attempts.
\<close>

section \<open>The handler\<close>

record MerchantCallback =
  cb_URL :: string
  cb_Secret :: string

record callback_request =
  rq_URL :: string
  rq_Timestamp :: string
  rq_Signature :: string
  rq_Body :: string

text \<open>
  \<open>sc_NewRequest\<close> is the parsing of the URL, \<open>sc_Do\<close> the HTTP round trip (the status code or a
  transport error), \<open>sc_wait\<close> the pause after a failed attempt, which a cancellation interrupts.
\<close>

record 's SettlementConsumer =
  sc_lookup :: "string \<Rightarrow> 's \<Rightarrow> 's \<times> MerchantCallback"
  sc_NewRequest :: "string \<Rightarrow> goerr option"
  sc_Do :: "callback_request \<Rightarrow> 's \<Rightarrow> 's \<times> int result"
  sc_wait :: "int \<Rightarrow> 's \<Rightarrow> 's \<times> goerr option"
  sc_clock :: "'s \<Rightarrow> int"
  sc_marshal :: "PaymentConfirmedEvent \<Rightarrow> string result"
  sc_unmarshal :: "string \<Rightarrow> PaymentConfirmedEvent result"
  sc_maxAttempts :: nat

definition callback_request_of :: "'s SettlementConsumer \<Rightarrow> string \<Rightarrow> string \<Rightarrow> string \<Rightarrow> 's \<Rightarrow> callback_request" where
  "callback_request_of sc url secret body s =
     (let ts = FormatInt (unix (sc_clock sc s))
      in \<lparr>rq_URL = url, rq_Timestamp = ts, rq_Signature = hmac_Sign secret (ts @ ''.'' @ body), rq_Body = body\<rparr>)"

definition sendOnce :: "'s SettlementConsumer \<Rightarrow> string \<Rightarrow> string \<Rightarrow> string \<Rightarrow> 's \<Rightarrow> 's \<times> unit result" where
  "sendOnce sc url secret body s =
     (case sc_NewRequest sc url of
        Some e \<Rightarrow> (s, Inl e)
      | None \<Rightarrow>
          (case sc_Do sc (callback_request_of sc url secret body s) s of
             (s', Inl e) \<Rightarrow> (s', Inl e)
           | (s', Inr status) \<Rightarrow>
               (s', if status < 200 \<or> status \<ge> 300
                    then Inl (ErrNew (''merchant returned status '' @ FormatInt status)) else Inr ())))"

text \<open>The loop over the attempts: \<open>n\<close> are left, \<open>err\<close> is the last error.\<close>

fun send_loop ::
  "'s SettlementConsumer \<Rightarrow> string \<Rightarrow> string \<Rightarrow> string \<Rightarrow> nat \<Rightarrow> int \<Rightarrow> goerr \<Rightarrow> 's \<Rightarrow> 's \<times> unit result" where
  "send_loop sc url secret body 0 attempt err s = (s, Inl (Wrapf ''merchant callback exhausted retries'' err))"
| "send_loop sc url secret body (Suc n) attempt err s =
     (case sendOnce sc url secret body s of
        (s1, Inr _) \<Rightarrow> (s1, Inr ())
      | (s1, Inl e) \<Rightarrow>
          (case sc_wait sc (attempt * 1000000000) s1 of
             (s2, Some ctxErr) \<Rightarrow> (s2, Inl ctxErr)
           | (s2, None) \<Rightarrow> send_loop sc url secret body n (attempt + 1) e s2))"

definition settle_HandleOne :: "'s SettlementConsumer \<Rightarrow> Message \<Rightarrow> 's \<Rightarrow> 's \<times> unit result" where
  "settle_HandleOne sc m s =
     (case sc_unmarshal sc (msg_Value m) of
        Inl e \<Rightarrow> (s, Inl (Wrapf ''decode confirmed event'' e))
      | Inr ev \<Rightarrow>
          (case sc_lookup sc (ev_MerchantID ev) s of (s1, cb) \<Rightarrow>
             (if cb_URL cb = [] then (s1, Inr ())
              else if cb_Secret cb = [] then (s1, Inl (ErrNew (''no secret for merchant '' @ ev_MerchantID ev)))
              else case sc_marshal sc ev of
                Inl e \<Rightarrow> (s1, Inl (Wrapf ''marshal callback body'' e))
              | Inr body \<Rightarrow> send_loop sc (cb_URL cb) (cb_Secret cb) body (sc_maxAttempts sc) 1 (ErrNew []) s1)))"

fun settle_Handle :: "'s SettlementConsumer \<Rightarrow> Message list \<Rightarrow> 's \<Rightarrow> 's \<times> unit result" where
  "settle_Handle sc [] s = (s, Inr ())"
| "settle_Handle sc (m # ms) s =
     (case settle_HandleOne sc m s of
        (s', Inl e) \<Rightarrow> (s', Inl e)
      | (s', Inr _) \<Rightarrow> settle_Handle sc ms s')"

text \<open>\<open>NewSettlementConsumer\<close> allows three attempts; \<open>NewBatch\<close> makes it the handler of a consumer with small batches.\<close>

definition NewSettlementConsumer :: "'s SettlementConsumer \<Rightarrow> 's SettlementConsumer" where
  "NewSettlementConsumer sc = sc\<lparr>sc_maxAttempts := 3\<rparr>"

definition NewBatch :: "'s SettlementConsumer \<Rightarrow> 's consumer \<Rightarrow> 's consumer" where
  "NewBatch sc c = (NewBatchConsumer c (settle_Handle sc) (settle_HandleOne sc))\<lparr>cn_BatchSize := 50\<rparr>"

text \<open>The lookup \<^verbatim>\<open>main.go\<close> passes in: every error of the repository reads as an empty callback.\<close>

definition merchantLookup ::
  "(string \<Rightarrow> 's \<Rightarrow> 's \<times> Merchant result) \<Rightarrow> string \<Rightarrow> 's \<Rightarrow> 's \<times> MerchantCallback" where
  "merchantLookup getByMerchantID merchantID s =
     (case getByMerchantID merchantID s of
        (s', Inl _) \<Rightarrow> (s', \<lparr>cb_URL = [], cb_Secret = []\<rparr>)
      | (s', Inr m) \<Rightarrow> (s', \<lparr>cb_URL = m_CallbackURL m, cb_Secret = m_SecretKey m\<rparr>))"

section \<open>What a merchant receives\<close>

text \<open>A round trip that also records the request and whether it was answered with a 2xx status.\<close>

definition logged :: "'s SettlementConsumer \<Rightarrow> ('s \<times> (callback_request \<times> bool) list) SettlementConsumer" where
  "logged sc = \<lparr>
     sc_lookup = (\<lambda>m st. case sc_lookup sc m (fst st) of (s', cb) \<Rightarrow> ((s', snd st), cb)),
     sc_NewRequest = sc_NewRequest sc,
     sc_Do = (\<lambda>rq st. case sc_Do sc rq (fst st) of (s', res) \<Rightarrow>
        ((s', snd st @ [(rq, case res of Inl _ \<Rightarrow> False | Inr status \<Rightarrow> 200 \<le> status \<and> status < 300)]), res)),
     sc_wait = (\<lambda>d st. case sc_wait sc d (fst st) of (s', e) \<Rightarrow> ((s', snd st), e)),
     sc_clock = (\<lambda>st. sc_clock sc (fst st)),
     sc_marshal = sc_marshal sc, sc_unmarshal = sc_unmarshal sc, sc_maxAttempts = sc_maxAttempts sc\<rparr>"

lemma sendOnce_logged:
  "sendOnce (logged sc) url secret body (s, tr) = (case sendOnce sc url secret body s of (s', res) \<Rightarrow>
     ((s', tr @ (if sc_NewRequest sc url = None then [(callback_request_of sc url secret body s, \<not> isl res)] else [])), res))"
  by (auto simp: sendOnce_def logged_def callback_request_of_def Let_def split: prod.split sum.split option.split)

text \<open>The requests of one delivery: the last one, and only it, is answered positively when the delivery succeeds.\<close>

definition delivery :: "string \<Rightarrow> string \<Rightarrow> string \<Rightarrow> bool \<Rightarrow> (callback_request \<times> bool) list \<Rightarrow> bool" where
  "delivery url secret body ok tr \<longleftrightarrow>
     (\<forall>(rq, _)\<in>set tr. rq_URL rq = url \<and> rq_Body rq = body \<and> hmac_Verify secret (rq_Timestamp rq @ ''.'' @ body) (rq_Signature rq)) \<and>
     (if ok then tr \<noteq> [] \<and> snd (last tr) \<and> (\<forall>(_, b)\<in>set (butlast tr). \<not> b) else (\<forall>(_, b)\<in>set tr. \<not> b))"

lemma delivery_failed_first:
  "delivery url secret body ok tr \<Longrightarrow>
   delivery url secret body ok ((callback_request_of sc url secret body s, False) # tr)"
  by (auto simp: delivery_def callback_request_of_def Let_def hm.verify_sign)

lemma send_loop_logged:
  "\<exists>tr'. send_loop (logged sc) url secret body n attempt err (s, tr) =
      ((fst (send_loop sc url secret body n attempt err s), tr @ tr'), snd (send_loop sc url secret body n attempt err s)) \<and>
    delivery url secret body (\<not> isl (snd (send_loop sc url secret body n attempt err s))) tr' \<and> length tr' \<le> n"
proof (induction n arbitrary: attempt err s tr)
  case 0
  show ?case by (simp add: delivery_def)
next
  case (Suc n)
  obtain s1 res where once: "sendOnce sc url secret body s = (s1, res)" by (cases "sendOnce sc url secret body s")
  let ?rq = "callback_request_of sc url secret body s"
  show ?case
  proof (cases res)
    case (Inr u)
    then have "sc_NewRequest sc url = None" using once by (auto simp: sendOnce_def split: option.splits)
    moreover have "delivery url secret body True [(?rq, True)]"
      by (simp add: delivery_def callback_request_of_def Let_def hm.verify_sign)
    ultimately show ?thesis
      using once Inr by (intro exI [of _ "[(?rq, True)]"]) (simp add: sendOnce_logged)
  next
    case (Inl e)
    define tr1 where "tr1 = (if sc_NewRequest sc url = None then [(?rq, False)] else [])"
    have len: "length tr1 \<le> 1" by (simp add: tr1_def)
    have add: "delivery url secret body ok tr' \<Longrightarrow> delivery url secret body ok (tr1 @ tr')" for ok tr'
      using delivery_failed_first [of url secret body ok tr' sc s] by (simp add: tr1_def)
    have log: "sendOnce (logged sc) url secret body (s, tr) = ((s1, tr @ tr1), Inl e)"
      using once Inl by (simp add: sendOnce_logged tr1_def)
    obtain s2 stop where w: "sc_wait sc (attempt * 1000000000) s1 = (s2, stop)" by (cases "sc_wait sc (attempt * 1000000000) s1")
    show ?thesis
    proof (cases stop)
      case (Some ctxErr)
      have "delivery url secret body False []" by (simp add: delivery_def)
      from add [OF this] show ?thesis
        using once Inl w Some log len by (intro exI [of _ tr1]) (simp add: logged_def)
    next
      case None
      obtain tr2 where "send_loop (logged sc) url secret body n (attempt + 1) e (s2, tr @ tr1) =
          ((fst (send_loop sc url secret body n (attempt + 1) e s2), (tr @ tr1) @ tr2),
           snd (send_loop sc url secret body n (attempt + 1) e s2))"
        and d: "delivery url secret body (\<not> isl (snd (send_loop sc url secret body n (attempt + 1) e s2))) tr2" "length tr2 \<le> n"
        using Suc.IH [of "attempt + 1" e s2 "tr @ tr1"] by (elim exE conjE)
      then show ?thesis
        using once Inl w None log len add [OF d(1)]
        by (intro exI [of _ "tr1 @ tr2"]) (simp add: logged_def)
    qed
  qed
qed


text \<open>A server that fails twice and then answers 204.\<close>

definition demo_event_msg :: PaymentConfirmedEvent where
  "demo_event_msg = \<lparr>ev_OrderID = ''o-1'', ev_MerchantID = ''M1'', ev_Status = TransactionStatusPaid,
     ev_StripePaymentIntentID = ''pi_1'', ev_Amount = 1500, ev_Currency = ''USD'', ev_ConfirmedAt = 0\<rparr>"

definition demo_settle :: "nat SettlementConsumer" where
  "demo_settle = \<lparr>sc_lookup = (\<lambda>m n. (n, \<lparr>cb_URL = ''https://shop.test/cb'', cb_Secret = ''k''\<rparr>)),
     sc_NewRequest = (\<lambda>u. None), sc_Do = (\<lambda>rq n. (Suc n, Inr (if n < 2 then 503 else 204))),
     sc_wait = (\<lambda>d n. (n, None)), sc_clock = (\<lambda>n. int n * 1000000000),
     sc_marshal = (\<lambda>ev. Inr (ev_OrderID ev)), sc_unmarshal = (\<lambda>v. Inr demo_event_msg), sc_maxAttempts = 0\<rparr>"

lemma demo_settle_ports:
  "sc_unmarshal demo_settle v = Inr demo_event_msg"
  "sc_lookup demo_settle mid n = (n, \<lparr>cb_URL = ''https://shop.test/cb'', cb_Secret = ''k''\<rparr>)"
  "sc_marshal demo_settle demo_event_msg = Inr ''o-1''"
  by (simp_all add: demo_settle_def demo_event_msg_def)


text \<open>A lookup that fails loses the notification: with the merchant lookup of the server, an error of the
  merchant repository (a database that is briefly unavailable as well as an unknown merchant) makes the
  handler report success without any request, so the consumer commits the message.\<close>

theorem settlement_lookup_error:
  assumes "sc_unmarshal sc (msg_Value m) = Inr ev" and "sc_lookup sc = merchantLookup getByMerchantID"
    and "getByMerchantID (ev_MerchantID ev) s = (s', Inl e)"
  shows "settle_HandleOne sc m s = (s', Inr ()) \<and> settle_Handle sc [m] s = (s', Inr ())"
  using assms by (simp add: settle_HandleOne_def merchantLookup_def)

definition demo_lookup :: "merchant_store SettlementConsumer" where
  "demo_lookup = \<lparr>sc_lookup = merchantLookup (GetByMerchantID (demo_env\<lparr>env_fault := (\<lambda>n p. Some (ErrNew ''bad connection''))\<rparr>) demo_router),
     sc_NewRequest = (\<lambda>u. None), sc_Do = (\<lambda>rq s. (s, Inr 204)), sc_wait = (\<lambda>d s. (s, None)), sc_clock = (\<lambda>s. 0),
     sc_marshal = (\<lambda>ev. Inr []), sc_unmarshal = (\<lambda>v. Inr demo_event_msg), sc_maxAttempts = 3\<rparr>"

theorem settlement_lookup_error_witness:
  "\<exists>s'. settle_Handle demo_lookup [demo_msg 0] (demo_mstore [demo_merchant ''M1'']) = (s', Inr ())"
proof -
  let ?get = "GetByMerchantID (demo_env\<lparr>env_fault := (\<lambda>n p. Some (ErrNew ''bad connection''))\<rparr>) demo_router"
  have "\<exists>s' e. ?get (ev_MerchantID demo_event_msg) (demo_mstore [demo_merchant ''M1'']) = (s', Inl e)"
    by (simp add: GetByMerchantID_def query_merchant_def scanMerchant_def lru_get_def newLRUCache_def demo_mstore_def)
  then show ?thesis
    using settlement_lookup_error [of demo_lookup "demo_msg 0" demo_event_msg ?get] by (auto simp: demo_lookup_def)
qed

end
