(* ===== verification/WebhookService.thy ===== *)
theory WebhookService
  imports PaymentService Kafka
begin

text \<open>
  \<^verbatim>\<open>internal/service/webhook_service.go\<close>: the processing of Stripe webhooks and the refund request of a
  merchant. The service is written over the ports it is constructed with; \<open>wh_decode\<close> is
  \<^verbatim>\<open>json.Unmarshal\<close> into the object of the event. The locale \<open>webhook_ports\<close> collects what the
  handlers rely on, and \<open>wh\<close> interprets it on the gateway: the repositories, Redis and Kafka
  models on one state, with a Stripe client on the rest of it.
\<close>

section \<open>Ports and inputs\<close>

record 's MerchantRepository =
  mr_GetByAPIKey :: "string \<Rightarrow> 's \<Rightarrow> 's \<times> Merchant result"
  mr_GetByMerchantID :: "string \<Rightarrow> 's \<Rightarrow> 's \<times> Merchant result"
  mr_Insert :: "Merchant \<Rightarrow> 's \<Rightarrow> 's \<times> Merchant \<times> unit result"

record stripeObject =
  so_ID :: string
  so_Object :: string
  so_Amount :: int
  so_AmountTotal :: int
  so_Currency :: string
  so_Status :: string
  so_Metadata :: "(string \<times> string) list"
  so_PaymentIntent :: string
  so_LatestCharge :: string
  so_Charge :: string
  so_Refunded :: bool

record 's webhookService =
  wh_stripe :: "'s StripeClient"
  wh_repo :: "'s TransactionRepository"
  wh_merchants :: "'s MerchantRepository"
  wh_publisher :: "'s EventPublisher"
  wh_SetNX :: "string \<Rightarrow> string \<Rightarrow> int \<Rightarrow> 's \<Rightarrow> 's \<times> bool result"
  wh_webhookSecret :: string
  wh_decode :: "string \<Rightarrow> stripeObject result"
  wh_clock :: "'s \<Rightarrow> int"

text \<open>Reading a missing key of a Go map gives the empty string.\<close>

definition meta :: "stripeObject \<Rightarrow> string \<Rightarrow> string" where
  "meta o' k = (case map_of (so_Metadata o') k of None \<Rightarrow> [] | Some v \<Rightarrow> v)"

section \<open>Handlers\<close>

definition resolveShard :: "'s webhookService \<Rightarrow> string \<Rightarrow> 's \<Rightarrow> 's \<times> uint8 result" where
  "resolveShard ws merchantID s =
     (case mr_GetByMerchantID (wh_merchants ws) merchantID s of
        (s', Inl e) \<Rightarrow> (s', Inl (Wrapf (''resolve merchant '' @ merchantID) e))
      | (s', Inr m) \<Rightarrow> (s', Inr (m_ShardIndex m)))"

definition decodeStripeObject :: "'s webhookService \<Rightarrow> string \<Rightarrow> stripeObject result" where
  "decodeStripeObject ws b = (case wh_decode ws b of Inl e \<Rightarrow> Inl (Wrapf ''decode object'' e) | Inr o' \<Rightarrow> Inr o')"

definition intent_of :: "stripeObject \<Rightarrow> string" where
  "intent_of o' =
     (if so_PaymentIntent o' = [] \<and> so_Object o' = ''payment_intent'' then so_ID o' else so_PaymentIntent o')"

definition confirmed_event :: "Transaction \<Rightarrow> string \<Rightarrow> int \<Rightarrow> PaymentConfirmedEvent" where
  "confirmed_event order status now =
     \<lparr>ev_OrderID = t_OrderID order, ev_MerchantID = t_MerchantID order, ev_Status = status,
      ev_StripePaymentIntentID = t_StripePaymentIntentID order, ev_Amount = t_Amount order,
      ev_Currency = t_Currency order, ev_ConfirmedAt = unix now\<rparr>"

definition update_error :: "string \<Rightarrow> string \<Rightarrow> goerr \<Rightarrow> goerr" where
  "update_error orderID ctx e =
     (if errors_Is e ErrNotFound then Wrapf orderID (Sentinel ErrWebhookOrderMissing) else Wrapf ctx e)"

text \<open>The end of \<open>handleSucceeded\<close> and of \<open>handleRefunded\<close>: update, read back, publish.\<close>

definition settle_order ::
  "'s webhookService \<Rightarrow> string \<Rightarrow> uint8 \<Rightarrow> string \<Rightarrow> string \<Rightarrow> string \<Rightarrow> string \<Rightarrow> 's \<Rightarrow> 's \<times> unit result" where
  "settle_order ws ctx shardIdx merchantID orderID status piID s =
     (case tr_UpdateStatus (wh_repo ws) shardIdx merchantID orderID status piID s of
        (s1, Inl e) \<Rightarrow> (s1, Inl (update_error orderID ctx e))
      | (s1, Inr _) \<Rightarrow>
          (case tr_GetByMerchantOrderID (wh_repo ws) shardIdx merchantID orderID s1 of
             (s2, Inl e) \<Rightarrow> (s2, Inl (Wrapf ''load order'' e))
           | (s2, Inr order) \<Rightarrow>
               ep_PublishPaymentConfirmed (wh_publisher ws) (confirmed_event order status (wh_clock ws s2)) s2))"

definition cross_check :: "'s webhookService \<Rightarrow> string \<Rightarrow> 's \<Rightarrow> 's \<times> unit result" where
  "cross_check ws piID s =
     (if piID = [] then (s, Inr ())
      else case st_GetPaymentIntent (wh_stripe ws) piID s of
        (s', Inl e) \<Rightarrow> (s', Inl (Wrapf ''cross-check payment intent'' e))
      | (s', Inr intent) \<Rightarrow>
          (s', if pi_Status intent \<noteq> ''succeeded''
               then Inl (ErrNew (''cross-check: pi '' @ pi_ID intent @ '' status='' @ pi_Status intent @ '', not succeeded''))
               else Inr ()))"

definition handleSucceeded :: "'s webhookService \<Rightarrow> Event \<Rightarrow> 's \<Rightarrow> 's \<times> unit result" where
  "handleSucceeded ws e s =
     (case decodeStripeObject ws (ev_Data e) of
        Inl err \<Rightarrow> (s, Inl err)
      | Inr o' \<Rightarrow>
          (let orderID = meta o' ''order_id''; merchantID = meta o' ''merchant_id''; piID = intent_of o'
           in if orderID = [] \<or> merchantID = []
              then (s, Inl (ErrNew (''event '' @ ev_ID e @ '' missing metadata.order_id or merchant_id'')))
              else case cross_check ws piID s of
                (s1, Inl err) \<Rightarrow> (s1, Inl err)
              | (s1, Inr _) \<Rightarrow>
                  (case resolveShard ws merchantID s1 of
                     (s2, Inl err) \<Rightarrow> (s2, Inl err)
                   | (s2, Inr shardIdx) \<Rightarrow>
                       settle_order ws ''update order'' shardIdx merchantID orderID TransactionStatusPaid piID s2)))"

definition handleFailed :: "'s webhookService \<Rightarrow> Event \<Rightarrow> 's \<Rightarrow> 's \<times> unit result" where
  "handleFailed ws e s =
     (case decodeStripeObject ws (ev_Data e) of
        Inl err \<Rightarrow> (s, Inl err)
      | Inr o' \<Rightarrow>
          (let orderID = meta o' ''order_id''; merchantID = meta o' ''merchant_id''; piID = intent_of o'
           in if orderID = [] \<or> merchantID = []
              then (s, Inl (ErrNew (''event '' @ ev_ID e @ '' missing metadata.order_id or merchant_id'')))
              else case resolveShard ws merchantID s of
                (s1, Inl err) \<Rightarrow> (s1, Inl err)
              | (s1, Inr shardIdx) \<Rightarrow>
                  (case tr_UpdateStatus (wh_repo ws) shardIdx merchantID orderID TransactionStatusFailed piID s1 of
                     (s2, Inl err) \<Rightarrow> (s2, Inl (update_error orderID ''update order failed'' err))
                   | (s2, Inr _) \<Rightarrow> (s2, Inr ()))))"

text \<open>Which order a refund event is about: its metadata, or the row with its payment intent, whose shard is known.\<close>

definition refund_target ::
  "'s webhookService \<Rightarrow> stripeObject \<Rightarrow> string \<Rightarrow> 's \<Rightarrow> 's \<times> string \<times> string \<times> uint8 option" where
  "refund_target ws o' piID s =
     (let orderID = meta o' ''order_id''; merchantID = meta o' ''merchant_id''
      in if (orderID = [] \<or> merchantID = []) \<and> piID \<noteq> []
         then (case tr_GetByPaymentIntentID (wh_repo ws) piID s of
                 (s', Inr found) \<Rightarrow> (s', t_OrderID found, t_MerchantID found, Some (t_ShardIndex found))
               | (s', Inl _) \<Rightarrow> (s', orderID, merchantID, None))
         else (s, orderID, merchantID, None))"

definition handleRefunded :: "'s webhookService \<Rightarrow> Event \<Rightarrow> 's \<Rightarrow> 's \<times> unit result" where
  "handleRefunded ws e s =
     (case decodeStripeObject ws (ev_Data e) of
        Inl err \<Rightarrow> (s, Inl err)
      | Inr o' \<Rightarrow>
          (let piID = (if so_PaymentIntent o' = [] then meta o' ''payment_intent'' else so_PaymentIntent o')
           in case refund_target ws o' piID s of (s1, orderID, merchantID, shard) \<Rightarrow>
             (if orderID = [] \<or> merchantID = []
              then (s1, Inl (ErrNew (''event '' @ ev_ID e @ '' missing order_id/merchant_id and unresolvable'')))
              else case (case shard of Some i \<Rightarrow> (s1, Inr i) | None \<Rightarrow> resolveShard ws merchantID s1) of
                (s2, Inl err) \<Rightarrow> (s2, Inl err)
              | (s2, Inr shardIdx) \<Rightarrow>
                  settle_order ws ''update order refunded'' shardIdx merchantID orderID TransactionStatusRefunded piID s2)))"

definition dispatch :: "'s webhookService \<Rightarrow> Event \<Rightarrow> 's \<Rightarrow> 's \<times> unit result" where
  "dispatch ws event s =
     (if ev_Type event = ''payment_intent.succeeded'' \<or> ev_Type event = ''checkout.session.completed''
      then handleSucceeded ws event s
      else if ev_Type event = ''payment_intent.payment_failed'' then handleFailed ws event s
      else if ev_Type event = ''charge.refunded'' then handleRefunded ws event s
      else (s, Inr ()))"

definition Process :: "'s webhookService \<Rightarrow> string \<Rightarrow> string \<Rightarrow> 's \<Rightarrow> 's \<times> unit result" where
  "Process ws payload sigHeader s =
     (case st_VerifyWebhookSignature (wh_stripe ws) payload sigHeader (wh_webhookSecret ws) s of
        Inl e \<Rightarrow> (s, Inl (Wrapf ''verify signature'' e))
      | Inr event \<Rightarrow>
          (case wh_SetNX ws (''webhook:'' @ ev_ID event) ''1'' (24 * 3600 * 1000000000) s of
             (s1, Inl e) \<Rightarrow> (s1, Inl (Wrapf ''dedup setnx'' e))
           | (s1, Inr ok) \<Rightarrow> if \<not> ok then (s1, Inl (Sentinel ErrWebhookDuplicate)) else dispatch ws event s1))"

section \<open>Refunds\<close>

record RefundInput =
  ri_Merchant :: "Merchant option"
  ri_OrderID :: string
  ri_Amount :: int
  ri_Reason :: string
  ri_IdemKey :: string

record RefundResult =
  rr_OrderID :: string
  rr_RefundID :: string
  rr_Status :: string
  rr_Amount :: int
  rr_Currency :: string

definition refund_request :: "Transaction \<Rightarrow> RefundInput \<Rightarrow> CreateRefundRequest" where
  "refund_request order inp =
     \<lparr>cr_PaymentIntentID = t_StripePaymentIntentID order, cr_Amount = ri_Amount inp,
      cr_Reason = TrimSpace (ri_Reason inp),
      cr_Metadata = [(''order_id'', t_OrderID order), (''merchant_id'', t_MerchantID order)]\<rparr>"

definition CreateRefund :: "'s webhookService \<Rightarrow> RefundInput \<Rightarrow> 's \<Rightarrow> 's \<times> RefundResult result" where
  "CreateRefund ws inp s =
     (case ri_Merchant inp of
        None \<Rightarrow> (s, Inl (ErrNew ''merchant + order_id required''))
      | Some m \<Rightarrow>
          if ri_OrderID inp = [] then (s, Inl (ErrNew ''merchant + order_id required''))
          else case tr_GetByMerchantOrderID (wh_repo ws) (m_ShardIndex m) (m_MerchantID m) (ri_OrderID inp) s of
            (s1, Inl e) \<Rightarrow> (s1, Inl (Wrapf ''load order'' e))
          | (s1, Inr order) \<Rightarrow>
              if t_StripePaymentIntentID order = []
              then (s1, Inl (ErrNew ''order has no associated payment intent (crypto refunds not supported)''))
              else (case st_CreateRefund (wh_stripe ws) (refund_request order inp)
                           (if ri_IdemKey inp = [] then ''refund:'' @ t_OrderID order else ri_IdemKey inp) s1 of
                      (s2, Inl e) \<Rightarrow> (s2, Inl (Wrapf ''stripe refund'' e))
                    | (s2, Inr r) \<Rightarrow>
                        (s2, Inr \<lparr>rr_OrderID = t_OrderID order, rr_RefundID = rf_ID r, rr_Status = rf_Status r,
                                  rr_Amount = rf_Amount r, rr_Currency = rf_Currency r\<rparr>)))"

section \<open>What the handlers leave alone\<close>

text \<open>A relation every port used by the handlers keeps is kept by the handlers.\<close>

locale webhook_frame =
  fixes ws :: "'s webhookService" and kept :: "'s \<Rightarrow> 's \<Rightarrow> bool"
  assumes kept_refl: "kept s s"
    and kept_trans: "kept s t \<Longrightarrow> kept t u \<Longrightarrow> kept s u"
    and kept_merchant: "kept s (fst (mr_GetByMerchantID (wh_merchants ws) mid s))"
    and kept_intent: "kept s (fst (st_GetPaymentIntent (wh_stripe ws) x s))"
    and kept_update: "kept s (fst (tr_UpdateStatus (wh_repo ws) i mid oid st x s))"
    and kept_order: "kept s (fst (tr_GetByMerchantOrderID (wh_repo ws) i mid oid s))"
    and kept_by_intent: "kept s (fst (tr_GetByPaymentIntentID (wh_repo ws) x s))"
    and kept_publish: "kept s (fst (ep_PublishPaymentConfirmed (wh_publisher ws) ev s))"
begin

lemma kept_port: "kept s (fst (f s)) \<Longrightarrow> f s = (s', res) \<Longrightarrow> kept s s'"
  by simp

lemmas kept_ports =
  kept_port [where f = "mr_GetByMerchantID (wh_merchants ws) mid" for mid, OF kept_merchant]
  kept_port [where f = "st_GetPaymentIntent (wh_stripe ws) x" for x, OF kept_intent]
  kept_port [where f = "tr_UpdateStatus (wh_repo ws) i mid oid st x" for i mid oid st x, OF kept_update]
  kept_port [where f = "tr_GetByMerchantOrderID (wh_repo ws) i mid oid" for i mid oid, OF kept_order]
  kept_port [where f = "tr_GetByPaymentIntentID (wh_repo ws) x" for x, OF kept_by_intent]

lemma kept_resolve: "resolveShard ws mid s = (s', res) \<Longrightarrow> kept s s'"
  by (auto simp: resolveShard_def split: prod.splits sum.splits dest: kept_ports)

lemma kept_check: "cross_check ws x s = (s', res) \<Longrightarrow> kept s s'"
  by (auto simp: cross_check_def kept_refl split: prod.splits sum.splits if_splits dest: kept_ports)

lemma kept_settle: "kept s (fst (settle_order ws ctx i mid oid st x s))"
  by (auto simp: settle_order_def split: prod.split sum.split dest!: kept_ports; meson kept_trans kept_publish)

lemma kept_target: "refund_target ws o' x s = (s', res) \<Longrightarrow> kept s s'"
  by (auto simp: refund_target_def kept_refl Let_def split: prod.splits sum.splits if_splits dest: kept_ports)

lemmas kept_steps = kept_resolve kept_check kept_target kept_ports

lemma kept_succeeded: "kept s (fst (handleSucceeded ws e s))"
  by (auto simp: handleSucceeded_def kept_refl Let_def split: prod.split sum.split dest!: kept_steps;
      meson kept_trans kept_settle)

lemma kept_failed: "kept s (fst (handleFailed ws e s))"
  by (auto simp: handleFailed_def kept_refl Let_def split: prod.split sum.split dest!: kept_steps; meson kept_trans)

lemma kept_refunded: "kept s (fst (handleRefunded ws e s))"
  by (auto simp: handleRefunded_def kept_refl Let_def split: prod.split sum.split option.split dest!: kept_steps;
      meson kept_trans kept_settle)

lemma kept_dispatch: "kept s (fst (dispatch ws e s))"
  by (simp add: dispatch_def kept_succeeded kept_failed kept_refunded kept_refl)

end

section \<open>The wiring of the server\<close>

text \<open>A Stripe client that sees one part of the state.\<close>

definition lift_port :: "('s \<Rightarrow> 'x) \<Rightarrow> ('x \<Rightarrow> 's \<Rightarrow> 's) \<Rightarrow> ('x \<Rightarrow> 'x \<times> 'a) \<Rightarrow> 's \<Rightarrow> 's \<times> 'a" where
  "lift_port get put f s = (case f (get s) of (x, res) \<Rightarrow> (put x s, res))"

definition lift_client :: "('s \<Rightarrow> 'x) \<Rightarrow> ('x \<Rightarrow> 's \<Rightarrow> 's) \<Rightarrow> 'x StripeClient \<Rightarrow> 's StripeClient" where
  "lift_client get put c = \<lparr>
     st_CreateCheckoutSession = (\<lambda>req key. lift_port get put (st_CreateCheckoutSession c req key)),
     st_CreatePaymentIntent = (\<lambda>req key. lift_port get put (st_CreatePaymentIntent c req key)),
     st_GetPaymentIntent = (\<lambda>x. lift_port get put (st_GetPaymentIntent c x)),
     st_GetCheckoutSession = (\<lambda>x. lift_port get put (st_GetCheckoutSession c x)),
     st_CreateRefund = (\<lambda>req key. lift_port get put (st_CreateRefund c req key)),
     st_VerifyWebhookSignature = (\<lambda>p h k s. st_VerifyWebhookSignature c p h k (get s))\<rparr>"

definition gateway_stripe :: "'x StripeClient \<Rightarrow> 'x gateway_scheme StripeClient" where
  "gateway_stripe = lift_client gateway.more (\<lambda>x. gateway.more_update (\<lambda>_. x))"

definition NewMerchantRepository :: "db_env \<Rightarrow> nat multiShardRouter \<Rightarrow> uint8 \<Rightarrow> 'a merchant_store_scheme MerchantRepository" where
  "NewMerchantRepository env r L =
     \<lparr>mr_GetByAPIKey = GetByAPIKey env r, mr_GetByMerchantID = GetByMerchantID env r, mr_Insert = merchant_Insert env r L\<rparr>"

record 'x wiring =
  w_env :: db_env
  w_router :: "nat multiShardRouter"
  w_redis :: redis_env
  w_marshal :: "PaymentConfirmedEvent \<Rightarrow> string result"
  w_kafka :: "nat \<Rightarrow> goerr option"
  w_client :: "'x StripeClient"
  w_secret :: string
  w_decode :: "string \<Rightarrow> stripeObject result"

definition NewWebhookService :: "'x wiring \<Rightarrow> 'x gateway_scheme webhookService" where
  "NewWebhookService w = \<lparr>
     wh_stripe = gateway_stripe (w_client w),
     wh_repo = NewTransactionRepository (w_env w) (w_router w),
     wh_merchants = NewMerchantRepository (w_env w) (w_router w) (router_LogicalCount (w_router w)),
     wh_publisher = NewPublisher (w_marshal w) (w_kafka w),
     wh_SetNX = SetNX (w_redis w),
     wh_webhookSecret = w_secret w,
     wh_decode = w_decode w,
     wh_clock = (\<lambda>s. env_clock (w_env w) (stmts s))\<rparr>"

lemma NewWebhookService_simps [simp]:
  "wh_stripe (NewWebhookService w) = gateway_stripe (w_client w)"
  "wh_repo (NewWebhookService w) = NewTransactionRepository (w_env w) (w_router w)"
  "mr_GetByMerchantID (wh_merchants (NewWebhookService w)) = GetByMerchantID (w_env w) (w_router w)"
  "ep_PublishPaymentConfirmed (wh_publisher (NewWebhookService w)) = PublishPaymentConfirmed (w_marshal w) (WriteMessages (w_kafka w))"
  "wh_SetNX (NewWebhookService w) = SetNX (w_redis w)"
  "wh_webhookSecret (NewWebhookService w) = w_secret w"
  "wh_decode (NewWebhookService w) = w_decode w"
  by (simp_all add: NewWebhookService_def NewMerchantRepository_def NewPublisher_def)

text \<open>Which parts of the state an operation can touch.\<close>

definition row_fixed :: "txn_row \<Rightarrow> string \<times> string \<times> string \<times> uint64 \<times> uint16 \<times> uint8 \<times> string option \<times> int" where
  "row_fixed row = (row_merchant_id row, row_transaction_id row, row_order_id row, row_amount row, row_currency_code row,
     row_payment_method row, row_stripe_session row, row_created_at row)"

definition row_kept :: "txn_row \<Rightarrow> txn_row \<Rightarrow> bool" where
  "row_kept row row' \<longleftrightarrow>
     row_fixed row' = row_fixed row \<and> (row_stripe_pi_id row' = None \<longrightarrow> row_stripe_pi_id row = None)"

definition rows_kept :: "'x gateway_scheme \<Rightarrow> 'x gateway_scheme \<Rightarrow> bool" where
  "rows_kept s s' \<longleftrightarrow> (\<forall>p. list_all2 row_kept (tables s p) (tables s' p)) \<and> merchants s' = merchants s"

lemma row_kept_refl [simp]: "row_kept row row"
  by (simp add: row_kept_def)

lemma row_kept_trans: "row_kept a b \<Longrightarrow> row_kept b c \<Longrightarrow> row_kept a c"
  by (auto simp: row_kept_def)

lemma rows_kept_refl: "rows_kept s s"
  by (simp add: rows_kept_def list_all2_refl)

lemma rows_kept_trans: "rows_kept s t \<Longrightarrow> rows_kept t u \<Longrightarrow> rows_kept s u"
  unfolding rows_kept_def by (metis list_all2_trans [where ?P1.0 = row_kept and ?P2.0 = row_kept] row_kept_trans)

lemma rows_kept_same: "tables s' = tables s \<Longrightarrow> merchants s' = merchants s \<Longrightarrow> rows_kept s s'"
  by (simp add: rows_kept_def list_all2_refl)

lemma row_kept_status: "row_kept row (row\<lparr>row_status := st, row_updated_at := now, row_stripe_pi_id := coalesce x (row_stripe_pi_id row)\<rparr>)"
  by (simp add: row_kept_def row_fixed_def coalesce_def)

lemma list_all2_map_if: "(\<And>x. R x x) \<Longrightarrow> (\<And>x. R x (f x)) \<Longrightarrow> list_all2 R xs (map (\<lambda>x. if P x then f x else x) xs)"
  by (simp add: list_all2_map2 list_all2_refl)

lemma UpdateStatus_rows: "rows_kept s (fst (UpdateStatus env r i mid oid st x s))"
  by (auto simp: UpdateStatus_def exec_update_def rows_kept_def step_store_def Let_def list_all2_refl row_kept_status
      intro!: list_all2_map_if split: sum.split option.split)

lemma UpdateStatus_frame [simp]:
  "merchants (fst (UpdateStatus env r i mid oid st x s)) = merchants s"
  "mcache (fst (UpdateStatus env r i mid oid st x s)) = mcache s"
  by (simp_all add: UpdateStatus_def exec_update_def step_store_def Let_def split: sum.split option.split)

lemma UpdateStatus_gateway [simp]:
  "rd_db (fst (UpdateStatus env r i mid oid st x s)) = rd_db s"
  "rd_calls (fst (UpdateStatus env r i mid oid st x s)) = rd_calls s"
  "topic (fst (UpdateStatus env r i mid oid st x s)) = topic s"
  "writes (fst (UpdateStatus env r i mid oid st x s)) = writes s"
  "gateway.more (fst (UpdateStatus env r i mid oid st x s)) = gateway.more s"
  by (simp_all add: UpdateStatus_def exec_update_def step_store_def Let_def split: sum.split option.split)

lemma step_store_gateway [simp]:
  "merchants (step_store s) = merchants s" "rd_db (step_store s) = rd_db s" "rd_calls (step_store s) = rd_calls s"
  "topic (step_store s) = topic s" "writes (step_store s) = writes s" "gateway.more (step_store s) = gateway.more s"
  by (simp_all add: step_store_def)

lemma GetByMerchantID_gateway [simp]:
  "tables (fst (GetByMerchantID env r mid s)) = tables s"
  "merchants (fst (GetByMerchantID env r mid s)) = merchants s"
  "rd_db (fst (GetByMerchantID env r mid s)) = rd_db s"
  "rd_calls (fst (GetByMerchantID env r mid s)) = rd_calls s"
  "topic (fst (GetByMerchantID env r mid s)) = topic s"
  "writes (fst (GetByMerchantID env r mid s)) = writes s"
  "gateway.more (fst (GetByMerchantID env r mid s)) = gateway.more s"
  by (simp_all add: GetByMerchantID_def query_merchant_def step_store_def split: prod.split option.split sum.split)

lemma reads_gateway:
  "fst (GetByMerchantOrderID env r i mid oid s) \<in> {s, step_store s}"
  "fst (GetByPaymentIntentID env r x s) \<in> {s, step_store s}"
  "fst (GetByTransactionID env r i mid tid s) \<in> {s, step_store s}"
  by (auto simp: GetByMerchantOrderID_def GetByPaymentIntentID_def GetByTransactionID_def scatterFirst_def query_row_def
      Let_def split: sum.split)

lemma reads_frame:
  assumes "\<And>s. f (step_store s) = f s"
  shows "f (fst (GetByMerchantOrderID env r i mid oid s)) = f s"
    "f (fst (GetByPaymentIntentID env r x s)) = f s"
    "f (fst (GetByTransactionID env r i mid tid s)) = f s"
  using reads_gateway [where env = env and r = r] assms by (metis empty_iff insert_iff)+

lemmas reads_fields [simp] =
  reads_frame [where f = tables, OF tables_step_store]
  reads_frame [where f = merchants, OF step_store_gateway(1)]
  reads_frame [where f = rd_db, OF step_store_gateway(2)]
  reads_frame [where f = rd_calls, OF step_store_gateway(3)]
  reads_frame [where f = topic, OF step_store_gateway(4)]
  reads_frame [where f = writes, OF step_store_gateway(5)]
  reads_frame [where f = gateway.more, OF step_store_gateway(6)]

lemma publish_gateway [simp]:
  "tables (fst (PublishPaymentConfirmed marshal (WriteMessages faults) ev s)) = tables s"
  "merchants (fst (PublishPaymentConfirmed marshal (WriteMessages faults) ev s)) = merchants s"
  "rd_db (fst (PublishPaymentConfirmed marshal (WriteMessages faults) ev s)) = rd_db s"
  "rd_calls (fst (PublishPaymentConfirmed marshal (WriteMessages faults) ev s)) = rd_calls s"
  "gateway.more (fst (PublishPaymentConfirmed marshal (WriteMessages faults) ev s)) = gateway.more s"
  by (simp_all add: PublishPaymentConfirmed_def WriteMessages_def Let_def split: sum.split option.split)

lemma gateway_stripe_get [simp]:
  "st_GetPaymentIntent (gateway_stripe c) x s =
     (case st_GetPaymentIntent c x (gateway.more s) of (y, res) \<Rightarrow> (s\<lparr>gateway.more := y\<rparr>, res))"
  by (simp add: gateway_stripe_def lift_client_def lift_port_def)

interpretation wh_rows: webhook_frame "NewWebhookService w" rows_kept
  for w :: "'x wiring"
  by unfold_locales
    (auto intro: rows_kept_refl rows_kept_same UpdateStatus_rows elim: rows_kept_trans split: prod.split)

interpretation wh_redis: webhook_frame "NewWebhookService w" "\<lambda>s s'. rd_db s' = rd_db s \<and> rd_calls s' = rd_calls s"
  for w :: "'x wiring"
  by unfold_locales (auto split: prod.split)

section \<open>What the handlers do\<close>

text \<open>
  The handlers over a transaction repository and a publisher: \<open>sent\<close> are the messages written so
  far, \<open>up\<close> says that the next write goes through, and \<open>enc\<close> is the encoding of an event.
\<close>

definition is_order :: "(string \<Rightarrow> string \<Rightarrow> bool) \<Rightarrow> string \<Rightarrow> string \<Rightarrow> Transaction \<Rightarrow> bool" where
  "is_order same mid oid t \<longleftrightarrow> same (t_MerchantID t) mid \<and> same (t_OrderID t) oid"

definition with_status :: "string \<Rightarrow> string \<Rightarrow> int \<Rightarrow> Transaction \<Rightarrow> Transaction" where
  "with_status st x upd t =
     t\<lparr>t_Status := st, t_UpdatedAt := upd, t_StripePaymentIntentID := (if x = [] then t_StripePaymentIntentID t else x)\<rparr>"

lemma with_status_fields [simp]:
  "t_TransactionID (with_status st x upd t) = t_TransactionID t" "t_MerchantID (with_status st x upd t) = t_MerchantID t"
  "t_OrderID (with_status st x upd t) = t_OrderID t" "t_Status (with_status st x upd t) = st"
  "t_Amount (with_status st x upd t) = t_Amount t" "t_Currency (with_status st x upd t) = t_Currency t"
  "is_order same mid oid (with_status st x upd t) = is_order same mid oid t"
  by (simp_all add: with_status_def is_order_def)

locale webhook_ports =
  transaction_repository invar view same known colocated accepts stored
    "tr_Insert (wh_repo ws)" "tr_GetByTransactionID (wh_repo ws)" "tr_GetByMerchantOrderID (wh_repo ws)"
    "tr_UpdateStatus (wh_repo ws)" "tr_UpdateCheckout (wh_repo ws)"
  for invar :: "'s \<Rightarrow> bool" and view same known colocated accepts stored and ws :: "'s webhookService" +
  fixes sent :: "'s \<Rightarrow> (string \<times> string) list" and up :: "'s \<Rightarrow> bool" and enc :: "PaymentConfirmedEvent \<Rightarrow> string"
  assumes update_sent: "tr_UpdateStatus (wh_repo ws) i mid oid st x s = (s', res) \<Longrightarrow> sent s' = sent s \<and> up s' = up s"
    and order_sent: "tr_GetByMerchantOrderID (wh_repo ws) i mid oid s = (s', res2) \<Longrightarrow> sent s' = sent s \<and> up s' = up s"
    and publish: "invar s \<Longrightarrow> up s \<Longrightarrow> \<exists>s'. ep_PublishPaymentConfirmed (wh_publisher ws) ev s = (s', Inr ()) \<and>
      invar s' \<and> view s' = view s \<and> sent s' = sent s @ [(ev_OrderID ev, enc ev)]"
begin

lemma settle_known:
  assumes inv: "invar s" and up: "up s" and i: "known i" "valid_order_id oid" "TransactionStatus_Valid st" "length x \<le> 64"
    and row: "view s i tid = Some t" "is_order same mid oid t"
  shows "\<exists>s' upd order now. settle_order ws ctx i mid oid st x s = (s', Inr ()) \<and> invar s' \<and>
    view s' = (\<lambda>j tid. map_option (\<lambda>t. if colocated j i \<and> is_order same mid oid t then with_status st x upd t else t) (view s j tid)) \<and>
    view s' i (t_TransactionID order) = Some order \<and> is_order same mid oid order \<and>
    sent s' = sent s @ [(t_OrderID order, enc (confirmed_event order st now))]"
proof -
  have hit: "\<exists>tid t. view s i tid = Some t \<and> same (t_MerchantID t) mid \<and> same (t_OrderID t) oid"
    using row by (intro exI [of _ tid] exI [of _ t]) (simp add: is_order_def)
  from update_status [OF inv i, of mid, unfolded if_P [OF hit], folded with_status_def is_order_def]
  obtain s1 upd where
    1: "tr_UpdateStatus (wh_repo ws) i mid oid st x s = (s1, Inr ())" and inv1: "invar s1"
    and v1: "view s1 = (\<lambda>j tid. map_option (\<lambda>t. if colocated j i \<and> is_order same mid oid t then with_status st x upd t else t) (view s j tid))"
    by (elim exE conjE)
  have "view s1 i tid = Some (with_status st x upd t)"
    using row by (simp add: v1 colocated_refl)
  then have found: "\<exists>tid t. view s1 i tid = Some t \<and> same (t_MerchantID t) mid \<and> same (t_OrderID t) oid"
    using row(2) by (intro exI [of _ tid] exI [of _ "with_status st x upd t"]) (simp add: is_order_def)
  from get_order [OF inv1 i(1,2), of mid] obtain s2 res where
    g: "tr_GetByMerchantOrderID (wh_repo ws) i mid oid s1 = (s2, res)" "invar s2" "view s2 = view s1"
    "case res of
       Inr t \<Rightarrow> view s1 i (t_TransactionID t) = Some t \<and> same (t_MerchantID t) mid \<and> same (t_OrderID t) oid
     | Inl e \<Rightarrow> e = Sentinel ErrNotFound \<and>
         (\<forall>tid t. view s1 i tid = Some t \<longrightarrow> \<not> (same (t_MerchantID t) mid \<and> same (t_OrderID t) oid))"
    by (elim exE conjE)
  with found obtain order where
    2: "tr_GetByMerchantOrderID (wh_repo ws) i mid oid s1 = (s2, Inr order)" "invar s2" "view s2 = view s1"
    and o: "view s1 i (t_TransactionID order) = Some order" "is_order same mid oid order"
    by (cases res) (auto simp: is_order_def)
  have sent: "sent s2 = sent s" "up s2"
    using update_sent [OF 1] order_sent [OF 2(1)] up by simp_all
  from publish [OF 2(2) sent(2), of "confirmed_event order st (wh_clock ws s2)"] obtain s3 where
    "ep_PublishPaymentConfirmed (wh_publisher ws) (confirmed_event order st (wh_clock ws s2)) s2 = (s3, Inr ())"
    "invar s3" "view s3 = view s1" "sent s3 = sent s @ [(t_OrderID order, enc (confirmed_event order st (wh_clock ws s2)))]"
    by (auto simp: 2(3) sent(1) confirmed_event_def)
  with 1 2(1) v1 o show ?thesis
    by (intro exI [of _ s3] exI [of _ upd] exI [of _ order] exI [of _ "wh_clock ws s2"]) (simp add: settle_order_def)
qed

lemma settle_unknown:
  assumes "invar s" "known i" "valid_order_id oid" "TransactionStatus_Valid st" "length x \<le> 64"
    and "\<And>tid t. view s i tid = Some t \<Longrightarrow> \<not> is_order same mid oid t"
  shows "snd (settle_order ws ctx i mid oid st x s) = Inl (Wrapf oid (Sentinel ErrWebhookOrderMissing)) \<and>
    sent (fst (settle_order ws ctx i mid oid st x s)) = sent s"
proof -
  have none: "\<not> (same (t_MerchantID t) mid \<and> same (t_OrderID t) oid)" if "view s i tid = Some t" for tid t
    using assms(6) [OF that] by (simp add: is_order_def)
  obtain s' where u: "tr_UpdateStatus (wh_repo ws) i mid oid st x s = (s', Inl (Sentinel ErrNotFound))"
    by (rule update_status_missing [OF assms(1-5) none])
  from update_sent [OF u] u show ?thesis
    by (simp add: settle_order_def update_error_def)
qed

end

definition kafka_up :: "'x wiring \<Rightarrow> 'x gateway_scheme \<Rightarrow> bool" where
  "kafka_up w s \<longleftrightarrow> w_kafka w (writes s) = None \<and> (\<forall>ev. \<not> isl (w_marshal w ev))"

definition event_bytes :: "'x wiring \<Rightarrow> PaymentConfirmedEvent \<Rightarrow> string" where
  "event_bytes w ev = projr (w_marshal w ev)"

lemma repo_good_same: "tables s' = tables s \<Longrightarrow> repo_good env r s' = repo_good env r s"
  by (simp add: repo_good_def txn_inv_def)

lemma publish_up:
  assumes "kafka_up w s"
  obtains s' where "PublishPaymentConfirmed (w_marshal w) (WriteMessages (w_kafka w)) ev s = (s', Inr ())"
    "tables s' = tables s" "topic s' = topic s @ [(ev_OrderID ev, event_bytes w ev)]"
proof (cases "w_marshal w ev")
  case (Inl e)
  then show thesis
    using assms by (metis kafka_up_def sum.disc(1))
next
  case (Inr payload)
  then show thesis
    using assms by (intro that [of "s\<lparr>writes := Suc (writes s), topic := topic s @ [(ev_OrderID ev, payload)]\<rparr>"])
      (simp_all add: PublishPaymentConfirmed_def WriteMessages_def kafka_up_def event_bytes_def)
qed

interpretation whp: webhook_ports
  "repo_good (w_env w) (w_router w)" "txn_view (w_router w)" "env_coll (w_env w)" "router_known (w_router w)"
  "router_colocated (w_router w)" txn_accepts "stored_txn (w_env w)" "NewWebhookService w" topic "kafka_up w" "event_bytes w"
  for w :: "'x wiring"
proof (intro webhook_ports.intro webhook_ports_axioms.intro, goal_cases)
  case 1
  show ?case
    by (simp add: txr.transaction_repository_axioms)
next
  case (2 i mid oid st x s s' res)
  then show ?case
    using UpdateStatus_gateway(3,4) [of "w_env w" "w_router w" i mid oid st x s] by (simp add: kafka_up_def)
next
  case (3 i mid oid s s' res)
  then show ?case
    using reads_fields(13,16) [of "w_env w" "w_router w" i mid oid s] by (simp add: kafka_up_def)
next
  case (4 s ev)
  then obtain s' where "PublishPaymentConfirmed (w_marshal w) (WriteMessages (w_kafka w)) ev s = (s', Inr ())"
    "tables s' = tables s" "topic s' = topic s @ [(ev_OrderID ev, event_bytes w ev)]"
    by (elim publish_up [where ev = ev])
  moreover from this(2) have "repo_good (w_env w) (w_router w) s'" "txn_view (w_router w) s' = txn_view (w_router w) s"
    using 4(1) by (simp add: repo_good_same [of s' s], intro txn_view_tables)
  ultimately show ?case
    by simp
qed

section \<open>Properties of the webhooks\<close>

definition dedup_key :: "Event \<Rightarrow> string" where
  "dedup_key event = ''webhook:'' @ ev_ID event"

definition verified :: "'x wiring \<Rightarrow> string \<Rightarrow> string \<Rightarrow> 'x gateway_scheme \<Rightarrow> Event result" where
  "verified w payload sig s = st_VerifyWebhookSignature (w_client w) payload sig (w_secret w) (gateway.more s)"

text \<open>Redis answers, and the event has not been seen.\<close>

definition fresh_event :: "'x wiring \<Rightarrow> 'x gateway_scheme \<Rightarrow> Event \<Rightarrow> bool" where
  "fresh_event w s event \<longleftrightarrow> rd_fault (w_redis w) (rd_calls s) = None \<and>
     live (rd_clock (w_redis w) (rd_calls s)) (rd_db s) (dedup_key event) = None"

definition noted :: "'x wiring \<Rightarrow> Event \<Rightarrow> 'x gateway_scheme \<Rightarrow> 'x gateway_scheme" where
  "noted w event s = s\<lparr>rd_calls := Suc (rd_calls s),
     rd_db := (rd_db s)(dedup_key event \<mapsto> (RString ''1'', Some (millis (rd_clock (w_redis w) (rd_calls s)) + 86400000)))\<rparr>"

lemma noted_fields [simp]:
  "tables (noted w event s) = tables s" "stmts (noted w event s) = stmts s" "merchants (noted w event s) = merchants s"
  "mcache (noted w event s) = mcache s" "topic (noted w event s) = topic s" "writes (noted w event s) = writes s"
  "gateway.more (noted w event s) = gateway.more s"
  "rd_db (noted w event s) = (rd_db s)(dedup_key event \<mapsto> (RString ''1'', Some (millis (rd_clock (w_redis w) (rd_calls s)) + 86400000)))"
  by (simp_all add: noted_def)

lemma verify_gateway [simp]:
  "st_VerifyWebhookSignature (gateway_stripe (w_client w)) payload sig (w_secret w) s = verified w payload sig s"
  by (simp add: gateway_stripe_def lift_client_def verified_def)

lemma Process_eq:
  "Process (NewWebhookService w) payload sig s =
     (case verified w payload sig s of
        Inl e \<Rightarrow> (s, Inl (Wrapf ''verify signature'' e))
      | Inr event \<Rightarrow>
          (case SetNX (w_redis w) (dedup_key event) ''1'' 86400000000000 s of
             (s1, Inl e) \<Rightarrow> (s1, Inl (Wrapf ''dedup setnx'' e))
           | (s1, Inr ok) \<Rightarrow>
               if \<not> ok then (s1, Inl (Sentinel ErrWebhookDuplicate)) else dispatch (NewWebhookService w) event s1))"
  by (simp add: Process_def dedup_key_def cong: sum.case_cong)

lemma SetNX_fresh:
  "fresh_event w s event \<Longrightarrow> SetNX (w_redis w) (dedup_key event) ''1'' 86400000000000 s = (noted w event s, Inr True)"
  by (simp add: SetNX_def redis_do_def cmd_SetNX_def fresh_event_def noted_def Let_def)

lemma SetNX_other:
  assumes "SetNX env k v ttl s = (s', res)"
  shows "tables s' = tables s" "stmts s' = stmts s" "merchants s' = merchants s" "mcache s' = mcache s"
    "topic s' = topic s" "writes s' = writes s" "gateway.more s' = gateway.more s"
  using assms by (auto simp: SetNX_def redis_do_def Let_def split: prod.splits option.splits if_splits)

lemma Process_fresh:
  "verified w payload sig s = Inr event \<Longrightarrow> fresh_event w s event \<Longrightarrow>
    Process (NewWebhookService w) payload sig s = dispatch (NewWebhookService w) event (noted w event s)"
  by (simp add: Process_eq SetNX_fresh)

lemma Process_cases:
  obtains (unsigned) e where "verified w payload sig s = Inl e"
      "Process (NewWebhookService w) payload sig s = (s, Inl (Wrapf ''verify signature'' e))"
  | (stopped) event s1 e where "verified w payload sig s = Inr event"
      "Process (NewWebhookService w) payload sig s = (s1, Inl e)"
      "tables s1 = tables s" "merchants s1 = merchants s" "topic s1 = topic s"
  | (handled) event s1 where "verified w payload sig s = Inr event"
      "Process (NewWebhookService w) payload sig s = dispatch (NewWebhookService w) event s1"
      "tables s1 = tables s" "merchants s1 = merchants s" "topic s1 = topic s" "gateway.more s1 = gateway.more s"
proof (cases "verified w payload sig s")
  case (Inl e)
  then show thesis
    by (intro unsigned [of e]) (simp_all add: Process_eq)
next
  case (Inr event)
  obtain s1 res where nx: "SetNX (w_redis w) (dedup_key event) ''1'' 86400000000000 s = (s1, res)"
    by fastforce
  note s1 = SetNX_other [OF nx]
  show thesis
  proof (cases res)
    case (Inl e)
    then show thesis
      using Inr nx s1 by (intro stopped [of event s1 "Wrapf ''dedup setnx'' e"]) (simp_all add: Process_eq)
  next
    case (Inr ok)
    with \<open>verified w payload sig s = Inr event\<close> nx s1 show thesis
      using stopped [of event s1 "Sentinel ErrWebhookDuplicate"] handled [of event s1]
      by (cases ok) (simp_all add: Process_eq)
  qed
qed

definition stripe_confirms :: "'x wiring \<Rightarrow> string \<Rightarrow> 'x gateway_scheme \<Rightarrow> bool" where
  "stripe_confirms w x s \<longleftrightarrow>
     (case snd (st_GetPaymentIntent (w_client w) x (gateway.more s)) of Inl _ \<Rightarrow> False | Inr intent \<Rightarrow> pi_Status intent = ''succeeded'')"

definition refund_intent :: "stripeObject \<Rightarrow> string" where
  "refund_intent o' = (if so_PaymentIntent o' = [] then meta o' ''payment_intent'' else so_PaymentIntent o')"

text \<open>The status an event asks for and the payment intent it carries.\<close>

definition settles_as :: "'x wiring \<Rightarrow> 'x gateway_scheme \<Rightarrow> Event \<Rightarrow> stripeObject \<Rightarrow> string \<Rightarrow> string \<Rightarrow> bool" where
  "settles_as w s event o' st x \<longleftrightarrow>
     (if ev_Type event = ''payment_intent.succeeded'' \<or> ev_Type event = ''checkout.session.completed''
      then st = TransactionStatusPaid \<and> x = intent_of o' \<and> (x = [] \<or> stripe_confirms w x s)
      else ev_Type event = ''charge.refunded'' \<and> st = TransactionStatusRefunded \<and> x = refund_intent o')"

lemma merchant_result:
  "stmts s' = stmts s \<Longrightarrow> mcache s' = mcache s \<Longrightarrow> merchants s' = merchants s \<Longrightarrow>
    snd (GetByMerchantID env r mid s') = snd (GetByMerchantID env r mid s)"
  by (simp add: GetByMerchantID_def query_merchant_def split: prod.split option.split sum.split)

lemma resolve_merchant:
  assumes "snd (GetByMerchantID (w_env w) (w_router w) mid s) = Inr m"
  obtains s' where "resolveShard (NewWebhookService w) mid s = (s', Inr (m_ShardIndex m))"
    "tables s' = tables s" "topic s' = topic s" "writes s' = writes s"
proof -
  obtain s' where "GetByMerchantID (w_env w) (w_router w) mid s = (s', Inr m)"
    using assms by (metis prod.collapse)
  then show thesis
    using GetByMerchantID_gateway [of "w_env w" "w_router w" mid s] by (intro that [of s']) (simp_all add: resolveShard_def)
qed

lemma cross_check_ok:
  assumes "x = [] \<or> stripe_confirms w x s"
  obtains s' where "cross_check (NewWebhookService w) x s = (s', Inr ())" "tables s' = tables s" "stmts s' = stmts s"
    "mcache s' = mcache s" "merchants s' = merchants s" "topic s' = topic s" "writes s' = writes s"
proof (cases "x = []")
  case True
  then show thesis
    by (intro that [of s]) (simp_all add: cross_check_def)
next
  case False
  obtain y res where "st_GetPaymentIntent (w_client w) x (gateway.more s) = (y, res)"
    by fastforce
  with False assms show thesis
    by (intro that [of "s\<lparr>gateway.more := y\<rparr>"]) (auto simp: cross_check_def stripe_confirms_def split: sum.splits)
qed

lemma dispatch_settles:
  assumes "w_decode w (ev_Data event) = Inr o'" "meta o' ''order_id'' = oid" "meta o' ''merchant_id'' = mid"
    "oid \<noteq> []" "mid \<noteq> []" "settles_as w s event o' st x"
    and m: "snd (GetByMerchantID (w_env w) (w_router w) mid s) = Inr m"
  obtains s' ctx where
    "dispatch (NewWebhookService w) event s = settle_order (NewWebhookService w) ctx (m_ShardIndex m) mid oid st x s'"
    "tables s' = tables s" "topic s' = topic s" "writes s' = writes s"
proof (cases "ev_Type event = ''payment_intent.succeeded'' \<or> ev_Type event = ''checkout.session.completed''")
  case True
  with assms(6) have st: "st = TransactionStatusPaid" "x = intent_of o'" "x = [] \<or> stripe_confirms w x s"
    by (auto simp: settles_as_def)
  obtain s1 where 1: "cross_check (NewWebhookService w) x s = (s1, Inr ())" "tables s1 = tables s" "stmts s1 = stmts s"
    "mcache s1 = mcache s" "merchants s1 = merchants s" "topic s1 = topic s" "writes s1 = writes s"
    by (rule cross_check_ok [OF st(3)])
  obtain s2 where 2: "resolveShard (NewWebhookService w) mid s1 = (s2, Inr (m_ShardIndex m))"
    "tables s2 = tables s1" "topic s2 = topic s1" "writes s2 = writes s1"
    by (rule resolve_merchant [OF merchant_result [OF 1(3-5), THEN trans, OF m]])
  from True st(1,2) assms(1-5) 1 2 show thesis
    by (intro that [of "''update order''" s2])
      (simp_all add: dispatch_def handleSucceeded_def decodeStripeObject_def Let_def)
next
  case False
  with assms(6) have st: "ev_Type event = ''charge.refunded''" "st = TransactionStatusRefunded" "x = refund_intent o'"
    by (simp_all add: settles_as_def split: if_splits)
  obtain s2 where 2: "resolveShard (NewWebhookService w) mid s = (s2, Inr (m_ShardIndex m))"
    "tables s2 = tables s" "topic s2 = topic s" "writes s2 = writes s"
    by (rule resolve_merchant [OF m])
  from False st assms(1-5) 2 show thesis
    by (intro that [of "''update order refunded''" s2])
      (simp_all add: dispatch_def handleRefunded_def decodeStripeObject_def Let_def refund_target_def refund_intent_def)
qed

lemma process_settles:
  assumes "repo_good (w_env w) (w_router w) s" and "kafka_up w s"
    and event: "verified w payload sig s = Inr event" "fresh_event w s event" "w_decode w (ev_Data event) = Inr o'"
    and meta: "meta o' ''order_id'' = oid" "meta o' ''merchant_id'' = mid" "mid \<noteq> []" "valid_order_id oid" "length x \<le> 64"
    and st: "settles_as w s event o' st x"
    and m: "snd (GetByMerchantID (w_env w) (w_router w) mid s) = Inr m" "router_known (w_router w) (m_ShardIndex m)"
    and row: "txn_view (w_router w) s (m_ShardIndex m) tid = Some t" "is_order (env_coll (w_env w)) mid oid t"
  shows "\<exists>s' upd order now. Process (NewWebhookService w) payload sig s = (s', Inr ()) \<and>
    txn_view (w_router w) s' = (\<lambda>j tid. map_option (\<lambda>t.
      if router_colocated (w_router w) j (m_ShardIndex m) \<and> is_order (env_coll (w_env w)) mid oid t
      then with_status st x upd t else t) (txn_view (w_router w) s j tid)) \<and>
    txn_view (w_router w) s' (m_ShardIndex m) (t_TransactionID order) = Some order \<and>
    is_order (env_coll (w_env w)) mid oid order \<and>
    topic s' = topic s @ [(t_OrderID order, event_bytes w (confirmed_event order st now))]"
proof -
  have st': "settles_as w (noted w event s) event o' st x"
    using st unfolding settles_as_def stripe_confirms_def noted_fields .
  have "oid \<noteq> []"
    using meta(4) by (auto simp: valid_order_id_def)
  obtain s1 ctx where d: "dispatch (NewWebhookService w) event (noted w event s) =
      settle_order (NewWebhookService w) ctx (m_ShardIndex m) mid oid st x s1"
    and s1: "tables s1 = tables s" "topic s1 = topic s" "writes s1 = writes s"
    by (rule dispatch_settles [OF event(3) meta(1,2) \<open>oid \<noteq> []\<close> meta(3) st' merchant_result [THEN trans, OF _ _ _ m(1)],
          unfolded noted_fields, OF refl refl refl])
  have "repo_good (w_env w) (w_router w) s1" "kafka_up w s1" "TransactionStatus_Valid st"
    using assms(1,2) s1 st by (auto simp: repo_good_same [of s1 s] kafka_up_def settles_as_def TransactionStatus_Valid_def split: if_splits)
  moreover have v: "txn_view (w_router w) s1 = txn_view (w_router w) s"
    by (rule txn_view_tables [OF s1(1)])
  ultimately show ?thesis
    using whp.settle_known [where w = w and s = s1 and ctx = ctx, OF _ _ m(2) meta(4) _ meta(5) _ row(2)] row(1)
    unfolding Process_fresh [OF event(1,2)] d v s1(2) by blast
qed

text \<open>C1. A signed event that is new to Redis settles its order: if Stripe confirms the payment intent
  the event names (no confirmation is asked for when it names none), the merchant is known and the
  order exists on the merchant's shard, then \<^verbatim>\<open>Process\<close> succeeds, exactly the rows of that order become
  paid (or refunded) and take the payment intent, every other row stays as it was, and exactly one
  message goes to the confirmed topic, carrying the order as it is stored now.\<close>

theorem webhook_settles:
  assumes "repo_good (w_env w) (w_router w) s" and "kafka_up w s"
    and event: "verified w payload sig s = Inr event" "fresh_event w s event" "w_decode w (ev_Data event) = Inr o'"
    and meta: "meta o' ''order_id'' = oid" "meta o' ''merchant_id'' = mid" "mid \<noteq> []" "valid_order_id oid" "length x \<le> 64"
    and st: "settles_as w s event o' st x"
    and m: "snd (GetByMerchantID (w_env w) (w_router w) mid s) = Inr m" "router_known (w_router w) (m_ShardIndex m)"
    and row: "txn_view (w_router w) s (m_ShardIndex m) tid = Some t" "is_order (env_coll (w_env w)) mid oid t"
  shows "\<exists>s' upd order now. Process (NewWebhookService w) payload sig s = (s', Inr ()) \<and>
    txn_view (w_router w) s' = (\<lambda>j tid. map_option (\<lambda>t.
      if router_colocated (w_router w) j (m_ShardIndex m) \<and> is_order (env_coll (w_env w)) mid oid t
      then with_status st x upd t else t) (txn_view (w_router w) s j tid)) \<and>
    txn_view (w_router w) s' (m_ShardIndex m) (t_TransactionID order) = Some order \<and>
    is_order (env_coll (w_env w)) mid oid order \<and>
    topic s' = topic s @ [(t_OrderID order, event_bytes w (confirmed_event order st now))]"
  using assms by (rule process_settles)

definition demo_signed :: "string \<Rightarrow> Event \<Rightarrow> unit StripeClient" where
  "demo_signed status event = demo_stripe\<lparr>
     st_VerifyWebhookSignature := (\<lambda>payload sig secret u. if sig = secret then Inr event else Inl (ErrNew ''no match'')),
     st_GetPaymentIntent := (\<lambda>x u. (u, Inr \<lparr>pi_ID = x, pi_ClientSecret = [], pi_Amount = 0, pi_Currency = ''usd'', pi_Status = status,
       pi_ChargeID = [], pi_Metadata = []\<rparr>))\<rparr>"

definition demo_object :: stripeObject where
  "demo_object = \<lparr>so_ID = ''pi_9'', so_Object = ''payment_intent'', so_Amount = 1500, so_AmountTotal = 0, so_Currency = ''usd'',
     so_Status = ''succeeded'', so_Metadata = [(''order_id'', ''o-1''), (''merchant_id'', ''M1'')], so_PaymentIntent = [],
     so_LatestCharge = [], so_Charge = [], so_Refunded = False\<rparr>"

definition demo_wiring :: "string \<Rightarrow> unit wiring" where
  "demo_wiring status = \<lparr>w_env = demo_env, w_router = demo_router,
     w_redis = \<lparr>rd_fault = (\<lambda>n. None), rd_clock = (\<lambda>n. int n * 1000000000), rd_uuid = (\<lambda>n. [])\<rparr>,
     w_marshal = (\<lambda>ev. Inr (ev_Status ev)), w_kafka = (\<lambda>n. None), w_client = demo_signed status demo_event,
     w_secret = ''whsec'', w_decode = (\<lambda>b. Inr demo_object)\<rparr>"

definition demo_gateway :: gateway where
  "demo_gateway = \<lparr>tables = tables demo_stuck, stmts = 0, merchants = [demo_payer ''M1''], mcache = newLRUCache 1024 300000000000,
     rd_db = (\<lambda>k. None), rd_calls = 0, topic = [], writes = 0\<rparr>"

lemma demo_verified: "verified (demo_wiring status) payload ''whsec'' s = Inr demo_event"
  by (simp add: verified_def demo_wiring_def demo_signed_def)

lemma demo_fresh: "fresh_event (demo_wiring status) demo_gateway event"
  by (simp add: fresh_event_def demo_wiring_def demo_gateway_def live_def)

lemma demo_gateway_good: "repo_good demo_env demo_router demo_gateway"
  using demo_stuck_good by (simp add: repo_good_def txn_inv_def demo_gateway_def)

lemma demo_gateway_merchant: "snd (GetByMerchantID demo_env demo_router ''M1'' demo_gateway) = Inr (demo_payer ''M1'')"
  by (simp add: GetByMerchantID_def query_merchant_def scanMerchant_def demo_gateway_def demo_env_def lru_get_def newLRUCache_def
      demo_payer_def demo_merchant_def)

lemma demo_gateway_row:
  "txn_view demo_router demo_gateway 3 (hexLower (row_transaction_id (demo_row 9 80))) = Some (row_txn 3 (demo_row 9 80))"
  using demo_gateway_good
  by (intro txn_view_row [where p = 1])
    (simp_all add: repo_good_def demo_router_def router_For_def demo_gateway_def demo_stuck_def)

lemma demo_gateway_order: "is_order (env_coll demo_env) ''M1'' ''o-1'' (row_txn 3 (demo_row 9 80))"
  unfolding is_order_def row_txn_fields [OF demo_row_ok] by (simp add: demo_row_def demo_env_def EqualFold_def)

lemma demo_settles: "settles_as (demo_wiring ''succeeded'') s demo_event demo_object ''paid'' ''pi_9''"
  by (simp add: settles_as_def demo_event_def intent_of_def demo_object_def stripe_confirms_def demo_wiring_def demo_signed_def)

lemma demo_wiring_fields [simp]:
  "w_env (demo_wiring status) = demo_env" "w_router (demo_wiring status) = demo_router"
  "w_decode (demo_wiring status) b = Inr demo_object" "kafka_up (demo_wiring status) s"
  "event_bytes (demo_wiring status) ev = ev_Status ev"
  by (simp_all add: demo_wiring_def kafka_up_def event_bytes_def)

lemma demo_object_meta [simp]: "meta demo_object ''order_id'' = ''o-1''" "meta demo_object ''merchant_id'' = ''M1''"
  by (simp_all add: meta_def demo_object_def)

lemma demo_shard: "m_ShardIndex (demo_payer mid) = 3"
  by (simp add: demo_payer_def)

theorem webhook_settles_witness:
  "\<exists>s' order. Process (NewWebhookService (demo_wiring ''succeeded'')) [] ''whsec'' demo_gateway = (s', Inr ()) \<and>
     txn_view demo_router s' 3 (t_TransactionID order) = Some order \<and> topic s' = [(t_OrderID order, ''paid'')]"
proof -
  have "topic demo_gateway = []"
    by (simp add: demo_gateway_def)
  then show ?thesis
    using webhook_settles [where w = "demo_wiring ''succeeded''" and m = "demo_payer ''M1''" and payload = "[]", unfolded demo_wiring_fields,
        OF demo_gateway_good demo_wiring_fields(4) demo_verified demo_fresh refl demo_object_meta _ demo_oid _ demo_settles
        demo_gateway_merchant demo_payer_known, unfolded demo_shard, OF _ _ demo_gateway_row demo_gateway_order]
    by (auto simp: confirmed_event_def)
qed

text \<open>C9. The body of a webhook is not believed: an event of the succeeded family that names a payment
  intent Stripe does not report as succeeded, or cannot report on, ends in an error, and neither a
  row nor the topic changes, whatever the database, Redis and Kafka do.\<close>

theorem webhook_unconfirmed:
  assumes "verified w payload sig s = Inr event" and "w_decode w (ev_Data event) = Inr o'"
    and "ev_Type event \<in> {''payment_intent.succeeded'', ''checkout.session.completed''}"
    and "intent_of o' \<noteq> []" and "\<not> stripe_confirms w (intent_of o') s"
  shows "tables (fst (Process (NewWebhookService w) payload sig s)) = tables s \<and>
    topic (fst (Process (NewWebhookService w) payload sig s)) = topic s \<and>
    isl (snd (Process (NewWebhookService w) payload sig s))"
proof (cases rule: Process_cases [of w payload sig s, case_names unsigned stopped handled])
  case (handled event' s1)
  obtain y res where "st_GetPaymentIntent (w_client w) (intent_of o') (gateway.more s) = (y, res)"
    by fastforce
  with assms(4,5) have "\<exists>e. cross_check (NewWebhookService w) (intent_of o') s1 = (s1\<lparr>gateway.more := y\<rparr>, Inl e)"
    by (auto simp: cross_check_def stripe_confirms_def handled(6) split: sum.splits)
  with handled assms(1-3) show ?thesis
    by (auto simp: dispatch_def handleSucceeded_def decodeStripeObject_def Let_def)
qed simp_all

theorem webhook_unconfirmed_witness:
  "isl (snd (Process (NewWebhookService (demo_wiring ''processing'')) [] ''whsec'' demo_gateway))"
proof -
  have "\<not> stripe_confirms (demo_wiring ''processing'') ''pi_9'' demo_gateway" "intent_of demo_object = ''pi_9''"
    by (simp_all add: stripe_confirms_def demo_wiring_def demo_signed_def intent_of_def demo_object_def)
  then show ?thesis
    using webhook_unconfirmed [where w = "demo_wiring ''processing''" and payload = "[]", OF demo_verified demo_wiring_fields(3),
        of demo_gateway]
    by (simp add: demo_event_def)
qed

text \<open>No webhook, whatever it carries and whichever calls fail on the way, adds, removes or reorders
  a row or touches anything in it but the status, the time of the update and the payment intent;
  a payment intent once stored is never cleared, and the merchants table stays as it was.\<close>

theorem webhook_rows_kept: "rows_kept s (fst (Process (NewWebhookService w) payload sig s))"
proof (cases rule: Process_cases [of w payload sig s, case_names unsigned stopped handled])
  case (handled event s1)
  have "rows_kept s1 (fst (dispatch (NewWebhookService w) event s1))"
    by (rule wh_rows.kept_dispatch)
  then show ?thesis
    using handled by (simp add: rows_kept_def)
qed (simp_all add: rows_kept_refl rows_kept_same)

text \<open>An event is handled at most once a day: after \<^verbatim>\<open>Process\<close> has taken an event on, whether its
  handler succeeded or failed, a delivery with the same event id within 24 hours is answered with
  \<^verbatim>\<open>ErrWebhookDuplicate\<close> and changes neither the rows nor the topic, as long as Redis keeps the key.
  In particular, the retry of a delivery whose handler failed is not processed.\<close>

theorem webhook_replay:
  assumes "verified w payload sig s = Inr event" and "fresh_event w s event"
    and "rd_db s2 (dedup_key event) = rd_db (fst (Process (NewWebhookService w) payload sig s)) (dedup_key event)"
    and "verified w payload2 sig2 s2 = Inr event2" and "ev_ID event2 = ev_ID event"
    and "rd_fault (w_redis w) (rd_calls s2) = None"
    and "millis (rd_clock (w_redis w) (rd_calls s2)) \<le> millis (rd_clock (w_redis w) (rd_calls s)) + 86400000"
  shows "Process (NewWebhookService w) payload2 sig2 s2 = (s2\<lparr>rd_calls := Suc (rd_calls s2)\<rparr>, Inl (Sentinel ErrWebhookDuplicate))"
proof -
  have key: "dedup_key event2 = dedup_key event"
    using assms(5) by (simp add: dedup_key_def)
  have "rd_db (fst (dispatch (NewWebhookService w) event (noted w event s))) = rd_db (noted w event s)"
    using wh_redis.kept_dispatch [of w event "noted w event s"] by simp
  then have "rd_db s2 (dedup_key event) = Some (RString ''1'', Some (millis (rd_clock (w_redis w) (rd_calls s)) + 86400000))"
    using assms(3) by (simp add: Process_fresh [OF assms(1,2)])
  from live_Some [of "rd_db s2", OF this assms(7)] show ?thesis
    using assms(4,6) by (simp add: Process_eq key SetNX_def redis_do_def cmd_SetNX_def Let_def)
qed

theorem webhook_replay_witness:
  "\<exists>s2. snd (Process (NewWebhookService (demo_wiring ''processing'')) [] ''whsec'' s2) = Inl (Sentinel ErrWebhookDuplicate) \<and>
     s2 = fst (Process (NewWebhookService (demo_wiring ''processing'')) [] ''whsec'' demo_gateway)"
proof -
  let ?P = "Process (NewWebhookService (demo_wiring ''processing'')) [] ''whsec''"
  have "rd_calls (fst (?P demo_gateway)) = 1"
    using wh_redis.kept_dispatch [of "demo_wiring ''processing''" demo_event "noted (demo_wiring ''processing'') demo_event demo_gateway"]
    by (simp add: Process_fresh [OF demo_verified demo_fresh]) (simp add: noted_def demo_gateway_def)
  then have "?P (fst (?P demo_gateway)) = ((fst (?P demo_gateway))\<lparr>rd_calls := Suc (rd_calls (fst (?P demo_gateway)))\<rparr>,
      Inl (Sentinel ErrWebhookDuplicate))"
    by (intro webhook_replay [OF demo_verified demo_fresh refl demo_verified refl])
      (simp_all add: demo_wiring_def demo_gateway_def millis_def)
  then show ?thesis
    by simp
qed


definition demo_refund :: RefundInput where
  "demo_refund = \<lparr>ri_Merchant = Some (demo_payer ''M1''), ri_OrderID = ''o-1'', ri_Amount = 500, ri_Reason = [], ri_IdemKey = ''k''\<rparr>"


end
