(* ===== verification/CheckoutResolver.thy ===== *)
theory CheckoutResolver
  imports WebhookService
begin

text \<open>
  \<^verbatim>\<open>internal/service/checkout_resolver.go\<close>: the public checkout link of an order, answered from the URL
  cache, from the stored session, or by creating the Stripe session under a distributed lock and a
  rate limit. The resolver is written over its ports; what other pods do while it sleeps is the
  port \<open>cr_sleep\<close>. The counters it increments for monitoring are left out.
\<close>

section \<open>The resolver\<close>

record 's URLCache =
  uc_Get :: "string \<Rightarrow> 's \<Rightarrow> string option"
  uc_Put :: "string \<Rightarrow> string \<Rightarrow> 's \<Rightarrow> 's"

record 's checkoutResolver =
  cr_stripe :: "'s StripeClient"
  cr_repo :: "'s TransactionRepository"
  cr_merchants :: "'s MerchantRepository"
  cr_Acquire :: "string \<Rightarrow> int \<Rightarrow> 's \<Rightarrow> 's \<times> redisLock result"
  cr_Release :: "redisLock option \<Rightarrow> 's \<Rightarrow> 's \<times> unit result"
  cr_urlCache :: "'s URLCache option"
  cr_bucket :: "('s \<Rightarrow> 's \<times> unit result) option"
  cr_sleep :: "int \<Rightarrow> 's \<Rightarrow> 's"
  cr_defaultSuccessURL :: string
  cr_defaultCancelURL :: string

definition stripeCheckoutURL :: "string \<Rightarrow> string" where
  "stripeCheckoutURL sessionID = ''https://checkout.stripe.com/c/pay/'' @ sessionID"

definition withOrderQuery :: "string \<Rightarrow> string \<Rightarrow> string" where
  "withOrderQuery base orderID =
     (if base = [] then []
      else base @ (if Contains base ''?'' then ''&'' else ''?'') @ ''order_id='' @ orderID)"

definition cacheURL :: "'s checkoutResolver \<Rightarrow> string \<Rightarrow> string \<Rightarrow> 's \<Rightarrow> 's" where
  "cacheURL r cacheKey url s = (case cr_urlCache r of None \<Rightarrow> s | Some c \<Rightarrow> uc_Put c cacheKey url s)"

definition session_request :: "'s checkoutResolver \<Rightarrow> Transaction \<Rightarrow> CreateCheckoutRequest" where
  "session_request r order =
     \<lparr>cc_Amount = t_Amount order, cc_Currency = ToLower (t_Currency order), cc_PaymentMethodTypes = [''card''],
      cc_CustomerEmail = [],
      cc_SuccessURL = withOrderQuery (cr_defaultSuccessURL r) (t_OrderID order),
      cc_CancelURL = (if cr_defaultCancelURL r \<noteq> [] then withOrderQuery (cr_defaultCancelURL r) (t_OrderID order) else []),
      cc_ClientReferenceID = t_OrderID order,
      cc_Metadata = [(''order_id'', t_OrderID order), (''merchant_id'', t_MerchantID order)]\<rparr>"

definition session_key :: "Transaction \<Rightarrow> string" where
  "session_key order = ''checkout:'' @ t_MerchantID order @ '':'' @ t_OrderID order"

definition createSession :: "'s checkoutResolver \<Rightarrow> Transaction \<Rightarrow> 's \<Rightarrow> 's \<times> CheckoutSession result" where
  "createSession r order s = st_CreateCheckoutSession (cr_stripe r) (session_request r order) (session_key order) s"

definition resolveAfterLock ::
  "'s checkoutResolver \<Rightarrow> uint8 \<Rightarrow> string \<Rightarrow> string \<Rightarrow> string \<Rightarrow> 's \<Rightarrow> 's \<times> string result" where
  "resolveAfterLock r shardIdx merchantID orderID cacheKey s =
     (case tr_GetByMerchantOrderID (cr_repo r) shardIdx merchantID orderID s of
        (s', Inr order) \<Rightarrow>
          if t_StripeSessionID order \<noteq> []
          then (let url = stripeCheckoutURL (t_StripeSessionID order) in (cacheURL r cacheKey url s', Inr url))
          else (s', Inl (Sentinel ErrOrderNotReady))
      | (s', Inl _) \<Rightarrow> (s', Inl (Sentinel ErrOrderNotReady)))"

text \<open>Tier 4: only an exhausted bucket stops the call; any other failure of Redis lets it through.\<close>

definition bucket_allows :: "'s checkoutResolver \<Rightarrow> 's \<Rightarrow> 's \<times> bool" where
  "bucket_allows r s =
     (case cr_bucket r of
        None \<Rightarrow> (s, True)
      | Some allow \<Rightarrow>
          (case allow s of
             (s', Inr _) \<Rightarrow> (s', True)
           | (s', Inl e) \<Rightarrow> (s', \<not> errors_Is e ErrRateLimited)))"

text \<open>Tier 5: create the session, store its ids, warm the cache.\<close>

definition open_session ::
  "'s checkoutResolver \<Rightarrow> uint8 \<Rightarrow> string \<Rightarrow> string \<Rightarrow> string \<Rightarrow> Transaction \<Rightarrow> 's \<Rightarrow> 's \<times> string result" where
  "open_session r shardIdx merchantID orderID cacheKey order s =
     (case createSession r order s of
        (s1, Inl e) \<Rightarrow> (s1, Inl (if errors_Is e ErrCircuitOpen then Sentinel ErrUnavailable else e))
      | (s1, Inr session) \<Rightarrow>
          (case tr_UpdateCheckout (cr_repo r) shardIdx merchantID orderID (cs_ID session) (cs_PaymentIntentID session) s1 of
             (s2, _) \<Rightarrow> (cacheURL r cacheKey (cs_URL session) s2, Inr (cs_URL session))))"

text \<open>What runs between the acquisition and the deferred release of the lock.\<close>

definition under_lock ::
  "'s checkoutResolver \<Rightarrow> uint8 \<Rightarrow> string \<Rightarrow> string \<Rightarrow> string \<Rightarrow> Transaction \<Rightarrow> 's \<Rightarrow> 's \<times> string result" where
  "under_lock r shardIdx merchantID orderID cacheKey order s =
     (case tr_GetByMerchantOrderID (cr_repo r) shardIdx merchantID orderID s of
        (s1, res) \<Rightarrow>
          (let session = (case res of Inr cached \<Rightarrow> t_StripeSessionID cached | Inl _ \<Rightarrow> [])
           in if session \<noteq> []
              then (let url = stripeCheckoutURL session in (cacheURL r cacheKey url s1, Inr url))
              else case bucket_allows r s1 of
                (s2, allowed) \<Rightarrow>
                  if \<not> allowed then (s2, Inl (Sentinel ErrUnavailable))
                  else open_session r shardIdx merchantID orderID cacheKey order s2))"

definition cache_key :: "string \<Rightarrow> string \<Rightarrow> string" where
  "cache_key merchantID orderID = merchantID @ '':'' @ orderID"

definition Resolve :: "'s checkoutResolver \<Rightarrow> string \<Rightarrow> string \<Rightarrow> 's \<Rightarrow> 's \<times> string result" where
  "Resolve r merchantID orderID s =
     (let cacheKey = cache_key merchantID orderID
      in case (case cr_urlCache r of None \<Rightarrow> None | Some c \<Rightarrow> uc_Get c cacheKey s) of
        Some url \<Rightarrow> (s, Inr url)
      | None \<Rightarrow>
     (case mr_GetByMerchantID (cr_merchants r) merchantID s of
        (s1, Inl e) \<Rightarrow>
          (s1, Inl (if errors_Is e ErrMerchantNotFound then Sentinel ErrOrderNotFound else Wrapf ''load merchant'' e))
      | (s1, Inr merchant) \<Rightarrow>
     (case tr_GetByMerchantOrderID (cr_repo r) (m_ShardIndex merchant) merchantID orderID s1 of
        (s2, Inl e) \<Rightarrow>
          (s2, Inl (if errors_Is e ErrNotFound then Sentinel ErrOrderNotFound else Wrapf ''load order'' e))
      | (s2, Inr order) \<Rightarrow>
          if t_StripeSessionID order \<noteq> []
          then (let url = stripeCheckoutURL (t_StripeSessionID order) in (cacheURL r cacheKey url s2, Inr url))
          else (case cr_Acquire r (''checkout:'' @ cacheKey) 10000000000 s2 of
             (s3, Inl _) \<Rightarrow> resolveAfterLock r (m_ShardIndex merchant) merchantID orderID cacheKey (cr_sleep r 150000000 s3)
           | (s3, Inr lock) \<Rightarrow>
               (case under_lock r (m_ShardIndex merchant) merchantID orderID cacheKey order s3 of
                  (s4, res) \<Rightarrow> (fst (cr_Release r (Some lock) s4), res))))))"

section \<open>The resolver of a pod\<close>

text \<open>One pod adds its URL cache to the shared state.\<close>

record pod = gateway +
  urls :: urlCache

record 'x resolver_wiring =
  r_env :: db_env
  r_router :: "nat multiShardRouter"
  r_redis :: redis_env
  r_bucket :: "redisTokenBucket option"
  r_round :: "rat \<Rightarrow> rat"
  r_sleep :: "int \<Rightarrow> 'x pod_scheme \<Rightarrow> 'x pod_scheme"
  r_client :: "'x StripeClient"
  r_success :: string
  r_cancel :: string

definition NewCheckoutResolver :: "'x resolver_wiring \<Rightarrow> 'x pod_scheme checkoutResolver" where
  "NewCheckoutResolver w = \<lparr>
     cr_stripe = lift_client pod.more (\<lambda>x. pod.more_update (\<lambda>_. x)) (r_client w),
     cr_repo = NewTransactionRepository (r_env w) (r_router w),
     cr_merchants = NewMerchantRepository (r_env w) (r_router w) (router_LogicalCount (r_router w)),
     cr_Acquire = Acquire (r_redis w), cr_Release = Release (r_redis w),
     cr_urlCache = Some \<lparr>uc_Get = (\<lambda>k s. url_Get (env_clock (r_env w) (stmts s)) k (urls s)),
                         uc_Put = (\<lambda>k url s. s\<lparr>urls := url_Put (env_clock (r_env w) (stmts s)) k url (urls s)\<rparr>)\<rparr>,
     cr_bucket = map_option (tb_Allow (r_round w) (r_redis w)) (r_bucket w),
     cr_sleep = r_sleep w, cr_defaultSuccessURL = r_success w, cr_defaultCancelURL = r_cancel w\<rparr>"

section \<open>What each step can touch\<close>

text \<open>The rows and the client are as before; and Redis too.\<close>

definition same_data :: "'x pod_scheme \<Rightarrow> 'x pod_scheme \<Rightarrow> bool" where
  "same_data s s' \<longleftrightarrow> tables s' = tables s \<and> pod.more s' = pod.more s"

definition same_redis :: "'x pod_scheme \<Rightarrow> 'x pod_scheme \<Rightarrow> bool" where
  "same_redis s s' \<longleftrightarrow> same_data s s' \<and> rd_db s' = rd_db s \<and> rd_calls s' = rd_calls s"

lemma pod_more: "gateway.more s' = gateway.more s \<Longrightarrow> pod.more s' = pod.more s"
  by (cases s; cases s') simp

lemma same_data_refl [simp]: "same_data s s"
  by (simp add: same_data_def)

lemma same_data_trans: "same_data s t \<Longrightarrow> same_data t u \<Longrightarrow> same_data s u"
  by (simp add: same_data_def)

lemma same_redis_trans: "same_redis s t \<Longrightarrow> same_redis t u \<Longrightarrow> same_redis s u"
  by (simp add: same_redis_def same_data_def)

lemma GetByMerchantID_same: "GetByMerchantID env r mid s = (s', res) \<Longrightarrow> same_redis s s'"
  using GetByMerchantID_gateway [of env r mid s] pod_more [OF GetByMerchantID_gateway(7) [of env r mid s]]
  by (simp add: same_redis_def same_data_def)

lemma GetByMerchantOrderID_same: "GetByMerchantOrderID env r i mid oid s = (s', res) \<Longrightarrow> same_redis s s'"
  using reads_fields(1,7,10,19) [of env r i mid oid s] pod_more [OF reads_fields(19) [of env r i mid oid s]]
  by (simp add: same_redis_def same_data_def)

lemma redis_do_same: "redis_do env cmd s = (s', res) \<Longrightarrow> same_data s s'"
  by (auto simp: redis_do_def same_data_def Let_def split: prod.splits option.splits if_splits)

lemma Acquire_same: "Acquire env k ttl s = (s', res) \<Longrightarrow> same_data s s'"
  by (auto simp: Acquire_def SetNX_def Let_def split: prod.splits sum.splits dest: redis_do_same)

lemma Acquire_free:
  "Acquire env k ttl s = (s', Inr lk) \<Longrightarrow> live (rd_clock env (rd_calls s)) (rd_db s) (''lock:'' @ k) = None"
  by (auto simp: Acquire_def SetNX_def cmd_SetNX_def redis_do_def Let_def split: prod.splits sum.splits option.splits if_splits)

lemma Release_same: "same_data s (fst (Release env lk s))"
  by (auto simp: Release_def split: option.split prod.split sum.split dest: redis_do_same)

lemma tb_Allow_same: "tb_Allow fl env b s = (s', res) \<Longrightarrow> same_data s s'"
  by (auto simp: tb_Allow_def split: prod.splits sum.splits dest: redis_do_same)

lemma NewCheckoutResolver_simps [simp]:
  "cr_repo (NewCheckoutResolver w) = NewTransactionRepository (r_env w) (r_router w)"
  "mr_GetByMerchantID (cr_merchants (NewCheckoutResolver w)) = GetByMerchantID (r_env w) (r_router w)"
  "cr_Acquire (NewCheckoutResolver w) = Acquire (r_redis w)" "cr_Release (NewCheckoutResolver w) = Release (r_redis w)"
  "cr_bucket (NewCheckoutResolver w) = map_option (tb_Allow (r_round w) (r_redis w)) (r_bucket w)"
  "cr_sleep (NewCheckoutResolver w) = r_sleep w"
  by (simp_all add: NewCheckoutResolver_def NewMerchantRepository_def)

lemma cacheURL_same: "same_redis s (cacheURL (NewCheckoutResolver w) k url s)"
  by (simp add: cacheURL_def NewCheckoutResolver_def same_redis_def same_data_def)

lemma bucket_same: "bucket_allows (NewCheckoutResolver w) s = (s', ok) \<Longrightarrow> same_data s s'"
  by (auto simp: bucket_allows_def split: option.splits prod.splits sum.splits dest: tb_Allow_same)

lemma UpdateCheckout_more: "gateway.more (fst (UpdateCheckout env r i mid oid sess x s)) = gateway.more s"
  by (simp add: UpdateCheckout_def exec_update_def step_store_def Let_def split: sum.split option.split)

section \<open>Every outcome of a checkout link\<close>

definition with_session :: "string \<Rightarrow> string \<Rightarrow> int \<Rightarrow> Transaction \<Rightarrow> Transaction" where
  "with_session sess x upd t =
     t\<lparr>t_StripeSessionID := (if sess = [] then t_StripeSessionID t else sess),
       t_StripePaymentIntentID := (if x = [] then t_StripePaymentIntentID t else x), t_UpdatedAt := upd\<rparr>"

text \<open>One call to Stripe was made, for this order, and its ids went to the rows of the order.\<close>

definition created ::
  "'x resolver_wiring \<Rightarrow> uint8 \<Rightarrow> string \<Rightarrow> string \<Rightarrow> Transaction \<Rightarrow> 'x pod_scheme \<Rightarrow> 'x pod_scheme \<Rightarrow> string result \<Rightarrow> bool" where
  "created w i mid oid order s s' res \<longleftrightarrow>
     (case st_CreateCheckoutSession (r_client w) (session_request (NewCheckoutResolver w) order) (session_key order) (pod.more s) of
        (x, Inl e) \<Rightarrow>
          pod.more s' = x \<and> tables s' = tables s \<and> res = Inl (if errors_Is e ErrCircuitOpen then Sentinel ErrUnavailable else e)
      | (x, Inr session) \<Rightarrow>
          pod.more s' = x \<and> res = Inr (cs_URL session) \<and>
          (length (cs_ID session) \<le> 96 \<and> length (cs_PaymentIntentID session) \<le> 64 \<longrightarrow>
             (\<exists>upd. txn_view (r_router w) s' = (\<lambda>j tid. map_option (\<lambda>t.
                if router_colocated (r_router w) j i \<and> is_order (env_coll (r_env w)) mid oid t
                then with_session (cs_ID session) (cs_PaymentIntentID session) upd t else t) (txn_view (r_router w) s j tid)))))"

lemma created_later:
  assumes "created w i mid oid order s t res" and "same_data t u"
  shows "created w i mid oid order s u res"
proof -
  have "tables u = tables t" "pod.more u = pod.more t" "txn_view (r_router w) u = txn_view (r_router w) t"
    using assms(2) txn_view_tables by (auto simp: same_data_def)
  with assms(1) show ?thesis
    by (simp add: created_def split: prod.splits sum.splits)
qed

lemma created_earlier:
  assumes "created w i mid oid order t u res" and "same_data s t"
  shows "created w i mid oid order s u res"
proof -
  have "tables t = tables s" "pod.more t = pod.more s" "txn_view (r_router w) t = txn_view (r_router w) s"
    using assms(2) txn_view_tables by (auto simp: same_data_def)
  with assms(1) show ?thesis
    by (simp add: created_def split: prod.splits sum.splits)
qed

lemma createSession_pod:
  "createSession (NewCheckoutResolver w) order s =
     (case st_CreateCheckoutSession (r_client w) (session_request (NewCheckoutResolver w) order) (session_key order) (pod.more s) of
        (x, res) \<Rightarrow> (s\<lparr>pod.more := x\<rparr>, res))"
  by (simp add: createSession_def NewCheckoutResolver_def lift_client_def lift_port_def)

lemma open_session_created:
  assumes "repo_good (r_env w) (r_router w) s" "router_known (r_router w) i" "valid_order_id oid"
    and o: "open_session (NewCheckoutResolver w) i mid oid k order s = (s', res)"
  shows "created w i mid oid order s s' res"
proof -
  obtain x ans where st: "st_CreateCheckoutSession (r_client w) (session_request (NewCheckoutResolver w) order)
      (session_key order) (pod.more s) = (x, ans)"
    by fastforce
  let ?s1 = "s\<lparr>pod.more := x\<rparr>"
  show ?thesis
  proof (cases ans)
    case (Inl e)
    then show ?thesis
      using o st by (auto simp: open_session_def createSession_pod created_def)
  next
    case (Inr session)
    obtain s2 upres where u: "UpdateCheckout (r_env w) (r_router w) i mid oid (cs_ID session) (cs_PaymentIntentID session) ?s1 = (s2, upres)"
      by fastforce
    with o st Inr have s': "s' = cacheURL (NewCheckoutResolver w) k (cs_URL session) s2" "res = Inr (cs_URL session)"
      by (auto simp: open_session_def createSession_pod)
    have data: "same_data s2 s'"
      unfolding s' using cacheURL_same same_redis_def by blast
    have more: "pod.more s2 = x"
      using pod_more [OF UpdateCheckout_more [of "r_env w" "r_router w" i mid oid "cs_ID session" "cs_PaymentIntentID session" ?s1]] u
      by simp
    have "\<exists>upd. txn_view (r_router w) s2 = (\<lambda>j tid. map_option (\<lambda>t.
        if router_colocated (r_router w) j i \<and> is_order (env_coll (r_env w)) mid oid t
        then with_session (cs_ID session) (cs_PaymentIntentID session) upd t else t) (txn_view (r_router w) s j tid))"
      if "length (cs_ID session) \<le> 96" "length (cs_PaymentIntentID session) \<le> 64"
    proof -
      have "repo_good (r_env w) (r_router w) ?s1" "txn_view (r_router w) ?s1 = txn_view (r_router w) s"
        using assms(1) by (simp_all add: repo_good_same [of ?s1 s] txn_view_tables [of ?s1 s])
      with txr.update_checkout [OF _ assms(2,3) that, of "r_env w" ?s1 mid] u show ?thesis
        unfolding is_order_def with_session_def by auto
    qed
    then have "created w i mid oid order s s2 res"
      using st Inr more s'(2) by (simp add: created_def)
    then show ?thesis
      by (rule created_later [OF _ data])
  qed
qed

text \<open>What a lookup of the order returns, on rows that are those of \<open>s\<close>.\<close>

lemma loaded_order:
  assumes "repo_good (r_env w) (r_router w) s" "router_known (r_router w) i" "valid_order_id oid" "same_data s t"
    and g: "GetByMerchantOrderID (r_env w) (r_router w) i mid oid t = (u, res)"
  shows "case res of
     Inr order \<Rightarrow> txn_view (r_router w) s i (t_TransactionID order) = Some order \<and> is_order (env_coll (r_env w)) mid oid order
   | Inl e \<Rightarrow> e = Sentinel ErrNotFound \<and>
       (\<forall>tid t. txn_view (r_router w) s i tid = Some t \<longrightarrow> \<not> is_order (env_coll (r_env w)) mid oid t)"
proof -
  have t: "repo_good (r_env w) (r_router w) t" "txn_view (r_router w) t = txn_view (r_router w) s"
    using assms(1,4) by (simp_all add: same_data_def repo_good_same [of t s] txn_view_tables [of t s])
  from txr.get_order [OF t(1) assms(2,3), of mid] g show ?thesis
    unfolding t(2) is_order_def by auto
qed

lemma under_lock_outcome:
  assumes good: "repo_good (r_env w) (r_router w) s" "router_known (r_router w) i" "valid_order_id oid" "same_data s t"
    and u: "under_lock (NewCheckoutResolver w) i mid oid k order t = (s', res)"
  shows "same_data s s' \<and> (res = Inl (Sentinel ErrUnavailable) \<or> (\<exists>sess. sess \<noteq> [] \<and> res = Inr (stripeCheckoutURL sess))) \<or>
    created w i mid oid order s s' res"
proof -
  obtain s1 r1 where g: "GetByMerchantOrderID (r_env w) (r_router w) i mid oid t = (s1, r1)"
    by fastforce
  let ?sess = "case r1 of Inr cached \<Rightarrow> t_StripeSessionID cached | Inl _ \<Rightarrow> []"
  have s1: "same_data s s1"
    using GetByMerchantOrderID_same [OF g] good(4) by (auto simp: same_redis_def intro: same_data_trans)
  show ?thesis
  proof (cases "?sess = []")
    case False
    with u g have "s' = cacheURL (NewCheckoutResolver w) k (stripeCheckoutURL ?sess) s1" "res = Inr (stripeCheckoutURL ?sess)"
      by (auto simp: under_lock_def Let_def)
    with False s1 cacheURL_same [of s1 w k] show ?thesis
      by (auto simp: same_redis_def intro: same_data_trans)
  next
    case True
    obtain s2 ok where b: "bucket_allows (NewCheckoutResolver w) s1 = (s2, ok)"
      by fastforce
    have s2: "same_data s s2"
      using bucket_same [OF b] s1 by (rule same_data_trans [rotated])
    show ?thesis
    proof (cases ok)
      case False
      with True u g b s2 show ?thesis
        by (auto simp: under_lock_def Let_def)
    next
      case ok: True
      with True u g b have o: "open_session (NewCheckoutResolver w) i mid oid k order s2 = (s', res)"
        by (auto simp: under_lock_def Let_def)
      have "repo_good (r_env w) (r_router w) s2"
        using good(1) s2 by (simp add: same_data_def repo_good_same [of s2 s])
      from open_session_created [OF this good(2,3) o] s2 show ?thesis
        by (blast intro: created_earlier)
    qed
  qed
qed

text \<open>An order without a session: what follows the lookup.\<close>

lemma resolve_new:
  assumes good: "repo_good (r_env w) (r_router w) s" "router_known (r_router w) i" "valid_order_id oid"
    and sleep: "\<forall>d t. pod.more (r_sleep w d t) = pod.more t" and s2: "same_redis s s2"
    and R: "(case Acquire (r_redis w) (''checkout:'' @ cache_key mid oid) 10000000000 s2 of
        (s3, Inl _) \<Rightarrow> resolveAfterLock (NewCheckoutResolver w) i mid oid (cache_key mid oid) (r_sleep w 150000000 s3)
      | (s3, Inr lock) \<Rightarrow>
          (case under_lock (NewCheckoutResolver w) i mid oid (cache_key mid oid) order s3 of
             (s4, res) \<Rightarrow> (fst (Release (r_redis w) (Some lock) s4), res))) = (s', res)"
  shows "pod.more s' = pod.more s \<and>
      (res \<in> {Inl (Sentinel ErrOrderNotReady), Inl (Sentinel ErrUnavailable)} \<or>
       (\<exists>sess. sess \<noteq> [] \<and> res = Inr (stripeCheckoutURL sess)))
    \<or> live (rd_clock (r_redis w) (rd_calls s)) (rd_db s) (''lock:checkout:'' @ cache_key mid oid) = None \<and>
      created w i mid oid order s s' res"
proof -
  let ?k = "cache_key mid oid"
  obtain s3 r3 where 3: "Acquire (r_redis w) (''checkout:'' @ ?k) 10000000000 s2 = (s3, r3)"
    by fastforce
  have s3: "same_data s s3"
    using Acquire_same [OF 3] s2 by (auto simp: same_redis_def intro: same_data_trans)
  show ?thesis
  proof (cases r3)
    case (Inl e)
    let ?t = "r_sleep w 150000000 s3"
    obtain s4 r4 where 4: "GetByMerchantOrderID (r_env w) (r_router w) i mid oid ?t = (s4, r4)"
      by fastforce
    have "pod.more s4 = pod.more s"
      using GetByMerchantOrderID_same [OF 4] s3 sleep by (auto simp: same_redis_def same_data_def)
    with Inl R 3 4 cacheURL_same [of s4 w ?k] show ?thesis
      by (auto simp: resolveAfterLock_def Let_def same_redis_def same_data_def split: sum.splits if_splits)
  next
    case lock: (Inr lock)
    obtain s4 where 4: "under_lock (NewCheckoutResolver w) i mid oid ?k order s3 = (s4, res)"
      and s': "s' = fst (Release (r_redis w) (Some lock) s4)"
      using R 3 lock by (auto split: prod.splits)
    have "live (rd_clock (r_redis w) (rd_calls s)) (rd_db s) (''lock:checkout:'' @ ?k) = None"
      using Acquire_free [OF 3 [unfolded lock]] s2 by (simp add: same_redis_def)
    with under_lock_outcome [OF good s3 4] Release_same [of s4 "r_redis w" "Some lock"] show ?thesis
      unfolding s' by (auto simp: same_data_def intro: created_later)
  qed
qed

text \<open>C26. Every outcome of opening a checkout link that is not in the cache of the pod, with a healthy
  database and any behaviour of Redis and Stripe. An unknown order is \<^verbatim>\<open>ErrOrderNotFound\<close>; an order
  with a session gets the link of that session, without a call to Stripe and without a change; an
  order without a session ends, without a call to Stripe, in a refusal or in the link of a session
  stored meanwhile, or in exactly one call to Stripe for the stored amount, currency and ids, made
  only if the lock of the order was free; its session is returned and, if its ids fit the columns,
  stored in exactly the rows of the order.\<close>

theorem resolve_outcome:
  assumes "repo_good (r_env w) (r_router w) s" and "valid_order_id oid"
    and "url_Get (env_clock (r_env w) (stmts s)) (cache_key mid oid) (urls s) = None"
    and m: "snd (GetByMerchantID (r_env w) (r_router w) mid s) = Inr m" "router_known (r_router w) (m_ShardIndex m)"
    and sleep: "\<forall>d t. pod.more (r_sleep w d t) = pod.more t"
    and R: "Resolve (NewCheckoutResolver w) mid oid s = (s', res)"
  shows "if \<forall>tid t. txn_view (r_router w) s (m_ShardIndex m) tid = Some t \<longrightarrow> \<not> is_order (env_coll (r_env w)) mid oid t
    then same_data s s' \<and> res = Inl (Sentinel ErrOrderNotFound)
    else \<exists>order. txn_view (r_router w) s (m_ShardIndex m) (t_TransactionID order) = Some order \<and>
      is_order (env_coll (r_env w)) mid oid order \<and>
      (if t_StripeSessionID order \<noteq> [] then same_data s s' \<and> res = Inr (stripeCheckoutURL (t_StripeSessionID order))
       else pod.more s' = pod.more s \<and>
           (res \<in> {Inl (Sentinel ErrOrderNotReady), Inl (Sentinel ErrUnavailable)} \<or>
            (\<exists>sess. sess \<noteq> [] \<and> res = Inr (stripeCheckoutURL sess)))
         \<or> live (rd_clock (r_redis w) (rd_calls s)) (rd_db s) (''lock:checkout:'' @ cache_key mid oid) = None \<and>
           created w (m_ShardIndex m) mid oid order s s' res)"
proof -
  let ?N = "NewCheckoutResolver w" and ?k = "cache_key mid oid" and ?i = "m_ShardIndex m"
  obtain s1 where 1: "GetByMerchantID (r_env w) (r_router w) mid s = (s1, Inr m)"
    using m(1) by (metis prod.collapse)
  obtain s2 r2 where 2: "GetByMerchantOrderID (r_env w) (r_router w) ?i mid oid s1 = (s2, r2)"
    by fastforce
  have s1: "same_redis s s1" and s2: "same_redis s s2"
    using GetByMerchantID_same [OF 1] GetByMerchantOrderID_same [OF 2] same_redis_trans by blast+
  have miss: "(case cr_urlCache ?N of None \<Rightarrow> None | Some c \<Rightarrow> uc_Get c ?k s) = None"
    using assms(3) by (simp add: NewCheckoutResolver_def)
  note loaded = loaded_order [OF assms(1) m(2) assms(2) _ 2]
  show ?thesis
  proof (cases r2)
    case (Inl e)
    with R 1 2 miss loaded s1 s2 show ?thesis
      by (auto simp: Resolve_def Let_def same_redis_def)
  next
    case (Inr order)
    with loaded s1 have o: "txn_view (r_router w) s ?i (t_TransactionID order) = Some order"
      "is_order (env_coll (r_env w)) mid oid order"
      by (auto simp: same_redis_def)
    have Rest: "if t_StripeSessionID order \<noteq> []
      then cacheURL ?N ?k (stripeCheckoutURL (t_StripeSessionID order)) s2 = s' \<and> res = Inr (stripeCheckoutURL (t_StripeSessionID order))
      else (case Acquire (r_redis w) (''checkout:'' @ ?k) 10000000000 s2 of
          (s3, Inl _) \<Rightarrow> resolveAfterLock ?N ?i mid oid ?k (r_sleep w 150000000 s3)
        | (s3, Inr lock) \<Rightarrow>
            (case under_lock ?N ?i mid oid ?k order s3 of (s4, res) \<Rightarrow> (fst (Release (r_redis w) (Some lock) s4), res))) = (s', res)"
      using R 1 2 miss Inr by (auto simp: Resolve_def Let_def)
    show ?thesis
    proof (cases "t_StripeSessionID order = []")
      case True
      with Rest resolve_new [OF assms(1) m(2) assms(2) sleep s2, of mid order s' res] o show ?thesis
        by auto
    next
      case False
      with Rest s2 cacheURL_same [of s2 w ?k] have "same_data s s' \<and> res = Inr (stripeCheckoutURL (t_StripeSessionID order))"
        by (auto simp: same_redis_def intro: same_data_trans)
      with False o show ?thesis
        by auto
    qed
  qed
qed

definition demo_pod :: pod where
  "demo_pod = \<lparr>tables = tables demo_stuck, stmts = 0, merchants = [demo_payer ''M1''], mcache = newLRUCache 1024 300000000000,
     rd_db = (\<lambda>k. None), rd_calls = 0, topic = [], writes = 0, urls = NewURLCache 100 60000000000\<rparr>"

definition demo_links :: "unit resolver_wiring" where
  "demo_links = \<lparr>r_env = demo_env, r_router = demo_router,
     r_redis = \<lparr>rd_fault = (\<lambda>n. None), rd_clock = (\<lambda>n. int n * 1000000000), rd_uuid = (\<lambda>n. [])\<rparr>,
     r_bucket = None, r_round = (\<lambda>x. x), r_sleep = (\<lambda>d s. s), r_client = demo_stripe,
     r_success = ''https://shop/ok'', r_cancel = []\<rparr>"

theorem resolve_outcome_witness:
  "snd (Resolve (NewCheckoutResolver demo_links) ''M1'' ''o-1'' demo_pod) \<noteq> Inl (Sentinel ErrOrderNotFound)"
proof -
  have good: "repo_good demo_env demo_router demo_pod"
    using demo_stuck_good by (simp add: repo_good_def txn_inv_def demo_pod_def)
  have m: "snd (GetByMerchantID demo_env demo_router ''M1'' demo_pod) = Inr (demo_payer ''M1'')"
    by (simp add: GetByMerchantID_def query_merchant_def scanMerchant_def demo_pod_def demo_env_def lru_get_def newLRUCache_def
        demo_payer_def demo_merchant_def)
  have row: "txn_view demo_router demo_pod 3 (hexLower (row_transaction_id (demo_row 9 80))) = Some (row_txn 3 (demo_row 9 80))"
    using good by (intro txn_view_row [where p = 1])
      (simp_all add: repo_good_def demo_router_def router_For_def demo_pod_def demo_stuck_def)
  have w: "r_env demo_links = demo_env" "r_router demo_links = demo_router" "\<forall>d t. pod.more (r_sleep demo_links d t) = pod.more t"
    "url_Get now k (urls demo_pod) = None" for now k
    by (simp_all add: demo_links_def demo_pod_def NewURLCache_def url_Get_def)
  obtain s' res where R: "Resolve (NewCheckoutResolver demo_links) ''M1'' ''o-1'' demo_pod = (s', res)"
    by fastforce
  note out = resolve_outcome [where w = demo_links and s = demo_pod, unfolded w(1,2), OF good demo_oid w(4) m demo_payer_known w(3) R,
      unfolded demo_shard]
  have "res \<noteq> Inl (Sentinel ErrOrderNotFound)" if "created demo_links 3 ''M1'' ''o-1'' order demo_pod s' res" for order
    using that by (auto simp: created_def demo_links_def demo_stripe_def NewFake_def split: prod.splits)
  with out row demo_gateway_order show ?thesis
    unfolding R by (auto split: if_splits)
qed

text \<open>The key of the URL cache joins its parts with a colon, which both may contain.\<close>

lemma resolve_cache_collision:
  assumes "url_Get (env_clock (r_env w) (stmts s)) (cache_key (a @ '':'' @ b) c) (urls s) = Some url"
  shows "Resolve (NewCheckoutResolver w) a (b @ '':'' @ c) s = (s, Inr url)"
  using assms by (simp add: Resolve_def NewCheckoutResolver_def cache_key_def)

end
