(* ===== verification/Reconciliation.thy ===== *)
theory Reconciliation
  imports WebhookService
begin

text \<open>
  \<^verbatim>\<open>internal/service/reconciliation.go\<close>: the background job that asks Stripe about transactions pending
  for too long. \<open>rc_select\<close> is the \<^verbatim>\<open>select\<close> of its loop, which yields the error of a cancelled context
  or a tick; the loop is bounded by a number of turns. Log messages are left out.
\<close>

section \<open>The reconciler\<close>

record 's orderReconciliation =
  rc_Orders :: "'s TransactionRepository"
  rc_Stripe :: "'s StripeClient"
  rc_Publisher :: "'s EventPublisher"
  rc_Interval :: int
  rc_StuckAfter :: int
  rc_BatchSize :: int
  rc_clock :: "'s \<Rightarrow> int"
  rc_select :: "'s \<Rightarrow> 's \<times> goerr option"

record ReconciliationOptions =
  opt_Interval :: int
  opt_StuckAfter :: int
  opt_BatchSize :: int

definition NewOrderReconciliationWithOptions ::
  "'s TransactionRepository \<Rightarrow> 's StripeClient \<Rightarrow> 's EventPublisher \<Rightarrow> ReconciliationOptions \<Rightarrow>
    ('s \<Rightarrow> int) \<Rightarrow> ('s \<Rightarrow> 's \<times> goerr option) \<Rightarrow> 's orderReconciliation" where
  "NewOrderReconciliationWithOptions orders st p opts clock select = \<lparr>
     rc_Orders = orders, rc_Stripe = st, rc_Publisher = p,
     rc_Interval = (if opt_Interval opts = 0 then 5 * 60 * 1000000000 else opt_Interval opts),
     rc_StuckAfter = (if opt_StuckAfter opts = 0 then 10 * 60 * 1000000000 else opt_StuckAfter opts),
     rc_BatchSize = (if opt_BatchSize opts = 0 then 500 else opt_BatchSize opts),
     rc_clock = clock, rc_select = select\<rparr>"

definition NewOrderReconciliation ::
  "'s TransactionRepository \<Rightarrow> 's StripeClient \<Rightarrow> 's EventPublisher \<Rightarrow>
    ('s \<Rightarrow> int) \<Rightarrow> ('s \<Rightarrow> 's \<times> goerr option) \<Rightarrow> 's orderReconciliation" where
  "NewOrderReconciliation orders st p =
     NewOrderReconciliationWithOptions orders st p \<lparr>opt_Interval = 0, opt_StuckAfter = 0, opt_BatchSize = 0\<rparr>"

definition forced_event :: "Transaction \<Rightarrow> PaymentIntent \<Rightarrow> int \<Rightarrow> PaymentConfirmedEvent" where
  "forced_event o' intent now =
     \<lparr>ev_OrderID = t_OrderID o', ev_MerchantID = t_MerchantID o', ev_Status = TransactionStatusPaid,
      ev_StripePaymentIntentID = pi_ID intent, ev_Amount = t_Amount o', ev_Currency = t_Currency o',
      ev_ConfirmedAt = unix now\<rparr>"

definition reconcileOne :: "'s orderReconciliation \<Rightarrow> Transaction \<Rightarrow> 's \<Rightarrow> 's" where
  "reconcileOne r o' s =
     (if t_StripePaymentIntentID o' = [] then s
      else case st_GetPaymentIntent (rc_Stripe r) (t_StripePaymentIntentID o') s of
        (s1, Inl _) \<Rightarrow> s1
      | (s1, Inr intent) \<Rightarrow>
          if pi_Status intent = ''succeeded''
          then (case tr_UpdateStatus (rc_Orders r) (t_ShardIndex o') (t_MerchantID o') (t_OrderID o')
                       TransactionStatusPaid (pi_ID intent) s1 of
                  (s2, Inl _) \<Rightarrow> s2
                | (s2, Inr _) \<Rightarrow>
                    fst (ep_PublishPaymentConfirmed (rc_Publisher r) (forced_event o' intent (rc_clock r s2)) s2))
          else if pi_Status intent = ''canceled'' \<or> pi_Status intent = ''requires_payment_method''
          then fst (tr_UpdateStatus (rc_Orders r) (t_ShardIndex o') (t_MerchantID o') (t_OrderID o')
                      TransactionStatusFailed (pi_ID intent) s1)
          else s1)"

definition tick :: "'s orderReconciliation \<Rightarrow> 's \<Rightarrow> 's \<times> unit result" where
  "tick r s =
     (case tr_GetPendingBefore (rc_Orders r) (rc_clock r s - rc_StuckAfter r) (rc_BatchSize r) s of
        (s', Inl e) \<Rightarrow> (s', Inl (Wrapf ''list stuck orders'' e))
      | (s', Inr stuck) \<Rightarrow> (fold (reconcileOne r) stuck s', Inr ()))"

text \<open>\<open>n\<close> turns of the loop; \<^const>\<open>Some\<close> is the error it returns when the context is done.\<close>

fun reconcile_Run :: "nat \<Rightarrow> 's orderReconciliation \<Rightarrow> 's \<Rightarrow> 's \<times> goerr option" where
  "reconcile_Run 0 r s = (s, None)"
| "reconcile_Run (Suc n) r s =
     (case rc_select r s of
        (s', Some e) \<Rightarrow> (s', Some e)
      | (s', None) \<Rightarrow> reconcile_Run n r (fst (tick r s')))"

section \<open>The verdict on one transaction\<close>

text \<open>
  The reconciler over the gateway, and a Stripe client whose answers \<open>ans\<close> stay the same during a tick.
\<close>

definition reconciler :: "'x wiring \<Rightarrow> ReconciliationOptions \<Rightarrow> ('x gateway_scheme \<Rightarrow> 'x gateway_scheme \<times> goerr option) \<Rightarrow>
    'x gateway_scheme orderReconciliation" where
  "reconciler w opts select =
     NewOrderReconciliationWithOptions (NewTransactionRepository (w_env w) (w_router w)) (gateway_stripe (w_client w))
       (NewPublisher (w_marshal w) (w_kafka w)) opts (\<lambda>s. env_clock (w_env w) (stmts s)) select"

definition judge :: "(string \<Rightarrow> PaymentIntent result) \<Rightarrow> Transaction \<Rightarrow> (string \<times> string) option" where
  "judge ans o' =
     (if t_StripePaymentIntentID o' = [] then None
      else case ans (t_StripePaymentIntentID o') of
        Inl _ \<Rightarrow> None
      | Inr intent \<Rightarrow>
          if pi_Status intent = ''succeeded'' then Some (TransactionStatusPaid, pi_ID intent)
          else if pi_Status intent = ''canceled'' \<or> pi_Status intent = ''requires_payment_method''
          then Some (TransactionStatusFailed, pi_ID intent)
          else None)"

definition answers :: "'x wiring \<Rightarrow> (string \<Rightarrow> PaymentIntent result) \<Rightarrow> bool" where
  "answers w ans \<longleftrightarrow> (\<forall>x y. snd (st_GetPaymentIntent (w_client w) x y) = ans x) \<and>
     (\<forall>x intent. ans x = Inr intent \<longrightarrow> length (pi_ID intent) \<le> 64)"

definition hits :: "'x wiring \<Rightarrow> Transaction \<Rightarrow> uint8 \<Rightarrow> Transaction \<Rightarrow> bool" where
  "hits w o' j t \<longleftrightarrow> router_colocated (w_router w) j (t_ShardIndex o') \<and>
     is_order (env_coll (w_env w)) (t_MerchantID o') (t_OrderID o') t"

definition apply_verdict ::
  "'x wiring \<Rightarrow> (string \<Rightarrow> PaymentIntent result) \<Rightarrow> Transaction \<Rightarrow> int \<Rightarrow> uint8 \<Rightarrow> Transaction \<Rightarrow> Transaction" where
  "apply_verdict w ans o' upd j t =
     (case judge ans o' of None \<Rightarrow> t | Some (st, x) \<Rightarrow> if hits w o' j t then with_status st x upd t else t)"

lemma hits_status [simp]: "hits w o' j (with_status st x upd t) = hits w o' j t"
  by (simp add: hits_def)

lemma apply_verdict_fields [simp]:
  "hits w p j (apply_verdict w ans o' upd i t) = hits w p j t"
  "is_order same mid oid (apply_verdict w ans o' upd i t) = is_order same mid oid t"
  by (simp_all add: apply_verdict_def split: option.split)

lemma judge_valid: "judge ans o' = Some (st, x) \<Longrightarrow> TransactionStatus_Valid st"
  by (auto simp: judge_def TransactionStatus_Valid_def split: sum.splits if_splits)

lemma judge_fits: "answers w ans \<Longrightarrow> judge ans o' = Some (st, x) \<Longrightarrow> length x \<le> 64"
  by (auto simp: judge_def answers_def split: sum.splits if_splits)

lemma apply_verdict_None: "judge ans o' = None \<Longrightarrow> apply_verdict w ans o' upd j = (\<lambda>t. t)"
  by (simp add: apply_verdict_def fun_eq_iff)

lemma map_option_ident: "map_option (\<lambda>t. t) v = v"
  by (cases v) simp_all

lemma reconciler_simps [simp]:
  "rc_Orders (reconciler w opts select) = NewTransactionRepository (w_env w) (w_router w)"
  "rc_Stripe (reconciler w opts select) = gateway_stripe (w_client w)"
  "ep_PublishPaymentConfirmed (rc_Publisher (reconciler w opts select)) = PublishPaymentConfirmed (w_marshal w) (WriteMessages (w_kafka w))"
  "rc_clock (reconciler w opts select) s = env_clock (w_env w) (stmts s)"
  by (simp_all add: reconciler_def NewOrderReconciliationWithOptions_def NewPublisher_def)

text \<open>A call that changes neither rows nor topic can be skipped.\<close>

lemma get_intent:
  assumes "answers w ans"
  obtains s1 where "st_GetPaymentIntent (gateway_stripe (w_client w)) x s = (s1, ans x)" "tables s1 = tables s" "topic s1 = topic s"
proof -
  obtain y res where "st_GetPaymentIntent (w_client w) x (gateway.more s) = (y, res)"
    by fastforce
  moreover from this assms have "res = ans x"
    by (metis answers_def snd_conv)
  ultimately show thesis
    by (intro that [of "s\<lparr>gateway.more := y\<rparr>"]) simp_all
qed

text \<open>Which state \<open>reconcileOne\<close> leaves the rows in: that of the status update, if there is a verdict.\<close>

lemma reconcileOne_tables:
  fixes w :: "'x wiring" and s :: "'x gateway_scheme"
  assumes "answers w ans"
  obtains s1 :: "'x gateway_scheme" where "tables s1 = tables s" "topic s1 = topic s"
    "tables (reconcileOne (reconciler w opts select) o' s) =
      (case judge ans o' of
         None \<Rightarrow> tables s1
       | Some (st, x) \<Rightarrow> tables (fst (UpdateStatus (w_env w) (w_router w) (t_ShardIndex o') (t_MerchantID o') (t_OrderID o') st x s1)))"
proof (cases "t_StripePaymentIntentID o' = []")
  case True
  then show thesis
    by (intro that [of s]) (simp_all add: reconcileOne_def judge_def)
next
  case False
  obtain s1 where 1: "st_GetPaymentIntent (gateway_stripe (w_client w)) (t_StripePaymentIntentID o') s =
      (s1, ans (t_StripePaymentIntentID o'))" "tables s1 = tables s" "topic s1 = topic s"
    by (rule get_intent [OF assms])
  have "tables (reconcileOne (reconciler w opts select) o' s) =
      (case judge ans o' of
         None \<Rightarrow> tables s1
       | Some (st, x) \<Rightarrow> tables (fst (UpdateStatus (w_env w) (w_router w) (t_ShardIndex o') (t_MerchantID o') (t_OrderID o') st x s1)))"
    using False 1(1) by (auto simp: reconcileOne_def judge_def split: sum.split prod.split)
  with 1(2,3) show thesis
    by (rule that)
qed

lemma reconcileOne_view:
  fixes w :: "'x wiring"
  assumes ans: "answers w ans" and good: "repo_good (w_env w) (w_router w) s"
    and o': "router_known (w_router w) (t_ShardIndex o')" "valid_order_id (t_OrderID o')"
  shows "repo_good (w_env w) (w_router w) (reconcileOne (reconciler w opts select) o' s) \<and>
    (\<exists>upd. txn_view (w_router w) (reconcileOne (reconciler w opts select) o' s) =
      (\<lambda>j tid. map_option (apply_verdict w ans o' upd j) (txn_view (w_router w) s j tid)))"
    (is "repo_good _ _ ?s' \<and> ?view")
proof -
  obtain s1 :: "'x gateway_scheme" where s1: "tables s1 = tables s" "topic s1 = topic s" and t: "tables ?s' =
      (case judge ans o' of
         None \<Rightarrow> tables s1
       | Some (st, x) \<Rightarrow> tables (fst (UpdateStatus (w_env w) (w_router w) (t_ShardIndex o') (t_MerchantID o') (t_OrderID o') st x s1)))"
    by (rule reconcileOne_tables [OF ans])
  have good1: "repo_good (w_env w) (w_router w) s1" and v1: "txn_view (w_router w) s1 = txn_view (w_router w) s"
    using good s1 by (simp_all add: repo_good_same [of s1 s] txn_view_tables [of s1 s])
  show ?thesis
  proof (cases "judge ans o'")
    case None
    then have "tables ?s' = tables s"
      using t s1 by simp
    with good None show ?thesis
      by (simp add: repo_good_same [of ?s' s] txn_view_tables [of ?s' s] apply_verdict_None map_option_ident)
  next
    case (Some p)
    then obtain st x where j: "judge ans o' = Some (st, x)"
      by (cases p) simp
    from txr.update_status [OF good1 o' judge_valid [OF j] judge_fits [OF ans j], of "t_MerchantID o'"]
    obtain s2 upd where u: "fst (UpdateStatus (w_env w) (w_router w) (t_ShardIndex o') (t_MerchantID o') (t_OrderID o') st x s1) = s2"
      and good2: "repo_good (w_env w) (w_router w) s2"
      and v2: "txn_view (w_router w) s2 = (\<lambda>j tid. map_option (apply_verdict w ans o' upd j) (txn_view (w_router w) s j tid))"
      unfolding apply_verdict_def j hits_def is_order_def with_status_def v1 by (elim exE conjE) auto
    have "tables ?s' = tables s2"
      using t j u by simp
    with good2 v2 show ?thesis
      by (metis repo_good_same txn_view_tables)
  qed
qed

section \<open>A whole batch\<close>

text \<open>The verdicts a batch holds for a row, and a row settled by them.\<close>

definition verdicts :: "'x wiring \<Rightarrow> (string \<Rightarrow> PaymentIntent result) \<Rightarrow> Transaction list \<Rightarrow> uint8 \<Rightarrow> Transaction \<Rightarrow> string set" where
  "verdicts w ans stuck j t = {st. \<exists>o' \<in> set stuck. hits w o' j t \<and> (\<exists>x. judge ans o' = Some (st, x))}"

definition settled_by :: "'x wiring \<Rightarrow> (string \<Rightarrow> PaymentIntent result) \<Rightarrow> Transaction list \<Rightarrow> uint8 \<Rightarrow> Transaction \<Rightarrow> Transaction \<Rightarrow> bool" where
  "settled_by w ans stuck j t t' \<longleftrightarrow>
     t_MerchantID t' = t_MerchantID t \<and> t_OrderID t' = t_OrderID t \<and> t_TransactionID t' = t_TransactionID t \<and>
     t_Amount t' = t_Amount t \<and> t_Currency t' = t_Currency t \<and>
     (if verdicts w ans stuck j t = {} then t' = t else t_Status t' \<in> verdicts w ans stuck j t)"

lemma verdicts_Nil [simp]: "verdicts w ans [] j t = {}"
  by (simp add: verdicts_def)

lemma verdicts_Cons:
  "verdicts w ans (o' # os) j t =
    (case judge ans o' of Some (st, x) \<Rightarrow> if hits w o' j t then {st} else {} | None \<Rightarrow> {}) \<union> verdicts w ans os j t"
  by (auto simp: verdicts_def split: option.splits)

lemma verdicts_hits: "(\<And>o'. hits w o' j u = hits w o' j t) \<Longrightarrow> verdicts w ans os j u = verdicts w ans os j t"
  by (simp add: verdicts_def)

lemma settled_by_Cons:
  assumes "settled_by w ans os j (apply_verdict w ans o' upd j t) t'"
  shows "settled_by w ans (o' # os) j t t'"
proof -
  have "verdicts w ans os j (apply_verdict w ans o' upd j t) = verdicts w ans os j t"
    by (rule verdicts_hits) simp
  with assms show ?thesis
    by (auto simp: settled_by_def verdicts_Cons apply_verdict_def split: option.splits if_splits)
qed

lemma reconcile_batch:
  assumes ans: "answers w ans" and "repo_good (w_env w) (w_router w) s"
    and "\<forall>o' \<in> set stuck. router_known (w_router w) (t_ShardIndex o') \<and> valid_order_id (t_OrderID o')"
  shows "repo_good (w_env w) (w_router w) (fold (reconcileOne (reconciler w opts select)) stuck s) \<and>
    (\<exists>F. (\<forall>j t. settled_by w ans stuck j t (F j t)) \<and>
      txn_view (w_router w) (fold (reconcileOne (reconciler w opts select)) stuck s) =
        (\<lambda>j tid. map_option (F j) (txn_view (w_router w) s j tid)))"
  using assms(2,3)
proof (induction stuck arbitrary: s)
  case Nil
  then show ?case
    by (auto simp: settled_by_def map_option_ident intro!: exI [of _ "\<lambda>j t. t"])
next
  case (Cons o' os)
  let ?s1 = "reconcileOne (reconciler w opts select) o' s"
  from reconcileOne_view [OF ans Cons.prems(1), of o' opts select] Cons.prems(2) obtain upd where
    1: "repo_good (w_env w) (w_router w) ?s1"
    "txn_view (w_router w) ?s1 = (\<lambda>j tid. map_option (apply_verdict w ans o' upd j) (txn_view (w_router w) s j tid))"
    by auto
  from Cons.IH [OF 1(1)] Cons.prems(2) obtain F where
    good: "repo_good (w_env w) (w_router w) (fold (reconcileOne (reconciler w opts select)) os ?s1)"
    and F: "\<And>j t. settled_by w ans os j t (F j t)"
    and v: "txn_view (w_router w) (fold (reconcileOne (reconciler w opts select)) os ?s1) =
      (\<lambda>j tid. map_option (F j) (txn_view (w_router w) ?s1 j tid))"
    by auto
  have "settled_by w ans (o' # os) j t (F j (apply_verdict w ans o' upd j t))" for j t
    by (rule settled_by_Cons [OF F])
  with good v 1(2) show ?case
    by (intro conjI exI [of _ "\<lambda>j t. F j (apply_verdict w ans o' upd j t)"])
      (simp_all add: option.map_comp comp_def)
qed

text \<open>What the repository lists is stored and routable.\<close>

lemma all_stuck_stored:
  assumes "repo_good env r s" and "t \<in> set (all_stuck r before s)"
  shows "router_known r (t_ShardIndex t) \<and> valid_order_id (t_OrderID t) \<and>
    txn_view r s (t_ShardIndex t) (t_TransactionID t) = Some t"
proof -
  from assms(2) obtain i row where i: "i < length (router_All r)" and row: "row \<in> set (tables s (router_All r ! i))"
    and t: "t = row_txn (physicalToFirstLogical r (length (router_All r)) ! i) row"
    by (auto simp: all_stuck_def)
  have wf: "wf_router r" and inv: "txn_inv s"
    using assms(1) by (simp_all add: repo_good_def)
  show ?thesis
    by (rule row_txn_stored [OF inv rt.for_first [OF wf i] row t])
qed

lemma stuck_subset: "mset ts + mset rest = mset all \<Longrightarrow> set ts \<subseteq> set all"
  by (metis set_mset_mset set_mset_union Un_upper1)

section \<open>Properties of the reconciler\<close>

definition cutoff_of :: "'x wiring \<Rightarrow> ReconciliationOptions \<Rightarrow> 'x gateway_scheme \<Rightarrow> int" where
  "cutoff_of w opts s = env_clock (w_env w) (stmts s) - (if opt_StuckAfter opts = 0 then 10 * 60 * 1000000000 else opt_StuckAfter opts)"

definition batch_size :: "ReconciliationOptions \<Rightarrow> int" where
  "batch_size opts = (if opt_BatchSize opts = 0 then 500 else opt_BatchSize opts)"

lemma tick_gateway:
  assumes good: "repo_good (w_env w) (w_router w) s" and "0 < batch_size opts"
    and arrival: "mset (env_arrival (w_env w) (stmts s)) = mset [0..<length (router_All (w_router w))]"
  obtains stuck rest where
    "tick (reconciler w opts select) s = (fold (reconcileOne (reconciler w opts select)) stuck (step_store s), Inr ())"
    "mset stuck + mset rest = mset (all_stuck (w_router w) (cutoff_of w opts s) s)"
    "length stuck = min (nat (batch_size opts)) (length (all_stuck (w_router w) (cutoff_of w opts s) s))"
    "\<forall>t \<in> set stuck. \<forall>u \<in> set rest. t_CreatedAt t \<le> t_CreatedAt u"
proof -
  have r: "rc_BatchSize (reconciler w opts select) = batch_size opts"
    "env_clock (w_env w) (stmts s) - rc_StuckAfter (reconciler w opts select) = cutoff_of w opts s"
    by (simp_all add: reconciler_def NewOrderReconciliationWithOptions_def batch_size_def cutoff_of_def)
  from GetPendingBefore_spec [OF assms, of "cutoff_of w opts s"] that show thesis
    by (auto simp: tick_def r)
qed

lemma tick_settles:
  assumes "answers w ans" and "repo_good (w_env w) (w_router w) s" and "0 < batch_size opts"
    and "mset (env_arrival (w_env w) (stmts s)) = mset [0..<length (router_All (w_router w))]"
  shows "\<exists>stuck rest s' F. tick (reconciler w opts select) s = (s', Inr ()) \<and>
    mset stuck + mset rest = mset (all_stuck (w_router w) (cutoff_of w opts s) s) \<and>
    length stuck = min (nat (batch_size opts)) (length (all_stuck (w_router w) (cutoff_of w opts s) s)) \<and>
    (\<forall>t \<in> set stuck. \<forall>u \<in> set rest. t_CreatedAt t \<le> t_CreatedAt u) \<and>
    txn_view (w_router w) s' = (\<lambda>j tid. map_option (F j) (txn_view (w_router w) s j tid)) \<and>
    (\<forall>j t. settled_by w ans stuck j t (F j t))"
proof -
  obtain stuck rest where
    t: "tick (reconciler w opts select) s = (fold (reconcileOne (reconciler w opts select)) stuck (step_store s), Inr ())"
    and m: "mset stuck + mset rest = mset (all_stuck (w_router w) (cutoff_of w opts s) s)"
    "length stuck = min (nat (batch_size opts)) (length (all_stuck (w_router w) (cutoff_of w opts s) s))"
    "\<forall>t \<in> set stuck. \<forall>u \<in> set rest. t_CreatedAt t \<le> t_CreatedAt u"
    by (rule tick_gateway [OF assms(2-4)])
  have "\<forall>o' \<in> set stuck. router_known (w_router w) (t_ShardIndex o') \<and> valid_order_id (t_OrderID o')"
    using stuck_subset [OF m(1)] all_stuck_stored [OF assms(2)] by blast
  with reconcile_batch [OF assms(1), of "step_store s" stuck opts select] assms(2) obtain F where
    "\<forall>j t. settled_by w ans stuck j t (F j t)"
    "txn_view (w_router w) (fold (reconcileOne (reconciler w opts select)) stuck (step_store s)) =
        (\<lambda>j tid. map_option (F j) (txn_view (w_router w) s j tid))"
    by auto
  with t m show ?thesis
    by (intro exI [of _ stuck] exI [of _ rest] exI [of _ "fold (reconcileOne (reconciler w opts select)) stuck (step_store s)"]
        exI [of _ F]) simp
qed

text \<open>C23. A tick of the reconciler settles the oldest stuck transactions as Stripe judges them: it takes as
  many as the batch allows, none it leaves out is older, and afterwards every row named by a
  verdict of the batch has the status of such a verdict (paid for a succeeded intent, failed for a
  cancelled one or one without a payment method), every other row is what it was, and no amount,
  currency or identifier changes.\<close>

theorem reconcile_settles:
  assumes "answers w ans" and "repo_good (w_env w) (w_router w) s" and "0 < batch_size opts"
    and "mset (env_arrival (w_env w) (stmts s)) = mset [0..<length (router_All (w_router w))]"
  shows "\<exists>stuck rest s' F. tick (reconciler w opts select) s = (s', Inr ()) \<and>
    mset stuck + mset rest = mset (all_stuck (w_router w) (cutoff_of w opts s) s) \<and>
    length stuck = min (nat (batch_size opts)) (length (all_stuck (w_router w) (cutoff_of w opts s) s)) \<and>
    (\<forall>t \<in> set stuck. \<forall>u \<in> set rest. t_CreatedAt t \<le> t_CreatedAt u) \<and>
    txn_view (w_router w) s' = (\<lambda>j tid. map_option (F j) (txn_view (w_router w) s j tid)) \<and>
    (\<forall>j t. settled_by w ans stuck j t (F j t))"
  using assms by (rule tick_settles)

definition demo_intent :: "string \<Rightarrow> PaymentIntent" where
  "demo_intent status = \<lparr>pi_ID = ''pi_9'', pi_ClientSecret = [], pi_Amount = 1500, pi_Currency = ''usd'', pi_Status = status,
     pi_ChargeID = [], pi_Metadata = []\<rparr>"

definition demo_recon :: "string \<Rightarrow> unit wiring" where
  "demo_recon status = (demo_wiring status)\<lparr>w_client := demo_stripe\<lparr>st_GetPaymentIntent := (\<lambda>x u. (u, Inr (demo_intent status)))\<rparr>\<rparr>"

definition demo_opts :: ReconciliationOptions where
  "demo_opts = \<lparr>opt_Interval = 0, opt_StuckAfter = 0, opt_BatchSize = 0\<rparr>"

definition demo_pending :: gateway where
  "demo_pending = demo_gateway\<lparr>tables := (\<lambda>p. if p = 1 then [(demo_row 9 80)\<lparr>row_stripe_pi_id := Some ''pi_9''\<rparr>] else [])\<rparr>"

lemma demo_recon_answers: "answers (demo_recon status) (\<lambda>x. Inr (demo_intent status))"
  by (simp add: answers_def demo_recon_def demo_intent_def)

lemma demo_recon_fields [simp]: "w_env (demo_recon status) = demo_env" "w_router (demo_recon status) = demo_router"
  by (simp_all add: demo_recon_def)

lemma demo_pending_row_ok: "row_ok ((demo_row 9 80)\<lparr>row_stripe_pi_id := Some ''pi_9''\<rparr>)"
  using demo_row_ok [of 9 80] by (simp add: row_ok_def row_fits_def opt_fits_def)

lemma demo_pending_good: "repo_good demo_env demo_router demo_pending"
  using demo_good demo_pending_row_ok by (simp add: repo_good_def txn_inv_def table_ok_def demo_pending_def)

lemma demo_pending_arrival: "mset (env_arrival demo_env n) = mset [0..<length (router_All demo_router)]"
  by (simp add: demo_env_def demo_router_def router_All_def upt_rec)

theorem reconcile_settles_witness:
  "\<exists>s'. tick (reconciler (demo_recon ''succeeded'') demo_opts (\<lambda>s. (s, None))) demo_pending = (s', Inr ())"
  using reconcile_settles [OF demo_recon_answers, of "''succeeded''" demo_pending demo_opts "\<lambda>s. (s, None)"]
    demo_pending_good demo_pending_arrival [of "stmts demo_pending"]
  by (auto simp: batch_size_def demo_opts_def)

text \<open>C24. A dropped webhook is repaired: if the stuck transactions fit into one batch, a tick gives a
  transaction on which Stripe has a verdict that status, unless another stuck transaction with the
  same merchant and order id has a different one.\<close>

theorem reconcile_progress:
  assumes "answers w ans" and "repo_good (w_env w) (w_router w) s"
    and "mset (env_arrival (w_env w) (stmts s)) = mset [0..<length (router_All (w_router w))]"
    and fits: "0 < batch_size opts" "int (length (all_stuck (w_router w) (cutoff_of w opts s) s)) \<le> batch_size opts"
    and t: "t \<in> set (all_stuck (w_router w) (cutoff_of w opts s) s)" "judge ans t = Some (st, x)"
    and alone: "\<forall>o' \<in> set (all_stuck (w_router w) (cutoff_of w opts s) s). hits w o' (t_ShardIndex t) t \<longrightarrow>
      judge ans o' = None \<or> (\<exists>y. judge ans o' = Some (st, y))"
  shows "\<exists>s' t'. tick (reconciler w opts select) s = (s', Inr ()) \<and>
    txn_view (w_router w) s' (t_ShardIndex t) (t_TransactionID t) = Some t' \<and> t_Status t' = st"
proof -
  from tick_settles [OF assms(1,2) fits(1) assms(3), of select] obtain stuck rest s' F where
    s': "tick (reconciler w opts select) s = (s', Inr ())"
    and m: "mset stuck + mset rest = mset (all_stuck (w_router w) (cutoff_of w opts s) s)"
    "length stuck = min (nat (batch_size opts)) (length (all_stuck (w_router w) (cutoff_of w opts s) s))"
    and v: "txn_view (w_router w) s' = (\<lambda>j tid. map_option (F j) (txn_view (w_router w) s j tid))"
    and F: "\<forall>j t. settled_by w ans stuck j t (F j t)"
    by (elim exE conjE)
  have "length stuck = length (all_stuck (w_router w) (cutoff_of w opts s) s)"
    using fits m(2) by simp
  then have "rest = []"
    using arg_cong [OF m(1), of size] by simp
  then have "mset stuck = mset (all_stuck (w_router w) (cutoff_of w opts s) s)"
    using m(1) by simp
  then have stuck: "set stuck = set (all_stuck (w_router w) (cutoff_of w opts s) s)"
    by (rule mset_eq_setD)
  have "env_coll (w_env w) a a" for a
    using assms(2) by (simp add: repo_good_def healthy_def)
  then have "hits w t (t_ShardIndex t) t"
    by (simp add: hits_def is_order_def router_colocated_def)
  with t alone have "verdicts w ans stuck (t_ShardIndex t) t = {st}"
    by (fastforce simp: verdicts_def stuck)
  with F [rule_format, of "t_ShardIndex t" t] have "t_Status (F (t_ShardIndex t) t) = st"
    by (simp add: settled_by_def)
  with s' v all_stuck_stored [OF assms(2) t(1)] show ?thesis
    by auto
qed

lemma demo_all_stuck:
  "all_stuck demo_router (cutoff_of (demo_recon status) demo_opts demo_pending) demo_pending =
    [row_txn 2 ((demo_row 9 80)\<lparr>row_stripe_pi_id := Some ''pi_9''\<rparr>)]"
proof -
  have "is_stuck (cutoff_of (demo_recon status) demo_opts demo_pending) ((demo_row 9 80)\<lparr>row_stripe_pi_id := Some ''pi_9''\<rparr>)"
    by (simp add: is_stuck_def cutoff_of_def demo_opts_def demo_pending_def demo_gateway_def demo_env_def demo_row_def)
  then show ?thesis
    by (simp add: all_stuck_def demo_pending_def demo_router_def router_All_def physicalToFirstLogical_def router_LogicalCount_def upt_rec
        numeral_2_eq_2 [symmetric])
qed

theorem reconcile_progress_witness:
  "\<exists>s' t'. tick (reconciler (demo_recon ''succeeded'') demo_opts (\<lambda>s. (s, None))) demo_pending = (s', Inr ()) \<and>
     t_Status t' = ''paid'' \<and>
     txn_view demo_router s' 2 (hexLower (row_transaction_id (demo_row 9 80))) = Some t'"
proof -
  let ?t = "row_txn 2 ((demo_row 9 80)\<lparr>row_stripe_pi_id := Some ''pi_9''\<rparr>)"
  have "judge (\<lambda>x. Inr (demo_intent ''succeeded'')) ?t = Some (''paid'', ''pi_9'')"
    by (simp add: judge_def row_txn_fields [OF demo_pending_row_ok] bytes_string_def demo_intent_def)
  then show ?thesis
    using reconcile_progress [OF demo_recon_answers, of "''succeeded''" demo_pending demo_opts ?t "''paid''" "''pi_9''" "\<lambda>s. (s, None)"]
      demo_pending_good demo_pending_arrival [of "stmts demo_pending"] demo_all_stuck [of "''succeeded''"]
    by (auto simp: batch_size_def row_txn_fields [OF demo_pending_row_ok] demo_opts_def)
qed

lemma all_stuck_old:
  assumes "txn_inv s" and "T \<le> before"
  shows "all_stuck r T s = filter (\<lambda>t. t_CreatedAt t < T) (all_stuck r before s)"
proof -
  have "filter (\<lambda>t. t_CreatedAt t < T) (map (row_txn j) (filter (is_stuck before) (tables s p))) =
      map (row_txn j) (filter (is_stuck T) (tables s p))" for j p
  proof -
    have "row_ok row" if "row \<in> set (tables s p)" for row
      using assms(1) that by (rule txn_inv_row_ok)
    then show ?thesis
      using assms(2)
      by (auto simp: filter_map row_txn_fields(5) is_stuck_def intro!: arg_cong [where f = "map (row_txn j)"] filter_cong)
  qed
  then show ?thesis
    by (simp add: all_stuck_def filter_concat comp_def)
qed

text \<open>A full batch of old transactions leaves no room for a newer one.\<close>

lemma batch_old:
  assumes m: "mset stuck + mset rest = mset all" "length stuck = min n (length all)"
    and le: "\<forall>t \<in> set stuck. \<forall>u \<in> set rest. t_CreatedAt t \<le> t_CreatedAt u"
    and old: "n \<le> length (filter (\<lambda>t. t_CreatedAt t < T) all)"
    and t: "t \<in> set stuck"
  shows "t_CreatedAt t < T"
proof (rule ccontr)
  let ?P = "\<lambda>t. t_CreatedAt t < T"
  assume "\<not> ?P t"
  then have "length (filter ?P stuck) < length stuck"
    using t by (intro length_filter_less)
  moreover have "length (filter ?P stuck) + length (filter ?P rest) = length (filter ?P all)"
    using arg_cong [OF m(1), of "\<lambda>M. size (filter_mset ?P M)"] by (simp flip: mset_filter)
  ultimately have "filter ?P rest \<noteq> []"
    using old m(2) by auto
  then obtain u where "u \<in> set rest" "t_CreatedAt u < T"
    by (auto simp: filter_empty_conv)
  with le t \<open>\<not> ?P t\<close> show False
    by fastforce
qed

lemma fold_no_intent:
  "\<forall>o' \<in> set stuck. t_StripePaymentIntentID o' = [] \<Longrightarrow> fold (reconcileOne r) stuck s = s"
  by (induction stuck) (simp_all add: reconcileOne_def)

lemma tick_starved:
  assumes good: "repo_good (w_env w) (w_router w) s" and size: "0 < batch_size opts"
    and arrival: "mset (env_arrival (w_env w) (stmts s)) = mset [0..<length (router_All (w_router w))]"
    and T: "T \<le> cutoff_of w opts s"
    and unopened: "\<forall>p. \<forall>row \<in> set (tables s p). row_created_at row < T \<longrightarrow> row_stripe_pi_id row = None"
    and full: "batch_size opts \<le> int (length (all_stuck (w_router w) T s))"
  shows "fst (tick (reconciler w opts select) s) = step_store s"
proof -
  obtain stuck rest where
    t: "tick (reconciler w opts select) s = (fold (reconcileOne (reconciler w opts select)) stuck (step_store s), Inr ())"
    and m: "mset stuck + mset rest = mset (all_stuck (w_router w) (cutoff_of w opts s) s)"
    "length stuck = min (nat (batch_size opts)) (length (all_stuck (w_router w) (cutoff_of w opts s) s))"
    "\<forall>t \<in> set stuck. \<forall>u \<in> set rest. t_CreatedAt t \<le> t_CreatedAt u"
    by (rule tick_gateway [OF good size arrival])
  have inv: "txn_inv s"
    using good by (simp add: repo_good_def)
  have "nat (batch_size opts) \<le> length (filter (\<lambda>t. t_CreatedAt t < T) (all_stuck (w_router w) (cutoff_of w opts s) s))"
    using full by (simp add: all_stuck_old [OF inv T])
  note old = batch_old [OF m this]
  have "t_StripePaymentIntentID o' = []" if "o' \<in> set stuck" for o'
  proof -
    from that stuck_subset [OF m(1)] obtain p row j where row: "row \<in> set (tables s p)" "o' = row_txn j row"
      by (auto simp: all_stuck_def)
    have ok: "row_ok row"
      using inv row(1) by (rule txn_inv_row_ok)
    with old [OF that] unopened row show ?thesis
      by (auto simp: row_txn_fields [OF ok] bytes_string_def)
  qed
  then show ?thesis
    by (simp add: t fold_no_intent)
qed



end
