(* ===== verification/OnchainRepo.thy ===== *)
theory OnchainRepo
  imports CheckoutResolver
begin

text \<open>
  \<^verbatim>\<open>internal/repository/onchain_tx_repo.go\<close> and \<^verbatim>\<open>internal/provider/blockchain/cursor.go\<close>: the table of
  observed on-chain payments and the block cursor of each chain, both on the control pool. The
  columns are those of the migration: signed 64-bit integers, \<^verbatim>\<open>DECIMAL(65, 0)\<close> for the amount, and a
  unique transaction hash under the collation. Rows with the same block number are listed in the
  order of the table.
\<close>

section \<open>The tables\<close>

record chain_store = pod +
  onchain :: "OnchainTransaction list"
  cursors :: "int \<Rightarrow> uint64 option"

definition bigint_fits :: "uint64 \<Rightarrow> bool" where
  "bigint_fits v \<longleftrightarrow> unat v < 2 ^ 63"

definition onchain_fits :: "OnchainTransaction \<Rightarrow> bool" where
  "onchain_fits tx \<longleftrightarrow> length (x_TxHash tx) \<le> 66 \<and> bigint_fits (x_BlockNumber tx) \<and> length (x_MerchantID tx) \<le> 16 \<and>
     length (x_OrderID tx) \<le> 64 \<and> length (x_Payer tx) \<le> 42 \<and> length (x_Token tx) \<le> 42 \<and>
     \<bar>case x_Amount tx of None \<Rightarrow> 0 | Some a \<Rightarrow> a\<bar> < 10 ^ 65 \<and>
     bigint_fits (x_Confirmations tx) \<and> bigint_fits (x_RequiredConfirm tx) \<and>
     x_Status tx \<in> {OnchainTxStatusPending, OnchainTxStatusConfirmed, OnchainTxStatusFailed, OnchainTxStatusReorged}"

definition next_onchain_id :: "OnchainTransaction list \<Rightarrow> int" where
  "next_onchain_id xs = 1 + fold (\<lambda>x. max (x_ID x)) xs 0"

section \<open>onchain\_tx\_repo.go\<close>

definition tx_Create ::
  "db_env \<Rightarrow> nat multiShardRouter \<Rightarrow> OnchainTransaction \<Rightarrow> 'a chain_store_scheme \<Rightarrow>
    'a chain_store_scheme \<times> OnchainTransaction \<times> unit result" where
  "tx_Create env r tx s =
     (case env_fault env (stmts s) (router_Control r) of
        Some e \<Rightarrow> (step_store s, tx, Inl (Wrapf ''insert onchain_tx'' e))
      | None \<Rightarrow>
          if \<not> onchain_fits tx then (step_store s, tx, Inl (Wrapf ''insert onchain_tx'' data_too_long))
          else if \<exists>x \<in> set (onchain s). env_coll env (x_TxHash x) (x_TxHash tx)
          then (step_store s, tx, Inl (Wrapf ''insert onchain_tx'' dup_entry))
          else let id = next_onchain_id (onchain s);
                   row = tx\<lparr>x_ID := id, x_CreatedAt := env_timestamp env (env_clock env (stmts s)),
                            x_Amount := Some (case x_Amount tx of None \<Rightarrow> 0 | Some a \<Rightarrow> a)\<rparr>
               in (step_store (s\<lparr>onchain := onchain s @ [row]\<rparr>), tx\<lparr>x_ID := id\<rparr>, Inr ()))"

definition scanOnchainTx :: "OnchainTransaction option result \<Rightarrow> OnchainTransaction result" where
  "scanOnchainTx res =
     (case res of
        Inl e \<Rightarrow> Inl (Wrapf ''scan onchain_tx'' e)
      | Inr None \<Rightarrow> Inl (Sentinel ErrOnchainTxNotFound)
      | Inr (Some tx) \<Rightarrow> Inr tx)"

definition GetByTxHash ::
  "db_env \<Rightarrow> nat multiShardRouter \<Rightarrow> string \<Rightarrow> 'a chain_store_scheme \<Rightarrow> 'a chain_store_scheme \<times> OnchainTransaction result" where
  "GetByTxHash env r hash s =
     (step_store s,
      scanOnchainTx (case env_fault env (stmts s) (router_Control r) of
        Some e \<Rightarrow> Inl e
      | None \<Rightarrow> Inr (find (\<lambda>x. env_coll env (x_TxHash x) hash) (onchain s))))"

definition mark_row :: "db_env \<Rightarrow> string \<Rightarrow> uint64 \<Rightarrow> string \<Rightarrow> OnchainTransaction \<Rightarrow> OnchainTransaction" where
  "mark_row env hash confirmations status x =
     (if env_coll env (x_TxHash x) hash then x\<lparr>x_Confirmations := confirmations, x_Status := status\<rparr> else x)"

definition UpdateConfirmations ::
  "db_env \<Rightarrow> nat multiShardRouter \<Rightarrow> string \<Rightarrow> uint64 \<Rightarrow> string \<Rightarrow> 'a chain_store_scheme \<Rightarrow> 'a chain_store_scheme \<times> unit result" where
  "UpdateConfirmations env r hash confirmations status s =
     (case env_fault env (stmts s) (router_Control r) of
        Some e \<Rightarrow> (step_store s, Inl (Wrapf ''update onchain_tx'' e))
      | None \<Rightarrow>
          if \<not> list_all (\<lambda>x. onchain_fits (mark_row env hash confirmations status x))
                 (filter (\<lambda>x. env_coll env (x_TxHash x) hash) (onchain s))
          then (step_store s, Inl (Wrapf ''update onchain_tx'' data_too_long))
          else (step_store (s\<lparr>onchain := map (mark_row env hash confirmations status) (onchain s)\<rparr>),
                if \<exists>x \<in> set (onchain s). env_coll env (x_TxHash x) hash then Inr () else Inl (Sentinel ErrOnchainTxNotFound)))"

definition pending_on :: "int \<Rightarrow> OnchainTransaction \<Rightarrow> bool" where
  "pending_on chainID x \<longleftrightarrow> x_ChainID x = chainID \<and> x_Status x = OnchainTxStatusPending"

definition ListPendingByChain ::
  "db_env \<Rightarrow> nat multiShardRouter \<Rightarrow> int \<Rightarrow> nat \<Rightarrow> 'a chain_store_scheme \<Rightarrow> 'a chain_store_scheme \<times> OnchainTransaction list result" where
  "ListPendingByChain env r chainID limit s =
     (step_store s,
      case env_fault env (stmts s) (router_Control r) of
        Some e \<Rightarrow> Inl (Wrapf ''query onchain_transactions'' e)
      | None \<Rightarrow> Inr (take limit (sort_key (\<lambda>x. unat (x_BlockNumber x)) (filter (pending_on chainID) (onchain s)))))"

record 's OnchainTxRepository =
  otr_Create :: "OnchainTransaction \<Rightarrow> 's \<Rightarrow> 's \<times> OnchainTransaction \<times> unit result"
  otr_GetByTxHash :: "string \<Rightarrow> 's \<Rightarrow> 's \<times> OnchainTransaction result"
  otr_UpdateConfirmations :: "string \<Rightarrow> uint64 \<Rightarrow> string \<Rightarrow> 's \<Rightarrow> 's \<times> unit result"
  otr_ListPendingByChain :: "int \<Rightarrow> nat \<Rightarrow> 's \<Rightarrow> 's \<times> OnchainTransaction list result"

definition NewOnchainTxRepository :: "db_env \<Rightarrow> nat multiShardRouter \<Rightarrow> 'a chain_store_scheme OnchainTxRepository" where
  "NewOnchainTxRepository env r =
     \<lparr>otr_Create = tx_Create env r, otr_GetByTxHash = GetByTxHash env r,
      otr_UpdateConfirmations = UpdateConfirmations env r, otr_ListPendingByChain = ListPendingByChain env r\<rparr>"

section \<open>cursor.go\<close>

definition cursor_Get :: "db_env \<Rightarrow> nat multiShardRouter \<Rightarrow> int \<Rightarrow> 'a chain_store_scheme \<Rightarrow> 'a chain_store_scheme \<times> uint64 result" where
  "cursor_Get env r chainID s =
     (step_store s,
      case env_fault env (stmts s) (router_Control r) of
        Some e \<Rightarrow> Inl (Wrapf ''cursor get'' e)
      | None \<Rightarrow> (case cursors s chainID of None \<Rightarrow> Inr 0 | Some v \<Rightarrow> Inr v))"

definition cursor_Set ::
  "db_env \<Rightarrow> nat multiShardRouter \<Rightarrow> int \<Rightarrow> uint64 \<Rightarrow> 'a chain_store_scheme \<Rightarrow> 'a chain_store_scheme \<times> unit result" where
  "cursor_Set env r chainID block s =
     (case env_fault env (stmts s) (router_Control r) of
        Some e \<Rightarrow> (step_store s, Inl (Wrapf ''cursor set'' e))
      | None \<Rightarrow>
          if \<not> bigint_fits block then (step_store s, Inl (Wrapf ''cursor set'' data_too_long))
          else (step_store (s\<lparr>cursors := (cursors s)(chainID \<mapsto> block)\<rparr>), Inr ()))"

record 's CursorStore =
  cu_Get :: "int \<Rightarrow> 's \<Rightarrow> 's \<times> uint64 result"
  cu_Set :: "int \<Rightarrow> uint64 \<Rightarrow> 's \<Rightarrow> 's \<times> unit result"

definition NewMySQLCursor :: "db_env \<Rightarrow> nat multiShardRouter \<Rightarrow> 'a chain_store_scheme CursorStore" where
  "NewMySQLCursor env r = \<lparr>cu_Get = cursor_Get env r, cu_Set = cursor_Set env r\<rparr>"

section \<open>The table as a map\<close>

definition oview :: "db_env \<Rightarrow> 'a chain_store_scheme \<Rightarrow> string \<Rightarrow> OnchainTransaction option" where
  "oview env s h = find (\<lambda>x. env_coll env (x_TxHash x) h) (onchain s)"

text \<open>The unique key: no two rows have hashes the collation takes for equal.\<close>

definition onchain_inv :: "db_env \<Rightarrow> 'a chain_store_scheme \<Rightarrow> bool" where
  "onchain_inv env s \<longleftrightarrow> sorted_wrt (\<lambda>x y. \<not> env_coll env (x_TxHash x) (x_TxHash y)) (onchain s) \<and>
     list_all onchain_fits (onchain s)"

definition coll_equiv :: "db_env \<Rightarrow> bool" where
  "coll_equiv env \<longleftrightarrow> equivp (env_coll env)"

lemma coll_equivD:
  assumes "coll_equiv env"
  shows "env_coll env a a" "env_coll env a b \<Longrightarrow> env_coll env b a"
    "env_coll env a b \<Longrightarrow> env_coll env b c \<Longrightarrow> env_coll env a c"
  using assms unfolding coll_equiv_def by (metis equivp_reflp equivp_symp equivp_transp)+

lemma find_append: "find P (xs @ ys) = (case find P xs of None \<Rightarrow> find P ys | Some x \<Rightarrow> Some x)"
  by (induction xs) auto

lemma find_map_other: "(\<And>x. P (f x) = P x) \<Longrightarrow> (\<And>x. P x \<Longrightarrow> f x = x) \<Longrightarrow> find P (map f xs) = find P xs"
  by (induction xs) auto

lemma find_map_same: "(\<And>x. P (f x) = P x) \<Longrightarrow> find P (map f xs) = map_option f (find P xs)"
  by (induction xs) auto

lemma sorted_wrt_map_same: "(\<And>x y. R (f x) (f y) = R x y) \<Longrightarrow> sorted_wrt R (map f xs) = sorted_wrt R xs"
  by (induction xs) auto

lemma step_store_chain [simp]: "onchain (step_store s) = onchain s" "cursors (step_store s) = cursors s"
  "chain_store.more (step_store s) = chain_store.more s"
  by (simp_all add: step_store_def)

lemma oview_step [simp]: "oview env (step_store s) = oview env s"
  by (simp add: oview_def fun_eq_iff)

lemma oview_onchain: "onchain s' = onchain s \<Longrightarrow> oview env s' = oview env s"
  by (simp add: oview_def fun_eq_iff)

lemma oview_SomeD: "oview env s h = Some x \<Longrightarrow> x \<in> set (onchain s) \<and> env_coll env (x_TxHash x) h"
  by (auto simp: oview_def find_Some_iff)

text \<open>A row found in the table is the one its hash leads to.\<close>

lemma oview_unique:
  assumes "coll_equiv env" "onchain_inv env s" "p \<in> set (onchain s)" "env_coll env (x_TxHash p) h" "oview env s h = Some x"
  shows "p = x"
proof -
  have sorted: "sorted_wrt (\<lambda>x y. \<not> env_coll env (x_TxHash x) (x_TxHash y)) (onchain s)"
    using assms(2) by (simp add: onchain_inv_def)
  have "env_coll env (x_TxHash p) (x_TxHash x)" "env_coll env (x_TxHash x) (x_TxHash p)"
    using assms(4) oview_SomeD [OF assms(5)] coll_equivD [OF assms(1)] by blast+
  with sorted assms(3) oview_SomeD [OF assms(5)] show ?thesis
    unfolding in_set_conv_nth sorted_wrt_iff_nth_less by (metis linorder_neqE_nat)
qed

lemma oview_create: "oview env s h = Some x \<Longrightarrow> oview env (fst (tx_Create env r tx s)) h = Some x"
  by (simp add: tx_Create_def oview_def find_append Let_def split: option.split)

lemma oview_create_new:
  assumes "env_fault env (stmts s) (router_Control r) = None" "onchain_fits tx" "coll_equiv env"
  shows "oview env (fst (tx_Create env r tx s)) (x_TxHash tx) \<noteq> None"
proof (cases "oview env s (x_TxHash tx)")
  case None
  then have "\<not> (\<exists>x \<in> set (onchain s). env_coll env (x_TxHash x) (x_TxHash tx))"
    by (auto simp: oview_def find_None_iff)
  with assms None show ?thesis
    by (simp add: tx_Create_def oview_def find_append Let_def coll_equivD(1) [OF assms(3)])
next
  case (Some x)
  then show ?thesis
    by (simp add: oview_create)
qed

lemma oview_create_other:
  assumes "coll_equiv env" "\<not> env_coll env (x_TxHash tx) h"
  shows "oview env (fst (tx_Create env r tx s)) h = oview env s h"
  using assms by (auto simp: tx_Create_def oview_def find_append Let_def split: option.split)

lemma mark_row_hash [simp]: "x_TxHash (mark_row env h n st x) = x_TxHash x"
  by (simp add: mark_row_def)

lemma oview_update_other:
  assumes "coll_equiv env" "\<not> env_coll env h' h"
  shows "oview env (fst (UpdateConfirmations env r h' n st s)) h = oview env s h"
proof -
  have "\<not> env_coll env (x_TxHash x) h'" if "env_coll env (x_TxHash x) h" for x
    using that assms coll_equivD [OF assms(1)] by blast
  then have "find (\<lambda>x. env_coll env (x_TxHash x) h) (map (mark_row env h' n st) xs) = find (\<lambda>x. env_coll env (x_TxHash x) h) xs" for xs
    by (intro find_map_other) (auto simp: mark_row_def)
  then show ?thesis
    by (simp add: UpdateConfirmations_def oview_def split: option.split)
qed

lemma onchain_inv_same: "onchain s' = onchain s \<Longrightarrow> onchain_inv env s' = onchain_inv env s"
  by (simp add: onchain_inv_def)

lemma tx_Create_inv: "onchain_inv env s \<Longrightarrow> onchain_inv env (fst (tx_Create env r tx s))"
  by (auto simp: tx_Create_def onchain_inv_def Let_def sorted_wrt_append onchain_fits_def split: option.split)

lemma UpdateConfirmations_inv:
  assumes "onchain_inv env s"
  shows "onchain_inv env (fst (UpdateConfirmations env r h n st s))"
proof -
  have "list_all onchain_fits (map (mark_row env h n st) xs)"
    if "list_all onchain_fits xs" "list_all (\<lambda>x. onchain_fits (mark_row env h n st x)) (filter (\<lambda>x. env_coll env (x_TxHash x) h) xs)" for xs
    using that by (fastforce simp: list_all_iff mark_row_def)
  moreover have "sorted_wrt (\<lambda>x y. \<not> env_coll env (x_TxHash x) (x_TxHash y)) (map (mark_row env h n st) xs) =
      sorted_wrt (\<lambda>x y. \<not> env_coll env (x_TxHash x) (x_TxHash y)) xs" for xs
    by (rule sorted_wrt_map_same) simp
  ultimately show ?thesis
    using assms by (simp add: UpdateConfirmations_def onchain_inv_def split: option.split)
qed

end
