(* ===== verification/Blockchain.thy ===== *)
theory Blockchain
  imports OnchainRepo
begin

text \<open>
  \<^verbatim>\<open>internal/provider/blockchain\<close>: the log parser, the WebSocket subscriber, the backfill scanner, the
  confirmation tracker, the receipt reconciler and the listener that runs them. The chain client is
  a port; the address and hash helpers of go-ethereum are the parameter \<open>eth_lib\<close>. The \<^verbatim>\<open>select\<close>
  statements of the loops are ports that yield the event taken, and the loops that serve forever
  are bounded by a number of turns. Log messages are left out.
\<close>

section \<open>Values of go-ethereum\<close>

record eth_lib =
  el_BytesToAddress :: "string \<Rightarrow> string"
  el_AddressHex :: "string \<Rightarrow> string"
  el_HashHex :: "string \<Rightarrow> string"
  el_HexToHash :: "string \<Rightarrow> string"

record Log =
  lg_TxHash :: string
  lg_BlockNumber :: uint64
  lg_Topics :: "string list"
  lg_Data :: string

record FilterQuery =
  fq_FromBlock :: "uint64 option"
  fq_ToBlock :: "uint64 option"
  fq_Addresses :: "string list"
  fq_Topics :: "string list list"

section \<open>client.go\<close>

record 's ChainClient =
  cl_BlockNumber :: "'s \<Rightarrow> 's \<times> uint64 result"
  cl_SubscribeFilterLogs :: "FilterQuery \<Rightarrow> 's \<Rightarrow> 's \<times> unit result"
  cl_FilterLogs :: "FilterQuery \<Rightarrow> 's \<Rightarrow> 's \<times> Log list result"
  cl_TransactionReceipt :: "string \<Rightarrow> 's \<Rightarrow> 's \<times> uint64 option result"
  cl_Close :: "'s \<Rightarrow> 's"

record ChainConfig =
  ch_ChainID :: int
  ch_ContractAddress :: string
  ch_RequiredConfirmations :: uint64
  ch_StartBlock :: uint64
  ch_EventTopic :: string

text \<open>The two transports; a \<^verbatim>\<open>ethclient.Client\<close> is a value of the same port.\<close>

record 's ethClient =
  ec_ws :: "'s ChainClient option"
  ec_http :: "'s ChainClient option"

definition preferHTTP :: "'s ethClient \<Rightarrow> 's ChainClient option" where
  "preferHTTP c = (case ec_http c of Some h \<Rightarrow> Some h | None \<Rightarrow> ec_ws c)"

definition no_client :: "'s \<Rightarrow> 's \<times> 'a result" where
  "no_client s = (s, Inl (ErrNew ''no client available''))"

definition ethClient_port :: "'s ethClient \<Rightarrow> 's ChainClient" where
  "ethClient_port c = \<lparr>
     cl_BlockNumber = (case preferHTTP c of None \<Rightarrow> no_client | Some cl \<Rightarrow> cl_BlockNumber cl),
     cl_SubscribeFilterLogs = (\<lambda>q s. case ec_ws c of
        None \<Rightarrow> (s, Inl (ErrNew ''websocket endpoint not configured''))
      | Some ws \<Rightarrow> cl_SubscribeFilterLogs ws q s),
     cl_FilterLogs = (\<lambda>q. case preferHTTP c of None \<Rightarrow> no_client | Some cl \<Rightarrow> cl_FilterLogs cl q),
     cl_TransactionReceipt = (\<lambda>h. case preferHTTP c of None \<Rightarrow> no_client | Some cl \<Rightarrow> cl_TransactionReceipt cl h),
     cl_Close = (\<lambda>s. let s1 = (case ec_ws c of None \<Rightarrow> s | Some ws \<Rightarrow> cl_Close ws s)
                      in case ec_http c of None \<Rightarrow> s1 | Some h \<Rightarrow> cl_Close h s1)\<rparr>"

definition chain_NewClient ::
  "(string \<Rightarrow> 's \<Rightarrow> 's \<times> 's ChainClient result) \<Rightarrow> string \<Rightarrow> string \<Rightarrow> 's \<Rightarrow> 's \<times> 's ChainClient result" where
  "chain_NewClient dial ws httpURL s =
     (case (if ws = [] then (s, Inr None) else case dial ws s of (s', Inl e) \<Rightarrow> (s', Inl e) | (s', Inr w) \<Rightarrow> (s', Inr (Some w))) of
        (s1, Inl e) \<Rightarrow> (s1, Inl (Wrapf ''dial ws'' e))
      | (s1, Inr w) \<Rightarrow>
          (case (if httpURL = [] then (s1, Inr None)
                 else case dial httpURL s1 of (s', Inl e) \<Rightarrow> (s', Inl e) | (s', Inr h) \<Rightarrow> (s', Inr (Some h))) of
             (s2, Inl e) \<Rightarrow> ((case w of None \<Rightarrow> s2 | Some c \<Rightarrow> cl_Close c s2), Inl (Wrapf ''dial http'' e))
           | (s2, Inr h) \<Rightarrow>
               if w = None \<and> h = None then (s2, Inl (ErrNew ''no rpc endpoint configured''))
               else (s2, Inr (ethClient_port \<lparr>ec_ws = w, ec_http = h\<rparr>))))"

section \<open>parser.go\<close>

record ParsedPaymentEvent =
  pe_OrderID :: string
  pe_Payer :: string
  pe_Token :: string
  pe_Amount :: int

fun trimZero :: "string \<Rightarrow> string" where
  "trimZero [] = []"
| "trimZero (c # cs) = (if c \<noteq> CHR 0x00 then c # cs else trimZero cs)"

text \<open>\<^verbatim>\<open>big.Int.SetBytes\<close>: the big-endian value.\<close>

definition SetBytes :: "string \<Rightarrow> int" where
  "SetBytes b = fold (\<lambda>c v. 256 * v + int (of_char c)) b 0"

definition ParsePaymentEvent :: "eth_lib \<Rightarrow> Log \<Rightarrow> ParsedPaymentEvent result" where
  "ParsePaymentEvent lib lg =
     (if length (lg_Topics lg) < 3 then Inl (Sentinel ErrUnexpectedLog)
      else if length (lg_Data lg) < 64 then Inl (Sentinel ErrUnexpectedLog)
      else Inr \<lparr>pe_OrderID = trimZero (lg_Topics lg ! 1),
                pe_Payer = el_BytesToAddress lib (lg_Topics lg ! 2),
                pe_Token = el_BytesToAddress lib (take 20 (drop 12 (lg_Data lg))),
                pe_Amount = SetBytes (take 32 (drop 32 (lg_Data lg)))\<rparr>)"

section \<open>subscriber.go\<close>

datatype sub_event = CtxDone goerr | SubErr goerr | GotLog Log

record 's Subscriber =
  sb_lib :: eth_lib
  sb_Client :: "'s ChainClient"
  sb_Cfg :: ChainConfig
  sb_Cursor :: "'s CursorStore"
  sb_PendingTxs :: "'s OnchainTxRepository"
  sb_Orders :: "'s TransactionRepository"
  sb_BackoffMin :: int
  sb_BackoffMax :: int
  sb_ctxErr :: "'s \<Rightarrow> goerr option"
  sb_select :: "'s \<Rightarrow> 's \<times> sub_event"
  sb_wait :: "int \<Rightarrow> 's \<Rightarrow> 's \<times> goerr option"

definition doubleCapped :: "int \<Rightarrow> int \<Rightarrow> int" where
  "doubleCapped d mx = (let d' = int64 (d * 2) in if d' > mx then mx else d')"

definition contract_query :: "ChainConfig \<Rightarrow> uint64 option \<Rightarrow> uint64 option \<Rightarrow> FilterQuery" where
  "contract_query cfg fromB toB =
     \<lparr>fq_FromBlock = fromB, fq_ToBlock = toB, fq_Addresses = [ch_ContractAddress cfg],
      fq_Topics = (if ch_EventTopic cfg \<noteq> replicate 32 (CHR 0x00) then [[ch_EventTopic cfg]] else [])\<rparr>"

definition observed_tx :: "eth_lib \<Rightarrow> ChainConfig \<Rightarrow> Log \<Rightarrow> ParsedPaymentEvent \<Rightarrow> Transaction \<Rightarrow> OnchainTransaction" where
  "observed_tx lib cfg lg parsed order =
     \<lparr>x_ID = 0, x_TxHash = el_HashHex lib (lg_TxHash lg), x_BlockNumber = lg_BlockNumber lg, x_MerchantID = t_MerchantID order,
      x_OrderID = pe_OrderID parsed, x_Payer = el_AddressHex lib (pe_Payer parsed), x_Token = el_AddressHex lib (pe_Token parsed),
      x_Amount = Some (pe_Amount parsed), x_ChainID = ch_ChainID cfg, x_Confirmations = 0,
      x_RequiredConfirm = ch_RequiredConfirmations cfg, x_Status = OnchainTxStatusPending, x_CreatedAt = zero_time\<rparr>"

definition handleLog :: "'s Subscriber \<Rightarrow> Log \<Rightarrow> 's \<Rightarrow> 's \<times> unit result" where
  "handleLog b lg s =
     (case otr_GetByTxHash (sb_PendingTxs b) (el_HashHex (sb_lib b) (lg_TxHash lg)) s of
        (s1, Inr _) \<Rightarrow> (s1, Inr ())
      | (s1, Inl err) \<Rightarrow>
          if \<not> errors_Is err ErrOnchainTxNotFound then (s1, Inl (Wrapf ''dedup lookup'' err))
          else case ParsePaymentEvent (sb_lib b) lg of
            Inl err \<Rightarrow> (s1, Inl (Wrapf ''parse event'' err))
          | Inr parsed \<Rightarrow>
              (case tr_GetByOrderIDAny (sb_Orders b) (pe_OrderID parsed) s1 of
                 (s2, Inl err) \<Rightarrow> (s2, if errors_Is err ErrNotFound then Inr () else Inl (Wrapf ''resolve merchant'' err))
               | (s2, Inr order) \<Rightarrow>
                   (case otr_Create (sb_PendingTxs b) (observed_tx (sb_lib b) (sb_Cfg b) lg parsed order) s2 of
                      (s3, _, Inl err) \<Rightarrow> (s3, Inl (Wrapf ''persist pending_tx'' err))
                    | (s3, _, Inr _) \<Rightarrow> (fst (cu_Set (sb_Cursor b) (ch_ChainID (sb_Cfg b)) (lg_BlockNumber lg) s3), Inr ()))))"

text \<open>The inner loop ends with an error in every case; \<^const>\<open>None\<close> is a loop still running after \<open>n\<close> events.\<close>

fun serve_logs :: "nat \<Rightarrow> 's Subscriber \<Rightarrow> 's \<Rightarrow> 's \<times> goerr option" where
  "serve_logs 0 b s = (s, None)"
| "serve_logs (Suc n) b s =
     (case sb_select b s of
        (s1, CtxDone e) \<Rightarrow> (s1, Some e)
      | (s1, SubErr e) \<Rightarrow> (s1, Some (Wrapf ''subscription'' e))
      | (s1, GotLog lg) \<Rightarrow> serve_logs n b (fst (handleLog b lg s1)))"

definition runOnce :: "nat \<Rightarrow> 's Subscriber \<Rightarrow> 's \<Rightarrow> 's \<times> goerr option" where
  "runOnce n b s =
     (case cl_SubscribeFilterLogs (sb_Client b) (contract_query (sb_Cfg b) None None) s of
        (s1, Inl e) \<Rightarrow> (s1, Some (Wrapf ''subscribe'' e))
      | (s1, Inr _) \<Rightarrow> serve_logs n b s1)"

text \<open>\<^term>\<open>Some None\<close> is a return without an error.\<close>

fun sub_loop :: "nat \<Rightarrow> nat \<Rightarrow> 's Subscriber \<Rightarrow> int \<Rightarrow> 's \<Rightarrow> 's \<times> goerr option option" where
  "sub_loop 0 n b backoff s = (s, None)"
| "sub_loop (Suc k) n b backoff s =
     (case sb_ctxErr b s of
        Some e \<Rightarrow> (s, Some (Some e))
      | None \<Rightarrow>
          (case runOnce n b s of
             (s1, None) \<Rightarrow> (s1, None)
           | (s1, Some err) \<Rightarrow>
               if errors_Is err Canceled then (s1, Some None)
               else (case sb_wait b backoff s1 of
                       (s2, Some e) \<Rightarrow> (s2, Some (Some e))
                     | (s2, None) \<Rightarrow> sub_loop k n b (doubleCapped backoff (sb_BackoffMax b)) s2)))"

definition sub_Run :: "nat \<Rightarrow> nat \<Rightarrow> 's Subscriber \<Rightarrow> 's \<Rightarrow> 's \<times> goerr option option" where
  "sub_Run k n b = sub_loop k n b (sb_BackoffMin b)"

definition NewSubscriber ::
  "eth_lib \<Rightarrow> 's ChainClient \<Rightarrow> ChainConfig \<Rightarrow> 's CursorStore \<Rightarrow> 's OnchainTxRepository \<Rightarrow> 's TransactionRepository \<Rightarrow>
    ('s \<Rightarrow> goerr option) \<Rightarrow> ('s \<Rightarrow> 's \<times> sub_event) \<Rightarrow> (int \<Rightarrow> 's \<Rightarrow> 's \<times> goerr option) \<Rightarrow> 's Subscriber" where
  "NewSubscriber lib c cfg cur repo orders ctxErr select wait = \<lparr>
     sb_lib = lib, sb_Client = c, sb_Cfg = cfg, sb_Cursor = cur, sb_PendingTxs = repo, sb_Orders = orders,
     sb_BackoffMin = 1000000000, sb_BackoffMax = 30 * 1000000000,
     sb_ctxErr = ctxErr, sb_select = select, sb_wait = wait\<rparr>"

section \<open>backfill.go\<close>

record 's BackfillScanner =
  bf_lib :: eth_lib
  bf_Client :: "'s ChainClient"
  bf_Cfg :: ChainConfig
  bf_Cursor :: "'s CursorStore"
  bf_PendingTxs :: "'s OnchainTxRepository"
  bf_Orders :: "'s TransactionRepository"
  bf_Interval :: int
  bf_BatchSize :: uint64

definition NewBackfillScanner ::
  "eth_lib \<Rightarrow> 's ChainClient \<Rightarrow> ChainConfig \<Rightarrow> 's CursorStore \<Rightarrow> 's OnchainTxRepository \<Rightarrow> 's TransactionRepository \<Rightarrow> 's BackfillScanner" where
  "NewBackfillScanner lib c cfg cur repo orders = \<lparr>
     bf_lib = lib, bf_Client = c, bf_Cfg = cfg, bf_Cursor = cur, bf_PendingTxs = repo, bf_Orders = orders,
     bf_Interval = 5 * 60 * 1000000000, bf_BatchSize = 5000\<rparr>"

definition persist :: "'s BackfillScanner \<Rightarrow> Log \<Rightarrow> 's \<Rightarrow> 's" where
  "persist b lg s =
     (case otr_GetByTxHash (bf_PendingTxs b) (el_HashHex (bf_lib b) (lg_TxHash lg)) s of
        (s1, Inr _) \<Rightarrow> s1
      | (s1, Inl _) \<Rightarrow>
          (case ParsePaymentEvent (bf_lib b) lg of
             Inl _ \<Rightarrow> s1
           | Inr parsed \<Rightarrow>
               (case tr_GetByOrderIDAny (bf_Orders b) (pe_OrderID parsed) s1 of
                  (s2, Inl _) \<Rightarrow> s2
                | (s2, Inr order) \<Rightarrow>
                    fst (otr_Create (bf_PendingTxs b) (observed_tx (bf_lib b) (bf_Cfg b) lg parsed order) s2))))"

definition batch_end :: "'s BackfillScanner \<Rightarrow> uint64 \<Rightarrow> uint64 \<Rightarrow> uint64" where
  "batch_end b from head = (let to = from + bf_BatchSize b in if to > head then head else to)"

text \<open>The scan from \<open>from\<close> to \<open>head\<close>; \<^const>\<open>None\<close> is a scan that never ends.\<close>

partial_function (option) scan_loop ::
  "'s BackfillScanner \<Rightarrow> uint64 \<Rightarrow> uint64 \<Rightarrow> 's \<Rightarrow> ('s \<times> unit result) option" where
  "scan_loop b from head s =
     (if \<not> from < head then Some (s, Inr ())
      else case cl_FilterLogs (bf_Client b) (contract_query (bf_Cfg b) (Some from) (Some (batch_end b from head))) s of
        (s1, Inl e) \<Rightarrow> Some (s1, Inl (Wrapf ''filter logs'' e))
      | (s1, Inr logs) \<Rightarrow>
          scan_loop b (batch_end b from head) head
            (fst (cu_Set (bf_Cursor b) (ch_ChainID (bf_Cfg b)) (batch_end b from head) (fold (persist b) logs s1))))"

definition backfill_tick :: "'s BackfillScanner \<Rightarrow> 's \<Rightarrow> ('s \<times> unit result) option" where
  "backfill_tick b s =
     (case cu_Get (bf_Cursor b) (ch_ChainID (bf_Cfg b)) s of
        (s1, Inl e) \<Rightarrow> Some (s1, Inl (Wrapf ''cursor get'' e))
      | (s1, Inr cur) \<Rightarrow>
          (let from = (if cur = 0 then ch_StartBlock (bf_Cfg b) else cur)
           in case cl_BlockNumber (bf_Client b) s1 of
             (s2, Inl e) \<Rightarrow> Some (s2, Inl (Wrapf ''block number'' e))
           | (s2, Inr head) \<Rightarrow> if head \<le> from then Some (s2, Inr ()) else scan_loop b from head s2))"

section \<open>confirmation.go\<close>

record 's ConfirmationTracker =
  ct_lib :: eth_lib
  ct_Client :: "'s ChainClient"
  ct_Cfg :: ChainConfig
  ct_PendingTxs :: "'s OnchainTxRepository"
  ct_Orders :: "'s TransactionRepository"
  ct_Publisher :: "'s EventPublisher"
  ct_BlockTime :: int
  ct_BatchLimit :: nat
  ct_clock :: "'s \<Rightarrow> int"

definition NewConfirmationTracker ::
  "eth_lib \<Rightarrow> 's ChainClient \<Rightarrow> ChainConfig \<Rightarrow> 's OnchainTxRepository \<Rightarrow> 's TransactionRepository \<Rightarrow> 's EventPublisher \<Rightarrow>
    ('s \<Rightarrow> int) \<Rightarrow> 's ConfirmationTracker" where
  "NewConfirmationTracker lib c cfg ptx orders p clock = \<lparr>
     ct_lib = lib, ct_Client = c, ct_Cfg = cfg, ct_PendingTxs = ptx, ct_Orders = orders, ct_Publisher = p,
     ct_BlockTime = 12 * 1000000000, ct_BatchLimit = 100, ct_clock = clock\<rparr>"

text \<open>\<^verbatim>\<open>big.Int.Int64\<close>: the low 64 bits as a signed integer.\<close>

definition big_Int64 :: "int \<Rightarrow> int" where
  "big_Int64 a = int64 a"

definition crypto_event :: "Transaction \<Rightarrow> int \<Rightarrow> PaymentConfirmedEvent" where
  "crypto_event order now =
     \<lparr>ev_OrderID = t_OrderID order, ev_MerchantID = t_MerchantID order, ev_Status = TransactionStatusPaid,
      ev_StripePaymentIntentID = [], ev_Amount = t_Amount order, ev_Currency = t_Currency order, ev_ConfirmedAt = unix now\<rparr>"

text \<open>The end of \<open>processOne\<close>: mark the payment, mark the order, publish.\<close>

definition confirm_order :: "'s ConfirmationTracker \<Rightarrow> OnchainTransaction \<Rightarrow> uint64 \<Rightarrow> Transaction \<Rightarrow> 's \<Rightarrow> 's" where
  "confirm_order t p confirmations order s =
     (case otr_UpdateConfirmations (ct_PendingTxs t) (x_TxHash p) confirmations OnchainTxStatusConfirmed s of
        (s1, Inl _) \<Rightarrow> s1
      | (s1, Inr _) \<Rightarrow>
          (case tr_UpdateStatus (ct_Orders t) (t_ShardIndex order) (t_MerchantID order) (t_OrderID order) TransactionStatusPaid [] s1 of
             (s2, Inl _) \<Rightarrow> s2
           | (s2, Inr _) \<Rightarrow> fst (ep_PublishPaymentConfirmed (ct_Publisher t) (crypto_event order (ct_clock t s2)) s2)))"

definition processOne :: "'s ConfirmationTracker \<Rightarrow> uint64 \<Rightarrow> OnchainTransaction \<Rightarrow> 's \<Rightarrow> 's" where
  "processOne t latest p s =
     (let mark = (\<lambda>n st s. fst (otr_UpdateConfirmations (ct_PendingTxs t) (x_TxHash p) n st s))
      in case cl_TransactionReceipt (ct_Client t) (el_HexToHash (ct_lib t) (x_TxHash p)) s of
        (s1, Inl _) \<Rightarrow> mark 0 OnchainTxStatusReorged s1
      | (s1, Inr None) \<Rightarrow> mark 0 OnchainTxStatusReorged s1
      | (s1, Inr (Some status)) \<Rightarrow>
          if status \<noteq> 1 then mark 0 OnchainTxStatusFailed s1
          else if latest < x_BlockNumber p then s1
          else let confirmations = latest - x_BlockNumber p
               in if confirmations < x_RequiredConfirm p then mark confirmations OnchainTxStatusPending s1
               else (case tr_GetByOrderIDAny (ct_Orders t) (x_OrderID p) s1 of
                       (s2, Inl _) \<Rightarrow> s2
                     | (s2, Inr order) \<Rightarrow>
                         if t_Status order = TransactionStatusPaid \<or> t_Status order = TransactionStatusRefunded
                         then mark confirmations OnchainTxStatusConfirmed s2
                         else if x_Amount p = None \<or> map_option big_Int64 (x_Amount p) \<noteq> Some (t_Amount order)
                         then mark confirmations OnchainTxStatusFailed s2
                         else confirm_order t p confirmations order s2))"

definition confirm_tick :: "'s ConfirmationTracker \<Rightarrow> 's \<Rightarrow> 's \<times> unit result" where
  "confirm_tick t s =
     (case cl_BlockNumber (ct_Client t) s of
        (s1, Inl e) \<Rightarrow> (s1, Inl (Wrapf ''block number'' e))
      | (s1, Inr latest) \<Rightarrow>
          (case otr_ListPendingByChain (ct_PendingTxs t) (ch_ChainID (ct_Cfg t)) (ct_BatchLimit t) s1 of
             (s2, Inl e) \<Rightarrow> (s2, Inl (Wrapf ''list pending'' e))
           | (s2, Inr pendings) \<Rightarrow> (fold (processOne t latest) pendings s2, Inr ())))"

section \<open>reconciliation.go\<close>

record 's Reconciler =
  re_lib :: eth_lib
  re_Client :: "'s ChainClient"
  re_Cfg :: ChainConfig
  re_PendingTxs :: "'s OnchainTxRepository"
  re_Interval :: int
  re_StuckAfter :: int
  re_BatchSize :: nat
  re_clock :: "'s \<Rightarrow> int"

definition NewReconciler ::
  "eth_lib \<Rightarrow> 's ChainClient \<Rightarrow> ChainConfig \<Rightarrow> 's OnchainTxRepository \<Rightarrow> ('s \<Rightarrow> int) \<Rightarrow> 's Reconciler" where
  "NewReconciler lib c cfg repo clock = \<lparr>
     re_lib = lib, re_Client = c, re_Cfg = cfg, re_PendingTxs = repo,
     re_Interval = 3600 * 1000000000, re_StuckAfter = 30 * 60 * 1000000000, re_BatchSize = 500, re_clock = clock\<rparr>"

definition recheck :: "'s Reconciler \<Rightarrow> OnchainTransaction \<Rightarrow> 's \<Rightarrow> 's" where
  "recheck r p s =
     (case cl_TransactionReceipt (re_Client r) (el_HexToHash (re_lib r) (x_TxHash p)) s of
        (s1, Inr (Some status)) \<Rightarrow>
          if status \<noteq> 1
          then fst (otr_UpdateConfirmations (re_PendingTxs r) (x_TxHash p) (x_Confirmations p) OnchainTxStatusFailed s1)
          else s1
      | (s1, _) \<Rightarrow> fst (otr_UpdateConfirmations (re_PendingTxs r) (x_TxHash p) (x_Confirmations p) OnchainTxStatusReorged s1))"

text \<open>The transactions an alert is logged for.\<close>

definition overdue :: "'s Reconciler \<Rightarrow> int \<Rightarrow> OnchainTransaction \<Rightarrow> bool" where
  "overdue r now p \<longleftrightarrow> now - x_CreatedAt p > re_StuckAfter r"

definition recheck_tick :: "'s Reconciler \<Rightarrow> 's \<Rightarrow> 's \<times> OnchainTransaction list result" where
  "recheck_tick r s =
     (case otr_ListPendingByChain (re_PendingTxs r) (ch_ChainID (re_Cfg r)) (re_BatchSize r) s of
        (s1, Inl e) \<Rightarrow> (s1, Inl e)
      | (s1, Inr pendings) \<Rightarrow> (fold (recheck r) pendings s1, Inr (filter (overdue r (re_clock r s1)) pendings)))"

section \<open>listener.go and the loops of the tickers\<close>

text \<open>
  \<open>n\<close> turns of a ticker loop: the \<^verbatim>\<open>select\<close> yields the error of a cancelled context or a tick. The
  result is \<^const>\<open>None\<close> if a tick never ends.
\<close>

fun tick_loop :: "nat \<Rightarrow> ('s \<Rightarrow> 's \<times> goerr option) \<Rightarrow> ('s \<Rightarrow> 's option) \<Rightarrow> 's \<Rightarrow> ('s \<times> goerr option) option" where
  "tick_loop 0 sel turn s = Some (s, None)"
| "tick_loop (Suc n) sel turn s =
     (case sel s of
        (s1, Some e) \<Rightarrow> Some (s1, Some e)
      | (s1, None) \<Rightarrow> (case turn s1 of None \<Rightarrow> None | Some s2 \<Rightarrow> tick_loop n sel turn s2))"

definition backfill_Run :: "nat \<Rightarrow> ('s \<Rightarrow> 's \<times> goerr option) \<Rightarrow> 's BackfillScanner \<Rightarrow> 's \<Rightarrow> ('s \<times> goerr option) option" where
  "backfill_Run n sel b = tick_loop n sel (\<lambda>s. map_option fst (backfill_tick b s))"

definition confirm_Run :: "nat \<Rightarrow> ('s \<Rightarrow> 's \<times> goerr option) \<Rightarrow> 's ConfirmationTracker \<Rightarrow> 's \<Rightarrow> ('s \<times> goerr option) option" where
  "confirm_Run n sel t = tick_loop n sel (\<lambda>s. Some (fst (confirm_tick t s)))"

definition recheck_Run :: "nat \<Rightarrow> ('s \<Rightarrow> 's \<times> goerr option) \<Rightarrow> 's Reconciler \<Rightarrow> 's \<Rightarrow> ('s \<times> goerr option) option" where
  "recheck_Run n sel r = tick_loop n sel (\<lambda>s. Some (fst (recheck_tick r s)))"

record 's Listener =
  li_Subscriber :: "'s Subscriber"
  li_Backfill :: "'s BackfillScanner"
  li_Confirmation :: "'s ConfirmationTracker"
  li_Reconciler :: "'s Reconciler"

definition NewListener ::
  "eth_lib \<Rightarrow> 's ChainClient \<Rightarrow> ChainConfig \<Rightarrow> 's CursorStore \<Rightarrow> 's OnchainTxRepository \<Rightarrow> 's TransactionRepository \<Rightarrow>
    's EventPublisher \<Rightarrow> ('s \<Rightarrow> goerr option) \<Rightarrow> ('s \<Rightarrow> 's \<times> sub_event) \<Rightarrow> (int \<Rightarrow> 's \<Rightarrow> 's \<times> goerr option) \<Rightarrow>
    ('s \<Rightarrow> int) \<Rightarrow> 's Listener" where
  "NewListener lib c cfg cursor pendingTxs orders publisher ctxErr select wait clock = \<lparr>
     li_Subscriber = NewSubscriber lib c cfg cursor pendingTxs orders ctxErr select wait,
     li_Backfill = NewBackfillScanner lib c cfg cursor pendingTxs orders,
     li_Confirmation = NewConfirmationTracker lib c cfg pendingTxs orders publisher clock,
     li_Reconciler = NewReconciler lib c cfg pendingTxs clock\<rparr>"

text \<open>
  The four goroutines of \<open>Run\<close> take turns: the subscriber handles a log, or one of the tickers fires.
  A run is any sequence of turns.
\<close>

datatype turn = TurnLog Log | TurnBackfill | TurnConfirm | TurnRecheck

fun listener_turn :: "'s Listener \<Rightarrow> turn \<Rightarrow> 's \<Rightarrow> 's option" where
  "listener_turn l (TurnLog lg) s = Some (fst (handleLog (li_Subscriber l) lg s))"
| "listener_turn l TurnBackfill s = map_option fst (backfill_tick (li_Backfill l) s)"
| "listener_turn l TurnConfirm s = Some (fst (confirm_tick (li_Confirmation l) s))"
| "listener_turn l TurnRecheck s = Some (fst (recheck_tick (li_Reconciler l) s))"

fun listener_run :: "'s Listener \<Rightarrow> turn list \<Rightarrow> 's \<Rightarrow> 's option" where
  "listener_run l [] s = Some s"
| "listener_run l (t # ts) s = (case listener_turn l t s of None \<Rightarrow> None | Some s' \<Rightarrow> listener_run l ts s')"

end
