(* ===== verification/ChainListener.thy ===== *)
theory ChainListener
  imports Blockchain
begin

text \<open>
  The blockchain components on one state: the wiring of the listener over the repositories, what the
  turns of its four goroutines leave alone (locales \<open>chain_frame\<close> and \<open>tracker_frame\<close>), and the
  properties of the on-chain payments.
\<close>

section \<open>What the turns leave alone\<close>

text \<open>A relation every port keeps, updates of payments with an allowed hash included.\<close>

locale chain_frame =
  fixes l :: "'s Listener" and kept :: "'s \<Rightarrow> 's \<Rightarrow> bool" and ok :: "string \<Rightarrow> bool"
  assumes kept_refl: "kept s s"
    and kept_trans: "kept s t \<Longrightarrow> kept t u \<Longrightarrow> kept s u"
    and kept_by_hash: "kept s (fst (otr_GetByTxHash (sb_PendingTxs (li_Subscriber l)) h s))"
      "kept s (fst (otr_GetByTxHash (bf_PendingTxs (li_Backfill l)) h s))"
    and kept_any: "kept s (fst (tr_GetByOrderIDAny (sb_Orders (li_Subscriber l)) oid s))"
      "kept s (fst (tr_GetByOrderIDAny (bf_Orders (li_Backfill l)) oid s))"
    and kept_create: "kept s (fst (otr_Create (sb_PendingTxs (li_Subscriber l)) tx s))"
      "kept s (fst (otr_Create (bf_PendingTxs (li_Backfill l)) tx s))"
    and kept_cursor: "kept s (fst (cu_Set (sb_Cursor (li_Subscriber l)) cid blk s))"
      "kept s (fst (cu_Set (bf_Cursor (li_Backfill l)) cid blk s))"
      "kept s (fst (cu_Get (bf_Cursor (li_Backfill l)) cid s))"
    and kept_chain: "kept s (fst (cl_BlockNumber (bf_Client (li_Backfill l)) s))"
      "kept s (fst (cl_FilterLogs (bf_Client (li_Backfill l)) q s))"
      "kept s (fst (cl_TransactionReceipt (re_Client (li_Reconciler l)) h s))"
    and kept_recheck_mark: "ok h \<Longrightarrow> kept s (fst (otr_UpdateConfirmations (re_PendingTxs (li_Reconciler l)) h n st s))"
begin

lemma kept_port: "kept s (fst (f s)) \<Longrightarrow> f s = (s', res) \<Longrightarrow> kept s s'"
  by simp

lemmas kept_ports =
  kept_port [where f = "otr_GetByTxHash (sb_PendingTxs (li_Subscriber l)) h" for h, OF kept_by_hash(1)]
  kept_port [where f = "otr_GetByTxHash (bf_PendingTxs (li_Backfill l)) h" for h, OF kept_by_hash(2)]
  kept_port [where f = "tr_GetByOrderIDAny (sb_Orders (li_Subscriber l)) oid" for oid, OF kept_any(1)]
  kept_port [where f = "tr_GetByOrderIDAny (bf_Orders (li_Backfill l)) oid" for oid, OF kept_any(2)]
  kept_port [where f = "otr_Create (sb_PendingTxs (li_Subscriber l)) tx" for tx, OF kept_create(1)]
  kept_port [where f = "cu_Get (bf_Cursor (li_Backfill l)) cid" for cid, OF kept_cursor(3)]
  kept_port [where f = "cl_BlockNumber (bf_Client (li_Backfill l))", OF kept_chain(1)]
  kept_port [where f = "cl_FilterLogs (bf_Client (li_Backfill l)) q" for q, OF kept_chain(2)]
  kept_port [where f = "cl_TransactionReceipt (re_Client (li_Reconciler l)) h" for h, OF kept_chain(3)]

lemma kept_handleLog: "kept s (fst (handleLog (li_Subscriber l) lg s))"
  by (auto simp: handleLog_def split: prod.split sum.split dest!: kept_ports; meson kept_trans kept_cursor(1))

lemma kept_persist: "kept s (persist (li_Backfill l) lg s)"
  by (auto simp: persist_def split: prod.split sum.split dest!: kept_ports; meson kept_trans kept_create(2))

lemma kept_fold: "(\<And>x s. x \<in> set xs \<Longrightarrow> kept s (f x s)) \<Longrightarrow> kept s (fold f xs s)"
proof (induction xs arbitrary: s)
  case Nil
  show ?case
    by (simp add: kept_refl)
next
  case (Cons x xs)
  have "kept s (f x s)" "kept (f x s) (fold f xs (f x s))"
    by (simp_all add: Cons)
  then show ?case
    by (simp add: kept_trans [of s "f x s"])
qed

lemma kept_scan:
  assumes ret: "scan_loop (li_Backfill l) frm head s = Some y"
  shows "kept s (fst y)"
proof -
  have "li_Backfill l = li_Backfill l \<longrightarrow> kept s (fst y)"
  proof (rule scan_loop.raw_induct [where P = "\<lambda>b frm head s y. b = li_Backfill l \<longrightarrow> kept s (fst y)", OF _ ret])
    fix f :: "'s BackfillScanner \<Rightarrow> uint64 \<Rightarrow> uint64 \<Rightarrow> 's \<Rightarrow> ('s \<times> unit result) option" and b :: "'s BackfillScanner" and frm head s y
    let ?to = "batch_end b frm head"
    assume IH: "\<And>b frm head s y. f b frm head s = Some y \<Longrightarrow> b = li_Backfill l \<longrightarrow> kept s (fst y)"
      and eq: "(if \<not> frm < head then Some (s, Inr ())
        else case cl_FilterLogs (bf_Client b) (contract_query (bf_Cfg b) (Some frm) (Some ?to)) s of
          (s1, Inl e) \<Rightarrow> Some (s1, Inl (Wrapf ''filter logs'' e))
        | (s1, Inr logs) \<Rightarrow> f b ?to head (fst (cu_Set (bf_Cursor b) (ch_ChainID (bf_Cfg b)) ?to (fold (persist b) logs s1)))) = Some y"
    show "b = li_Backfill l \<longrightarrow> kept s (fst y)"
    proof
      assume b: "b = li_Backfill l"
      obtain s1 r1 where q: "cl_FilterLogs (bf_Client b) (contract_query (bf_Cfg b) (Some frm) (Some ?to)) s = (s1, r1)"
        by fastforce
      have s1: "kept s s1"
        using q b by (auto dest: kept_ports)
      show "kept s (fst y)"
      proof (cases "frm < head")
        case False
        with eq show ?thesis
          by (auto simp: kept_refl)
      next
        case True
        show ?thesis
        proof (cases r1)
          case (Inl e)
          with eq True q s1 show ?thesis
            by auto
        next
          case (Inr logs)
          let ?s2 = "fold (persist b) logs s1"
          have "f b ?to head (fst (cu_Set (bf_Cursor b) (ch_ChainID (bf_Cfg b)) ?to ?s2)) = Some y"
            using eq True q Inr by simp
          from IH [OF this] b have "kept (fst (cu_Set (bf_Cursor b) (ch_ChainID (bf_Cfg b)) ?to ?s2)) (fst y)"
            by simp
          moreover have "kept s1 ?s2"
            unfolding b by (rule kept_fold) (rule kept_persist)
          moreover have "kept ?s2 (fst (cu_Set (bf_Cursor b) (ch_ChainID (bf_Cfg b)) ?to ?s2))"
            unfolding b by (rule kept_cursor(2))
          ultimately show ?thesis
            using s1 by (meson kept_trans)
        qed
      qed
    qed
  qed
  then show ?thesis
    by simp
qed

lemma kept_backfill:
  assumes "backfill_tick (li_Backfill l) s = Some y"
  shows "kept s (fst y)"
proof -
  obtain s1 r1 where 1: "cu_Get (bf_Cursor (li_Backfill l)) (ch_ChainID (bf_Cfg (li_Backfill l))) s = (s1, r1)"
    by fastforce
  obtain s2 r2 where 2: "cl_BlockNumber (bf_Client (li_Backfill l)) s1 = (s2, r2)"
    by fastforce
  have k: "kept s s1" "kept s s2"
    using 1 2 by (auto dest!: kept_ports intro: kept_trans)
  show ?thesis
    using assms 1 2 k
    by (auto simp: backfill_tick_def Let_def split: sum.splits if_splits dest!: kept_scan intro: kept_trans)
qed

lemma kept_recheck: "ok (x_TxHash p) \<Longrightarrow> kept s (recheck (li_Reconciler l) p s)"
  by (auto simp: recheck_def split: prod.split sum.split option.split dest!: kept_ports; meson kept_trans kept_recheck_mark)

end

text \<open>The tracker uses the order repository and the publisher as well.\<close>

locale tracker_frame = chain_frame l kept ok
  for l :: "'s Listener" and kept and ok +
  assumes kept_receipt: "kept s (fst (cl_TransactionReceipt (ct_Client (li_Confirmation l)) h s))"
    and kept_order: "kept s (fst (tr_GetByOrderIDAny (ct_Orders (li_Confirmation l)) oid s))"
    and kept_mark: "ok h \<Longrightarrow> kept s (fst (otr_UpdateConfirmations (ct_PendingTxs (li_Confirmation l)) h n st s))"
    and kept_status: "kept s (fst (tr_UpdateStatus (ct_Orders (li_Confirmation l)) i mid oid st x s))"
    and kept_publish: "kept s (fst (ep_PublishPaymentConfirmed (ct_Publisher (li_Confirmation l)) ev s))"
begin

lemma kept_confirm_order:
  assumes "ok (x_TxHash p)"
  shows "kept s (confirm_order (li_Confirmation l) p n order s)"
proof -
  obtain s1 r1 where 1: "otr_UpdateConfirmations (ct_PendingTxs (li_Confirmation l)) (x_TxHash p) n OnchainTxStatusConfirmed s = (s1, r1)"
    by fastforce
  obtain s2 r2 where 2: "tr_UpdateStatus (ct_Orders (li_Confirmation l)) (t_ShardIndex order) (t_MerchantID order) (t_OrderID order)
      TransactionStatusPaid [] s1 = (s2, r2)"
    by fastforce
  have "kept s s1" "kept s1 s2"
    using kept_mark [OF assms, of s n OnchainTxStatusConfirmed] 1
      kept_status [of s1 "t_ShardIndex order" "t_MerchantID order" "t_OrderID order" TransactionStatusPaid "[]"] 2 by simp_all
  then show ?thesis
    using 1 2 by (auto simp: confirm_order_def split: sum.split; meson kept_trans kept_publish)
qed

lemma kept_processOne:
  assumes "ok (x_TxHash p)"
  shows "kept s (processOne (li_Confirmation l) latest p s)"
proof -
  obtain s1 r1 where 1: "cl_TransactionReceipt (ct_Client (li_Confirmation l)) (el_HexToHash (ct_lib (li_Confirmation l)) (x_TxHash p)) s = (s1, r1)"
    by fastforce
  obtain s2 r2 where 2: "tr_GetByOrderIDAny (ct_Orders (li_Confirmation l)) (x_OrderID p) s1 = (s2, r2)"
    by fastforce
  have k: "kept s s1" "kept s s2"
    using kept_receipt [of s] 1 kept_order [of s1] 2 by (metis fst_conv kept_trans)+
  have "kept s (fst (otr_UpdateConfirmations (ct_PendingTxs (li_Confirmation l)) (x_TxHash p) n st s1))"
    "kept s (fst (otr_UpdateConfirmations (ct_PendingTxs (li_Confirmation l)) (x_TxHash p) n st s2))"
    "kept s (confirm_order (li_Confirmation l) p n order s2)" for n st order
    using k kept_mark [OF assms] kept_confirm_order [OF assms] by (meson kept_trans)+
  with k 1 2 show ?thesis
    by (simp add: processOne_def Let_def split: sum.split option.split)
qed

end

section \<open>The listener of the gateway\<close>

definition lift_chain :: "'x ChainClient \<Rightarrow> 'x chain_store_scheme ChainClient" where
  "lift_chain c = \<lparr>
     cl_BlockNumber = lift_port chain_store.more (\<lambda>x. chain_store.more_update (\<lambda>_. x)) (cl_BlockNumber c),
     cl_SubscribeFilterLogs = (\<lambda>q. lift_port chain_store.more (\<lambda>x. chain_store.more_update (\<lambda>_. x)) (cl_SubscribeFilterLogs c q)),
     cl_FilterLogs = (\<lambda>q. lift_port chain_store.more (\<lambda>x. chain_store.more_update (\<lambda>_. x)) (cl_FilterLogs c q)),
     cl_TransactionReceipt = (\<lambda>h. lift_port chain_store.more (\<lambda>x. chain_store.more_update (\<lambda>_. x)) (cl_TransactionReceipt c h)),
     cl_Close = (\<lambda>s. s\<lparr>chain_store.more := cl_Close c (chain_store.more s)\<rparr>)\<rparr>"

record 'x chain_wiring =
  cw_env :: db_env
  cw_router :: "nat multiShardRouter"
  cw_marshal :: "PaymentConfirmedEvent \<Rightarrow> string result"
  cw_kafka :: "nat \<Rightarrow> goerr option"
  cw_lib :: eth_lib
  cw_cfg :: ChainConfig
  cw_client :: "'x ChainClient"
  cw_ctxErr :: "'x chain_store_scheme \<Rightarrow> goerr option"
  cw_select :: "'x chain_store_scheme \<Rightarrow> 'x chain_store_scheme \<times> sub_event"
  cw_wait :: "int \<Rightarrow> 'x chain_store_scheme \<Rightarrow> 'x chain_store_scheme \<times> goerr option"

definition chain_listener :: "'x chain_wiring \<Rightarrow> 'x chain_store_scheme Listener" where
  "chain_listener w = NewListener (cw_lib w) (lift_chain (cw_client w)) (cw_cfg w) (NewMySQLCursor (cw_env w) (cw_router w))
     (NewOnchainTxRepository (cw_env w) (cw_router w)) (NewTransactionRepository (cw_env w) (cw_router w))
     (NewPublisher (cw_marshal w) (cw_kafka w)) (cw_ctxErr w) (cw_select w) (cw_wait w)
     (\<lambda>s. env_clock (cw_env w) (stmts s))"

lemmas chain_listener_unfold = chain_listener_def NewListener_def NewSubscriber_def NewBackfillScanner_def
  NewConfirmationTracker_def NewReconciler_def NewOnchainTxRepository_def NewMySQLCursor_def NewPublisher_def

lemma chain_listener_simps [simp]:
  "sb_PendingTxs (li_Subscriber (chain_listener w)) = NewOnchainTxRepository (cw_env w) (cw_router w)"
  "bf_PendingTxs (li_Backfill (chain_listener w)) = NewOnchainTxRepository (cw_env w) (cw_router w)"
  "ct_PendingTxs (li_Confirmation (chain_listener w)) = NewOnchainTxRepository (cw_env w) (cw_router w)"
  "re_PendingTxs (li_Reconciler (chain_listener w)) = NewOnchainTxRepository (cw_env w) (cw_router w)"
  "sb_Orders (li_Subscriber (chain_listener w)) = NewTransactionRepository (cw_env w) (cw_router w)"
  "bf_Orders (li_Backfill (chain_listener w)) = NewTransactionRepository (cw_env w) (cw_router w)"
  "ct_Orders (li_Confirmation (chain_listener w)) = NewTransactionRepository (cw_env w) (cw_router w)"
  "sb_Cursor (li_Subscriber (chain_listener w)) = NewMySQLCursor (cw_env w) (cw_router w)"
  "bf_Cursor (li_Backfill (chain_listener w)) = NewMySQLCursor (cw_env w) (cw_router w)"
  "bf_Client (li_Backfill (chain_listener w)) = lift_chain (cw_client w)"
  "ct_Client (li_Confirmation (chain_listener w)) = lift_chain (cw_client w)"
  "re_Client (li_Reconciler (chain_listener w)) = lift_chain (cw_client w)"
  "ep_PublishPaymentConfirmed (ct_Publisher (li_Confirmation (chain_listener w))) =
     PublishPaymentConfirmed (cw_marshal w) (WriteMessages (cw_kafka w))"
  "sb_lib (li_Subscriber (chain_listener w)) = cw_lib w" "bf_lib (li_Backfill (chain_listener w)) = cw_lib w"
  "ct_lib (li_Confirmation (chain_listener w)) = cw_lib w" "re_lib (li_Reconciler (chain_listener w)) = cw_lib w"
  "sb_Cfg (li_Subscriber (chain_listener w)) = cw_cfg w" "bf_Cfg (li_Backfill (chain_listener w)) = cw_cfg w"
  "ct_Cfg (li_Confirmation (chain_listener w)) = cw_cfg w" "re_Cfg (li_Reconciler (chain_listener w)) = cw_cfg w"
  "bf_BatchSize (li_Backfill (chain_listener w)) = 5000"
  "ct_clock (li_Confirmation (chain_listener w)) s = env_clock (cw_env w) (stmts s)"
  by (simp_all add: chain_listener_def NewListener_def NewSubscriber_def NewBackfillScanner_def NewConfirmationTracker_def
      NewReconciler_def NewPublisher_def)

lemma chain_repo_simps [simp]:
  "otr_GetByTxHash (NewOnchainTxRepository env r) = GetByTxHash env r"
  "otr_Create (NewOnchainTxRepository env r) = tx_Create env r"
  "otr_UpdateConfirmations (NewOnchainTxRepository env r) = UpdateConfirmations env r"
  "otr_ListPendingByChain (NewOnchainTxRepository env r) = ListPendingByChain env r"
  "cu_Get (NewMySQLCursor env r) = cursor_Get env r" "cu_Set (NewMySQLCursor env r) = cursor_Set env r"
  by (simp_all add: NewOnchainTxRepository_def NewMySQLCursor_def)

text \<open>Which tables an operation touches.\<close>

lemma chain_ops_onchain [simp]:
  "onchain (fst (GetByTxHash env r h s)) = onchain s"
  "onchain (fst (cursor_Set env r cid b s)) = onchain s"
  "onchain (fst (cursor_Get env r cid s)) = onchain s"
  "onchain (fst (ListPendingByChain env r cid n s)) = onchain s"
  by (simp_all add: GetByTxHash_def cursor_Set_def cursor_Get_def ListPendingByChain_def split: option.split)

lemma txn_ops_onchain [simp]:
  "onchain (fst (GetByOrderIDAny env r oid s)) = onchain s"
  "onchain (fst (UpdateStatus env r i mid oid st x s)) = onchain s"
  "onchain (fst (PublishPaymentConfirmed marshal (WriteMessages faults) ev s)) = onchain s"
  by (simp_all add: GetByOrderIDAny_def scatterFirst_def UpdateStatus_def exec_update_def step_store_def Let_def
      PublishPaymentConfirmed_def WriteMessages_def split: sum.split option.split)

lemma lift_port_chain [simp]:
  "onchain (fst (lift_port chain_store.more (\<lambda>x. chain_store.more_update (\<lambda>_. x)) f s)) = onchain s"
  "tables (fst (lift_port chain_store.more (\<lambda>x. chain_store.more_update (\<lambda>_. x)) f s)) = tables s"
  "topic (fst (lift_port chain_store.more (\<lambda>x. chain_store.more_update (\<lambda>_. x)) f s)) = topic s"
  "writes (fst (lift_port chain_store.more (\<lambda>x. chain_store.more_update (\<lambda>_. x)) f s)) = writes s"
  "cursors (fst (lift_port chain_store.more (\<lambda>x. chain_store.more_update (\<lambda>_. x)) f s)) = cursors s"
  "stmts (fst (lift_port chain_store.more (\<lambda>x. chain_store.more_update (\<lambda>_. x)) f s)) = stmts s"
  "chain_store.more (fst (lift_port chain_store.more (\<lambda>x. chain_store.more_update (\<lambda>_. x)) f s)) = fst (f (chain_store.more s))"
  "snd (lift_port chain_store.more (\<lambda>x. chain_store.more_update (\<lambda>_. x)) f s) = snd (f (chain_store.more s))"
  by (simp_all add: lift_port_def split: prod.split)

lemma lift_chain_simps [simp]:
  "cl_BlockNumber (lift_chain c) = lift_port chain_store.more (\<lambda>x. chain_store.more_update (\<lambda>_. x)) (cl_BlockNumber c)"
  "cl_FilterLogs (lift_chain c) q = lift_port chain_store.more (\<lambda>x. chain_store.more_update (\<lambda>_. x)) (cl_FilterLogs c q)"
  "cl_TransactionReceipt (lift_chain c) h = lift_port chain_store.more (\<lambda>x. chain_store.more_update (\<lambda>_. x)) (cl_TransactionReceipt c h)"
  by (simp_all add: lift_chain_def)

section \<open>A payment record that left pending\<close>

definition rec_kept :: "db_env \<Rightarrow> string \<Rightarrow> 'a chain_store_scheme \<Rightarrow> 'a chain_store_scheme \<Rightarrow> bool" where
  "rec_kept env h s s' \<longleftrightarrow> (onchain_inv env s \<longrightarrow> onchain_inv env s') \<and>
     (oview env s h \<noteq> None \<longrightarrow> oview env s' h = oview env s h)"

lemma rec_kept_same: "onchain s' = onchain s \<Longrightarrow> rec_kept env h s s'"
  by (simp add: rec_kept_def oview_def onchain_inv_def)

lemma rec_kept_create: "rec_kept env h s (fst (tx_Create env r tx s))"
  using oview_create by (auto simp: rec_kept_def tx_Create_inv)

lemma rec_kept_mark:
  "coll_equiv env \<and> \<not> env_coll env h' h \<Longrightarrow> rec_kept env h s (fst (UpdateConfirmations env r h' n st s))"
  by (simp add: rec_kept_def UpdateConfirmations_inv oview_update_other)

interpretation ch_rec: tracker_frame "chain_listener w" "rec_kept (cw_env w) h" "\<lambda>h'. coll_equiv (cw_env w) \<and> \<not> env_coll (cw_env w) h' h"
  for w :: "'x chain_wiring" and h
  by unfold_locales (auto simp: rec_kept_same rec_kept_create rec_kept_mark NewTransactionRepository_def, auto simp: rec_kept_def)

text \<open>The observers of the chain, the receipt reconciler included, never touch an order or the topic.\<close>

definition orders_kept :: "'a chain_store_scheme \<Rightarrow> 'a chain_store_scheme \<Rightarrow> bool" where
  "orders_kept s s' \<longleftrightarrow> tables s' = tables s \<and> topic s' = topic s"

lemma chain_ops_orders [simp]:
  "tables (fst (GetByTxHash env r h s)) = tables s" "topic (fst (GetByTxHash env r h s)) = topic s"
  "tables (fst (cursor_Set env r cid b s)) = tables s" "topic (fst (cursor_Set env r cid b s)) = topic s"
  "tables (fst (cursor_Get env r cid s)) = tables s" "topic (fst (cursor_Get env r cid s)) = topic s"
  "tables (fst (ListPendingByChain env r cid n s)) = tables s" "topic (fst (ListPendingByChain env r cid n s)) = topic s"
  "tables (fst (tx_Create env r tx s)) = tables s" "topic (fst (tx_Create env r tx s)) = topic s"
  "tables (fst (UpdateConfirmations env r h n' st s)) = tables s" "topic (fst (UpdateConfirmations env r h n' st s)) = topic s"
  "tables (fst (GetByOrderIDAny env r oid s)) = tables s" "topic (fst (GetByOrderIDAny env r oid s)) = topic s"
  by (simp_all add: GetByTxHash_def cursor_Set_def cursor_Get_def ListPendingByChain_def tx_Create_def UpdateConfirmations_def
      GetByOrderIDAny_def scatterFirst_def step_store_def Let_def split: option.split sum.split)

interpretation ch_orders: chain_frame "chain_listener w" orders_kept "\<lambda>_. True"
  for w :: "'x chain_wiring"
  by unfold_locales (auto simp: orders_kept_def NewTransactionRepository_def)

lemma pendings_ok:
  assumes "coll_equiv env" "onchain_inv env s" "oview env s h = Some x" "x_Status x \<noteq> OnchainTxStatusPending"
    "snd (ListPendingByChain env r cid n s) = Inr ps" "p \<in> set ps"
  shows "\<not> env_coll env (x_TxHash p) h"
proof
  assume same: "env_coll env (x_TxHash p) h"
  have p: "p \<in> set (onchain s)" "x_Status p = OnchainTxStatusPending"
    using assms(5,6) by (auto simp: ListPendingByChain_def pending_on_def split: option.splits dest!: in_set_takeD)
  with oview_unique [OF assms(1,2) p(1) same assms(3)] assms(4) show False
    by simp
qed

lemma rec_kept_onchain:
  assumes "rec_kept env h s1 s2" "onchain s1 = onchain s"
  shows "rec_kept env h s s2"
proof -
  have "rec_kept env h s s1"
    by (rule rec_kept_same [OF assms(2)])
  with assms(1) show ?thesis
    by (auto simp: rec_kept_def)
qed

lemma confirm_tick_kept:
  assumes "coll_equiv (cw_env w)" "onchain_inv (cw_env w) s" "oview (cw_env w) s h = Some x" "x_Status x \<noteq> OnchainTxStatusPending"
  shows "rec_kept (cw_env w) h s (fst (confirm_tick (li_Confirmation (chain_listener w)) s))"
proof -
  let ?t = "li_Confirmation (chain_listener w)"
  obtain s1 r1 where 1: "cl_BlockNumber (ct_Client ?t) s = (s1, r1)"
    by fastforce
  obtain s2 r2 where 2: "ListPendingByChain (cw_env w) (cw_router w) (ch_ChainID (ct_Cfg ?t)) (ct_BatchLimit ?t) s1 = (s2, r2)"
    by fastforce
  have on: "onchain s1 = onchain s" "onchain s2 = onchain s"
    using 1 2 lift_port_chain(1) [of "cl_BlockNumber (cw_client w)" s] chain_ops_onchain(4) [of "cw_env w" "cw_router w" _ _ s1]
    by (metis chain_listener_simps(11) fst_conv lift_chain_simps(1))+
  show ?thesis
  proof (cases r2)
    case (Inr ps)
    have "\<not> env_coll (cw_env w) (x_TxHash p) h" if "p \<in> set ps" for p
      using pendings_ok [OF assms(1), of s1 h x] that 2 Inr assms(2-4) on(1) oview_onchain [OF on(1)] onchain_inv_same [OF on(1)]
      by (metis snd_conv)
    then have "rec_kept (cw_env w) h s2 (fold (processOne ?t latest) ps s2)" for latest
      by (intro ch_rec.kept_fold ch_rec.kept_processOne) (simp add: assms(1))
    from rec_kept_onchain [OF this on(2)] show ?thesis
      using 1 2 Inr on rec_kept_same [of _ s] by (simp add: confirm_tick_def split: sum.split)
  qed (use 1 2 on rec_kept_same [of _ s] in \<open>simp add: confirm_tick_def split: sum.split\<close>)
qed

lemma recheck_tick_kept:
  assumes "coll_equiv (cw_env w)" "onchain_inv (cw_env w) s" "oview (cw_env w) s h = Some x" "x_Status x \<noteq> OnchainTxStatusPending"
  shows "rec_kept (cw_env w) h s (fst (recheck_tick (li_Reconciler (chain_listener w)) s))"
proof -
  let ?t = "li_Reconciler (chain_listener w)"
  obtain s2 r2 where 2: "ListPendingByChain (cw_env w) (cw_router w) (ch_ChainID (re_Cfg ?t)) (re_BatchSize ?t) s = (s2, r2)"
    by fastforce
  have on: "onchain s2 = onchain s"
    using 2 chain_ops_onchain(4) [of "cw_env w" "cw_router w" _ _ s] by (metis fst_conv)
  show ?thesis
  proof (cases r2)
    case (Inr ps)
    have "\<not> env_coll (cw_env w) (x_TxHash p) h" if "p \<in> set ps" for p
      using pendings_ok [OF assms] that 2 Inr by (metis snd_conv)
    then have "rec_kept (cw_env w) h s2 (fold (recheck ?t) ps s2)"
      by (intro ch_rec.kept_fold ch_rec.kept_recheck) (simp add: assms(1))
    from rec_kept_onchain [OF this on] show ?thesis
      using 2 Inr by (simp add: recheck_tick_def)
  qed (use 2 on rec_kept_same [of _ s] in \<open>simp add: recheck_tick_def\<close>)
qed

lemma turn_kept:
  assumes "coll_equiv (cw_env w)" "onchain_inv (cw_env w) s" "oview (cw_env w) s h = Some x" "x_Status x \<noteq> OnchainTxStatusPending"
    "listener_turn (chain_listener w) t s = Some s'"
  shows "rec_kept (cw_env w) h s s'"
  using assms(5) ch_rec.kept_handleLog [of w h s] ch_rec.kept_backfill [of w s _ h] confirm_tick_kept [OF assms(1-4)]
    recheck_tick_kept [OF assms(1-4)] by (cases t) auto


section \<open>The backfill scan\<close>

lemma batch_end_progress:
  assumes "frm < head" "0 < bf_BatchSize b" "unat head + unat (bf_BatchSize b) < 2 ^ 64"
  shows "frm < batch_end b frm head" "batch_end b frm head \<le> head"
proof -
  have "unat frm + unat (bf_BatchSize b) < 2 ^ 64"
    using assms(1,3) by (simp add: word_less_nat_alt)
  then have "unat (frm + bf_BatchSize b) = unat frm + unat (bf_BatchSize b)"
    by (subst unat_add_lem [symmetric]) simp
  with assms show "frm < batch_end b frm head" "batch_end b frm head \<le> head"
    by (simp_all add: batch_end_def Let_def word_less_nat_alt word_le_nat_alt not_less)
qed

text \<open>Induction over the batches of a scan.\<close>

lemma scan_induct [consumes 2, case_names step]:
  assumes "0 < bf_BatchSize b" "unat head + unat (bf_BatchSize b) < 2 ^ 64"
    and step: "\<And>frm s. (\<And>s'. frm < head \<Longrightarrow> P (batch_end b frm head) s') \<Longrightarrow> P frm s"
  shows "P frm s"
proof (induction "unat head - unat frm" arbitrary: frm s rule: less_induct)
  case less
  show ?case
  proof (rule step)
    fix s'
    assume "frm < head"
    with batch_end_progress [OF this assms(1,2)] show "P (batch_end b frm head) s'"
      by (intro less) (simp add: word_less_nat_alt word_le_nat_alt)
  qed
qed

lemma scan_total:
  assumes "0 < bf_BatchSize b" "unat head + unat (bf_BatchSize b) < 2 ^ 64"
  shows "\<exists>res. scan_loop b frm head s = Some res"
  using assms
proof (induction frm s rule: scan_induct)
  case (step frm s)
  then show ?case
    by (subst scan_loop.simps) (auto split: prod.split sum.split)
qed

lemma listener_run_total:
  assumes "\<And>x x' head. cl_BlockNumber (cw_client w) x = (x', Inr head) \<Longrightarrow> unat head + 5000 < 2 ^ 64"
  shows "\<exists>s'. listener_run (chain_listener w) ts s = Some s'"
proof (induction ts arbitrary: s)
  case (Cons t ts)
  let ?b = "li_Backfill (chain_listener w)"
  have bn: "unat head + 5000 < 2 ^ 64" if "cl_BlockNumber (bf_Client ?b) s1 = (s2, Inr head)" for s1 s2 head
    using that assms [of "chain_store.more s1" _ head] by (auto simp: lift_port_def split: prod.splits)
  have "\<exists>y. backfill_tick ?b s = Some y"
    using scan_total [of ?b] bn by (auto simp: backfill_tick_def Let_def split: prod.split sum.split)
  then have "\<exists>s'. listener_turn (chain_listener w) t s = Some s'"
    by (cases t) auto
  with Cons show ?case
    by auto
qed simp

text \<open>C21. Every turn of the listener ends, in any sequence of turns and whichever statements and calls fail,
  as long as the block numbers the node reports leave room for one batch of 5000 blocks below
  \<open>2^64\<close>: there the addition of the batch size cannot wrap around, and each batch of the scan ends
  closer to the head.\<close>

theorem listener_total:
  assumes "\<And>x x' head. cl_BlockNumber (cw_client w) x = (x', Inr head) \<Longrightarrow> unat head + 5000 < 2 ^ 64"
  shows "\<exists>s'. listener_run (chain_listener w) ts s = Some s'"
  using assms by (rule listener_run_total)

text \<open>The rows an order id leads to, in any shard.\<close>

definition order_row :: "db_env \<Rightarrow> nat multiShardRouter \<Rightarrow> 'a txn_store_scheme \<Rightarrow> string \<Rightarrow> txn_row \<Rightarrow> bool" where
  "order_row env r s oid row \<longleftrightarrow> (\<exists>p \<in> set (router_All r). row \<in> set (tables s p)) \<and> env_coll env (row_order_id row) oid"

definition arrivals_ok :: "db_env \<Rightarrow> nat multiShardRouter \<Rightarrow> bool" where
  "arrivals_ok env r \<longleftrightarrow> (\<forall>n. mset (env_arrival env n) = mset [0..<length (router_All r)])"

lemma GetByOrderIDAny_known:
  assumes good: "repo_good env r s" "arrivals_ok env r" and known: "order_row env r s oid row" "ValidateOrderID oid = Inr ()"
  obtains row' i where "GetByOrderIDAny env r oid s = (step_store s, Inr (row_txn i row'))" "order_row env r s oid row'" "row_ok row'"
    "\<exists>p. router_For r i = Inr p \<and> row' \<in> set (tables s p)"
proof -
  have a: "wf_router r" "txn_inv s" "\<forall>n p e. env_fault env n p = Some e \<longrightarrow> \<not> errors_Is e ErrNotFound"
    "mset (env_arrival env (stmts s)) = mset [0..<length (router_All r)]"
    using good by (auto simp: repo_good_def healthy_def arrivals_ok_def)
  show thesis
  proof (cases rule: scatterFirst_cases [OF a, of "\<lambda>row. env_coll env (row_order_id row) oid", case_names hit miss])
    case (hit p row')
    then show ?thesis
      using known(2) txn_inv_row_ok [OF a(2) hit(2)]
      by (intro that) (auto simp: GetByOrderIDAny_def order_row_def)
  next
    case (miss e)
    from known(1) obtain p where "p < length (router_All r)" "row \<in> set (tables s (router_All r ! p))" "env_coll env (row_order_id row) oid"
      unfolding order_row_def by (metis in_set_conv_nth)
    with miss(2) [of p row] good(1) show ?thesis
      by (simp add: repo_good_def healthy_def)
  qed
qed

text \<open>A log the database has room for, of an order it knows.\<close>

definition recordable :: "'x chain_wiring \<Rightarrow> 'x chain_store_scheme \<Rightarrow> Log \<Rightarrow> bool" where
  "recordable w s lg \<longleftrightarrow> (case ParsePaymentEvent (cw_lib w) lg of
      Inl e \<Rightarrow> False
    | Inr parsed \<Rightarrow> ValidateOrderID (pe_OrderID parsed) = Inr () \<and> (\<exists>row. order_row (cw_env w) (cw_router w) s (pe_OrderID parsed) row) \<and>
        length (el_HashHex (cw_lib w) (lg_TxHash lg)) \<le> 66 \<and> bigint_fits (lg_BlockNumber lg) \<and>
        length (pe_OrderID parsed) \<le> 64 \<and> length (el_AddressHex (cw_lib w) (pe_Payer parsed)) \<le> 42 \<and>
        length (el_AddressHex (cw_lib w) (pe_Token parsed)) \<le> 42 \<and> \<bar>pe_Amount parsed\<bar> < 10 ^ 65 \<and>
        bigint_fits (ch_RequiredConfirmations (cw_cfg w)))"

text \<open>The record of a log: everything but the id and the time of the insertion is given by the log, the order and the configuration.\<close>

definition record_of :: "'x chain_wiring \<Rightarrow> 'x chain_store_scheme \<Rightarrow> Log \<Rightarrow> OnchainTransaction \<Rightarrow> bool" where
  "record_of w s lg x \<longleftrightarrow> (\<exists>parsed row i. ParsePaymentEvent (cw_lib w) lg = Inr parsed \<and>
     order_row (cw_env w) (cw_router w) s (pe_OrderID parsed) row \<and>
     x\<lparr>x_ID := 0, x_CreatedAt := zero_time\<rparr> = observed_tx (cw_lib w) (cw_cfg w) lg parsed (row_txn i row))"

lemma recordable_fits: "recordable w s lg \<Longrightarrow> bigint_fits (lg_BlockNumber lg)"
  by (simp add: recordable_def split: sum.splits)

lemma order_row_tables: "tables s' = tables s \<Longrightarrow> order_row env r s' = order_row env r s"
  by (simp add: order_row_def fun_eq_iff)

lemma recordable_tables:
  assumes "tables s' = tables s"
  shows "recordable w s' lg = recordable w s lg" "record_of w s' lg x = record_of w s lg x"
  unfolding recordable_def record_of_def order_row_tables [OF assms] by (rule refl)+

lemma observed_tx_hash: "x_TxHash (observed_tx lib cfg lg parsed order) = el_HashHex lib (lg_TxHash lg)"
  by (simp add: observed_tx_def)

lemma recordable_steps:
  assumes good: "repo_good (cw_env w) (cw_router w) s" "arrivals_ok (cw_env w) (cw_router w)" and ok: "recordable w s lg"
    and new: "oview (cw_env w) s (el_HashHex (cw_lib w) (lg_TxHash lg)) = None"
  obtains parsed row i s3 x tx where "ParsePaymentEvent (cw_lib w) lg = Inr parsed"
    "GetByTxHash (cw_env w) (cw_router w) (el_HashHex (cw_lib w) (lg_TxHash lg)) s = (step_store s, Inl (Sentinel ErrOnchainTxNotFound))"
    "GetByOrderIDAny (cw_env w) (cw_router w) (pe_OrderID parsed) (step_store s) = (step_store (step_store s), Inr (row_txn i row))"
    "tx_Create (cw_env w) (cw_router w) (observed_tx (cw_lib w) (cw_cfg w) lg parsed (row_txn i row)) (step_store (step_store s)) = (s3, tx, Inr ())"
    "onchain s3 = onchain s @ [x]" "x_TxHash x = el_HashHex (cw_lib w) (lg_TxHash lg)" "record_of w s lg x"
proof -
  let ?env = "cw_env w" and ?r = "cw_router w" and ?s = "step_store s"
  have nf: "env_fault ?env n p = None" for n p
    using good by (simp add: repo_good_def healthy_def)
  have none: "\<not> (\<exists>x \<in> set (onchain s). env_coll ?env (x_TxHash x) (el_HashHex (cw_lib w) (lg_TxHash lg)))"
    using new by (auto simp: oview_def find_None_iff)
  have tab: "tables ?s = tables s"
    by (simp add: step_store_def)
  obtain parsed row where parsed: "ParsePaymentEvent (cw_lib w) lg = Inr parsed" "ValidateOrderID (pe_OrderID parsed) = Inr ()"
    "order_row ?env ?r s (pe_OrderID parsed) row"
    using ok by (auto simp: recordable_def split: sum.splits)
  have "repo_good ?env ?r ?s" "order_row ?env ?r ?s (pe_OrderID parsed) row"
    using good(1) parsed(3) tab order_row_tables [OF tab] by (simp_all add: repo_good_def txn_inv_def)
  from GetByOrderIDAny_known [OF this(1) good(2) this(2) parsed(2)]
  obtain row' i where any: "GetByOrderIDAny ?env ?r (pe_OrderID parsed) ?s = (step_store ?s, Inr (row_txn i row'))"
    and row': "order_row ?env ?r ?s (pe_OrderID parsed) row'" "row_ok row'"
    by metis
  let ?tx = "observed_tx (cw_lib w) (cw_cfg w) lg parsed (row_txn i row')"
  let ?x = "?tx\<lparr>x_ID := next_onchain_id (onchain s), x_CreatedAt := env_timestamp ?env (env_clock ?env (stmts (step_store ?s)))\<rparr>"
  have "onchain_fits ?tx"
    using ok parsed(1) row_txn_fields(1) [OF row'(2), of i] row'(2)
    by (simp add: recordable_def onchain_fits_def observed_tx_def bigint_fits_def row_ok_def row_fits_def)
  then have "tx_Create ?env ?r ?tx (step_store ?s) =
      (step_store ((step_store ?s)\<lparr>onchain := onchain s @ [?x]\<rparr>), ?tx\<lparr>x_ID := next_onchain_id (onchain s)\<rparr>, Inr ())"
    using none nf by (simp add: tx_Create_def Let_def observed_tx_hash) (simp add: observed_tx_def)
  moreover have "record_of w s lg ?x"
    using parsed(1) row'(1) order_row_tables [OF tab] by (auto simp: record_of_def observed_tx_def)
  ultimately show thesis
    using parsed(1) any new nf
    by (intro that [of parsed i row' "step_store ((step_store ?s)\<lparr>onchain := onchain s @ [?x]\<rparr>)" _ ?x])
      (simp_all add: GetByTxHash_def scanOnchainTx_def oview_def observed_tx_hash)
qed

lemma persist_recordable:
  assumes good: "repo_good (cw_env w) (cw_router w) s" "arrivals_ok (cw_env w) (cw_router w)" and ok: "coll_equiv (cw_env w)" "recordable w s lg"
    and new: "oview (cw_env w) s (el_HashHex (cw_lib w) (lg_TxHash lg)) = None"
  shows "\<exists>x. oview (cw_env w) (persist (li_Backfill (chain_listener w)) lg s) (el_HashHex (cw_lib w) (lg_TxHash lg)) = Some x \<and>
    record_of w s lg x"
proof (rule recordable_steps [OF good ok(2) new])
  fix parsed row i s3 x tx
  assume a: "ParsePaymentEvent (cw_lib w) lg = Inr parsed"
    "GetByTxHash (cw_env w) (cw_router w) (el_HashHex (cw_lib w) (lg_TxHash lg)) s = (step_store s, Inl (Sentinel ErrOnchainTxNotFound))"
    "GetByOrderIDAny (cw_env w) (cw_router w) (pe_OrderID parsed) (step_store s) = (step_store (step_store s), Inr (row_txn i row))"
    "tx_Create (cw_env w) (cw_router w) (observed_tx (cw_lib w) (cw_cfg w) lg parsed (row_txn i row)) (step_store (step_store s)) = (s3, tx, Inr ())"
    and x: "onchain s3 = onchain s @ [x]" "x_TxHash x = el_HashHex (cw_lib w) (lg_TxHash lg)" "record_of w s lg x"
  have "persist (li_Backfill (chain_listener w)) lg s = s3"
    using a by (simp add: persist_def NewTransactionRepository_def)
  with x new coll_equivD(1) [OF ok(1)] show ?thesis
    by (simp add: oview_def find_append)
qed

text \<open>The subscriber records such a log as the scanner does, and moves the cursor to its block.\<close>

lemma handleLog_recordable:
  assumes good: "repo_good (cw_env w) (cw_router w) s" "arrivals_ok (cw_env w) (cw_router w)" and ok: "recordable w s lg"
    and new: "oview (cw_env w) s (el_HashHex (cw_lib w) (lg_TxHash lg)) = None"
  shows "handleLog (li_Subscriber (chain_listener w)) lg s =
    (fst (cursor_Set (cw_env w) (cw_router w) (ch_ChainID (cw_cfg w)) (lg_BlockNumber lg) (persist (li_Backfill (chain_listener w)) lg s)), Inr ())"
  by (rule recordable_steps [OF good ok new]) (simp add: handleLog_def persist_def NewTransactionRepository_def)

text \<open>
  A node that has seen \<open>logs\<close> of the contract up to block \<open>head\<close>: it reports the head, and it answers a
  query for a range of blocks with the logs of that range.
\<close>

definition chain_answers :: "'x ChainClient \<Rightarrow> ChainConfig \<Rightarrow> uint64 \<Rightarrow> Log list \<Rightarrow> bool" where
  "chain_answers c cfg head logs \<longleftrightarrow> (\<forall>x. snd (cl_BlockNumber c x) = Inr head) \<and>
     (\<forall>x frm to. snd (cl_FilterLogs c (contract_query cfg (Some frm) (Some to)) x) =
        Inr (filter (\<lambda>lg. frm \<le> lg_BlockNumber lg \<and> lg_BlockNumber lg \<le> to) logs))"

text \<open>The record of a hash, if there is one, is the record of the log \<open>lg\<close>.\<close>

definition holds_only :: "'x chain_wiring \<Rightarrow> Log \<Rightarrow> 'x chain_store_scheme \<Rightarrow> bool" where
  "holds_only w lg s \<longleftrightarrow> (\<forall>x. oview (cw_env w) s (el_HashHex (cw_lib w) (lg_TxHash lg)) = Some x \<longrightarrow> record_of w s lg x)"

lemma holds_only_same: "onchain s' = onchain s \<Longrightarrow> tables s' = tables s \<Longrightarrow> holds_only w lg s' = holds_only w lg s"
  by (simp add: holds_only_def oview_def recordable_tables(2) [of s' s])

lemma persist_other:
  assumes "coll_equiv (cw_env w)" "\<not> env_coll (cw_env w) (el_HashHex (cw_lib w) (lg_TxHash lg)) h"
  shows "oview (cw_env w) (persist (li_Backfill (chain_listener w)) lg s) h = oview (cw_env w) s h"
proof -
  have on: "oview (cw_env w) s' h = oview (cw_env w) s h" if "onchain s' = onchain s" for s'
    by (rule fun_cong [OF oview_onchain [OF that]])
  have create: "oview (cw_env w) (fst (tx_Create (cw_env w) (cw_router w) (observed_tx (cw_lib w) (cw_cfg w) lg parsed order) s')) h =
      oview (cw_env w) s h" if "onchain s' = onchain s" for s' parsed order
    using oview_create_other [OF assms(1), of "observed_tx (cw_lib w) (cw_cfg w) lg parsed order" h "cw_router w" s'] assms(2) on [OF that]
    by (simp add: observed_tx_hash)
  have any: "onchain s2 = onchain s" if "GetByOrderIDAny (cw_env w) (cw_router w) oid (step_store s) = (s2, r2)" for oid s2 r2
    using txn_ops_onchain(1) [of "cw_env w" "cw_router w" oid "step_store s"] that by simp
  show ?thesis
    by (simp add: persist_def GetByTxHash_def NewTransactionRepository_def split: prod.split sum.split; intro allI impI conjI)
      (blast intro: on create any)+
qed

lemma persist_all:
  assumes "repo_good (cw_env w) (cw_router w) s" "arrivals_ok (cw_env w) (cw_router w)" "coll_equiv (cw_env w)"
    and uniq: "\<And>lg'. lg' \<in> set ls \<Longrightarrow> env_coll (cw_env w) (el_HashHex (cw_lib w) (lg_TxHash lg')) (el_HashHex (cw_lib w) (lg_TxHash lg)) \<Longrightarrow> lg' = lg"
    and "recordable w s lg" "holds_only w lg s"
  shows "holds_only w lg (fold (persist (li_Backfill (chain_listener w))) ls s) \<and>
    tables (fold (persist (li_Backfill (chain_listener w))) ls s) = tables s \<and>
    (lg \<in> set ls \<or> oview (cw_env w) s (el_HashHex (cw_lib w) (lg_TxHash lg)) \<noteq> None \<longrightarrow>
      oview (cw_env w) (fold (persist (li_Backfill (chain_listener w))) ls s) (el_HashHex (cw_lib w) (lg_TxHash lg)) \<noteq> None)"
  using assms
proof (induction ls arbitrary: s)
  case (Cons l ls)
  let ?h = "el_HashHex (cw_lib w) (lg_TxHash lg)" and ?s = "persist (li_Backfill (chain_listener w)) l s"
  have tab: "tables ?s = tables s"
    using ch_orders.kept_persist [of s w l] by (simp add: orders_kept_def)
  have kept: "oview (cw_env w) s ?h \<noteq> None \<longrightarrow> oview (cw_env w) ?s ?h = oview (cw_env w) s ?h"
    using ch_rec.kept_persist [of w ?h s l] by (simp add: rec_kept_def)
  have step: "oview (cw_env w) ?s ?h = oview (cw_env w) s ?h \<or>
      (oview (cw_env w) s ?h = None \<and> (\<exists>x. oview (cw_env w) ?s ?h = Some x \<and> record_of w s lg x))"
  proof (cases "l = lg \<and> oview (cw_env w) s ?h = None")
    case True
    then show ?thesis
      using persist_recordable [of w s lg] Cons.prems by simp
  next
    case False
    then show ?thesis
      using kept persist_other [of w l ?h s] Cons.prems by (metis list.set_intros(1))
  qed
  have rec: "l = lg \<longrightarrow> oview (cw_env w) ?s ?h \<noteq> None"
    using persist_recordable [of w s lg] Cons.prems kept by fastforce
  have only: "holds_only w lg ?s"
    using step Cons.prems(6) recordable_tables(2) [OF tab] by (auto simp: holds_only_def)
  have "repo_good (cw_env w) (cw_router w) ?s" "recordable w ?s lg"
    using Cons.prems(1,5) tab recordable_tables(1) [OF tab] by (simp_all add: repo_good_def txn_inv_def)
  from Cons.IH [OF this(1) Cons.prems(2,3) _ this(2) only] Cons.prems(4) tab kept rec show ?case
    by auto
qed simp

definition own_hash :: "'x chain_wiring \<Rightarrow> Log list \<Rightarrow> Log \<Rightarrow> bool" where
  "own_hash w logs lg \<longleftrightarrow> (\<forall>lg' \<in> set logs. env_coll (cw_env w) (el_HashHex (cw_lib w) (lg_TxHash lg')) (el_HashHex (cw_lib w) (lg_TxHash lg)) \<longrightarrow> lg' = lg)"

text \<open>The log \<open>lg\<close> is recorded if its block is among \<open>B\<close>, and stays recorded if it was.\<close>

definition covered :: "'x chain_wiring \<Rightarrow> Log list \<Rightarrow> Log \<Rightarrow> uint64 set \<Rightarrow> 'x chain_store_scheme \<Rightarrow> 'x chain_store_scheme \<Rightarrow> bool" where
  "covered w logs lg B s s' \<longleftrightarrow> tables s' = tables s \<and> holds_only w lg s' \<and>
     (lg \<in> set logs \<and> lg_BlockNumber lg \<in> B \<or> oview (cw_env w) s (el_HashHex (cw_lib w) (lg_TxHash lg)) \<noteq> None \<longrightarrow>
       oview (cw_env w) s' (el_HashHex (cw_lib w) (lg_TxHash lg)) \<noteq> None)"

lemma covered_trans: "covered w logs lg A s t \<Longrightarrow> covered w logs lg B t u \<Longrightarrow> C \<subseteq> A \<union> B \<Longrightarrow> covered w logs lg C s u"
  by (auto simp: covered_def)

lemma covered_refl: "holds_only w lg s \<Longrightarrow> covered w logs lg {} s s"
  by (simp add: covered_def)

text \<open>One batch on a healthy database: the logs of the range are recorded and the cursor moves to its end.\<close>

definition scan_batch :: "'x chain_wiring \<Rightarrow> uint64 \<Rightarrow> uint64 \<Rightarrow> Log list \<Rightarrow> 'x chain_store_scheme \<Rightarrow> 'x chain_store_scheme" where
  "scan_batch w frm to logs s1 = fst (cursor_Set (cw_env w) (cw_router w) (ch_ChainID (cw_cfg w)) to
     (fold (persist (li_Backfill (chain_listener w))) (filter (\<lambda>lg. frm \<le> lg_BlockNumber lg \<and> lg_BlockNumber lg \<le> to) logs) s1))"

lemma scan_loop_batch:
  assumes "chain_answers (cw_client w) (cw_cfg w) head logs" "frm < head"
    "s1 = fst (cl_FilterLogs (lift_chain (cw_client w)) (contract_query (cw_cfg w) (Some frm) (Some (batch_end (li_Backfill (chain_listener w)) frm head))) s)"
  shows "scan_loop (li_Backfill (chain_listener w)) frm head s =
    scan_loop (li_Backfill (chain_listener w)) (batch_end (li_Backfill (chain_listener w)) frm head) head
      (scan_batch w frm (batch_end (li_Backfill (chain_listener w)) frm head) logs s1)"
proof -
  let ?to = "batch_end (li_Backfill (chain_listener w)) frm head"
  have "cl_FilterLogs (lift_chain (cw_client w)) (contract_query (cw_cfg w) (Some frm) (Some ?to)) s =
      (s1, Inr (filter (\<lambda>lg. frm \<le> lg_BlockNumber lg \<and> lg_BlockNumber lg \<le> ?to) logs))"
    using assms(1,3) by (simp add: prod_eq_iff chain_answers_def)
  then show ?thesis
    by (subst scan_loop.simps) (simp only: assms(2) not_True_eq_False if_False prod.case sum.case scan_batch_def chain_listener_simps chain_repo_simps)
qed

lemma batch_complete:
  assumes good: "repo_good (cw_env w) (cw_router w) s" "arrivals_ok (cw_env w) (cw_router w)" "coll_equiv (cw_env w)"
    and to: "bigint_fits to" and lg: "recordable w s lg" "own_hash w logs lg" "holds_only w lg s"
  shows "covered w logs lg {frm..to} s (scan_batch w frm to logs s)" "cursors (scan_batch w frm to logs s) (ch_ChainID (cw_cfg w)) = Some to"
proof -
  let ?ls = "filter (\<lambda>lg. frm \<le> lg_BlockNumber lg \<and> lg_BlockNumber lg \<le> to) logs"
  let ?f = "fold (persist (li_Backfill (chain_listener w))) ?ls s"
  have f: "holds_only w lg ?f" "tables ?f = tables s"
    "lg \<in> set ?ls \<or> oview (cw_env w) s (el_HashHex (cw_lib w) (lg_TxHash lg)) \<noteq> None \<longrightarrow>
      oview (cw_env w) ?f (el_HashHex (cw_lib w) (lg_TxHash lg)) \<noteq> None"
    using persist_all [OF good _ lg(1,3), of ?ls] lg(2) by (auto simp: own_hash_def)
  have c: "onchain (scan_batch w frm to logs s) = onchain ?f" "tables (scan_batch w frm to logs s) = tables ?f"
    by (simp_all add: scan_batch_def)
  show "covered w logs lg {frm..to} s (scan_batch w frm to logs s)"
    using f c holds_only_same [OF c] oview_onchain [OF c(1)] by (simp add: covered_def)
  show "cursors (scan_batch w frm to logs s) (ch_ChainID (cw_cfg w)) = Some to"
    using good(1) to by (simp add: scan_batch_def cursor_Set_def repo_good_def healthy_def)
qed

lemma scan_complete:
  assumes env: "healthy (cw_env w)" "wf_router (cw_router w)" "arrivals_ok (cw_env w) (cw_router w)" "coll_equiv (cw_env w)"
    and chain: "chain_answers (cw_client w) (cw_cfg w) head logs" and head: "bigint_fits head"
    and lg: "own_hash w logs lg"
  shows "txn_inv s \<longrightarrow> recordable w s lg \<longrightarrow> holds_only w lg s \<longrightarrow>
    (\<exists>s'. scan_loop (li_Backfill (chain_listener w)) frm head s = Some (s', Inr ()) \<and>
      covered w logs lg (if frm < head then {frm..head} else {}) s s' \<and>
      (frm < head \<longrightarrow> cursors s' (ch_ChainID (cw_cfg w)) = Some head) \<and> (\<not> frm < head \<longrightarrow> s' = s))"
proof -
  let ?b = "li_Backfill (chain_listener w)"
  have b: "0 < bf_BatchSize ?b" "unat head + unat (bf_BatchSize ?b) < 2 ^ 64"
    using head by (simp_all add: bigint_fits_def)
  show ?thesis
    using b
  proof (induction frm s rule: scan_induct)
    case (step frm s)
    show ?case
    proof (cases "frm < head")
      case True
      let ?to = "batch_end ?b frm head"
      define s1 where "s1 = fst (cl_FilterLogs (lift_chain (cw_client w)) (contract_query (cw_cfg w) (Some frm) (Some ?to)) s)"
      have s1: "onchain s1 = onchain s" "tables s1 = tables s"
        by (simp_all add: s1_def)
      have to: "frm < ?to" "?to \<le> head" "bigint_fits ?to"
        using batch_end_progress [OF True b] head by (auto simp: bigint_fits_def word_le_nat_alt)
      show ?thesis
      proof (intro impI)
        assume s: "txn_inv s" "recordable w s lg" "holds_only w lg s"
        then have s1': "repo_good (cw_env w) (cw_router w) s1" "recordable w s1 lg" "holds_only w lg s1"
          using env s1 recordable_tables(1) [OF s1(2)] holds_only_same [OF s1] by (simp_all add: repo_good_def txn_inv_def)
        let ?s2 = "scan_batch w frm ?to logs s1"
        note s2 = batch_complete [OF s1'(1) env(3,4) to(3) s1'(2) lg s1'(3), of frm]
        have t2: "tables ?s2 = tables s1" "holds_only w lg ?s2"
          using s2(1) by (simp_all add: covered_def)
        have "txn_inv ?s2" "recordable w ?s2 lg"
          using s s1(2) t2 recordable_tables(1) [of ?s2 s1] s1'(2) by (simp_all add: txn_inv_def)
        with step(1) [OF True, of ?s2] t2(2) obtain s' where
          s': "scan_loop ?b ?to head ?s2 = Some (s', Inr ())" "covered w logs lg (if ?to < head then {?to..head} else {}) ?s2 s'"
            "?to < head \<longrightarrow> cursors s' (ch_ChainID (cw_cfg w)) = Some head" "\<not> ?to < head \<longrightarrow> s' = ?s2"
          by blast
        have "covered w logs lg {frm..head} s1 s'"
          using to(2) by (intro covered_trans [OF s2(1) s'(2)]) (auto simp: not_le)
        then have "covered w logs lg {frm..head} s s'"
          using s1 oview_onchain [OF s1(1)] by (simp add: covered_def)
        moreover have "cursors s' (ch_ChainID (cw_cfg w)) = Some head"
          using s'(3,4) s2(2) to(2) by (cases "?to < head") auto
        ultimately show "\<exists>s'. scan_loop ?b frm head s = Some (s', Inr ()) \<and>
            covered w logs lg (if frm < head then {frm..head} else {}) s s' \<and>
            (frm < head \<longrightarrow> cursors s' (ch_ChainID (cw_cfg w)) = Some head) \<and> (\<not> frm < head \<longrightarrow> s' = s)"
          using scan_loop_batch [OF chain True s1_def] s'(1) True by simp
      qed
    qed (simp add: scan_loop.simps covered_refl)
  qed
qed

text \<open>Where the scan starts.\<close>

definition scan_start :: "ChainConfig \<Rightarrow> 'a chain_store_scheme \<Rightarrow> uint64" where
  "scan_start cfg s = (case cursors s (ch_ChainID cfg) of None \<Rightarrow> ch_StartBlock cfg
     | Some c \<Rightarrow> if c = 0 then ch_StartBlock cfg else c)"

lemma backfill_tick_scan:
  assumes "healthy (cw_env w)" "chain_answers (cw_client w) (cw_cfg w) head logs" "scan_start (cw_cfg w) s < head"
  obtains s1 where "backfill_tick (li_Backfill (chain_listener w)) s = scan_loop (li_Backfill (chain_listener w)) (scan_start (cw_cfg w) s) head s1"
    "onchain s1 = onchain s" "tables s1 = tables s" "cursors s1 = cursors s"
proof -
  define s1 where "s1 = fst (cl_BlockNumber (lift_chain (cw_client w)) (step_store s))"
  have "cl_BlockNumber (lift_chain (cw_client w)) (step_store s) = (s1, Inr head)"
    using assms(2) by (simp add: s1_def prod_eq_iff chain_answers_def)
  moreover have "cursor_Get (cw_env w) (cw_router w) (ch_ChainID (cw_cfg w)) s =
      (step_store s, Inr (case cursors s (ch_ChainID (cw_cfg w)) of None \<Rightarrow> 0 | Some v \<Rightarrow> v))"
    using assms(1) by (simp add: cursor_Get_def healthy_def split: option.split)
  moreover have "(if (case cursors s (ch_ChainID (cw_cfg w)) of None \<Rightarrow> 0 | Some v \<Rightarrow> v) = 0 then ch_StartBlock (cw_cfg w)
      else case cursors s (ch_ChainID (cw_cfg w)) of None \<Rightarrow> 0 | Some v \<Rightarrow> v) = scan_start (cw_cfg w) s"
    by (simp add: scan_start_def split: option.split)
  ultimately have "backfill_tick (li_Backfill (chain_listener w)) s =
      (if head \<le> scan_start (cw_cfg w) s then Some (s1, Inr ()) else scan_loop (li_Backfill (chain_listener w)) (scan_start (cw_cfg w) s) head s1)"
    by (simp only: backfill_tick_def chain_listener_simps chain_repo_simps prod.case sum.case Let_def)
  with assms(3) show thesis
    by (intro that [of s1]) (auto simp: s1_def step_store_def)
qed

text \<open>C20. A pass of the backfill scanner on a healthy database and a node that answers range queries leaves
  no gap: it ends without an error, the cursor is the head of the chain, and every log between the
  old cursor (or the start block) and the head that was not recorded, whose order is known, whose
  fields fit the table and whose transaction has no other log now has its record, with the amount,
  the payer, the token and the order id the event carries.\<close>

theorem backfill_complete:
  assumes "repo_good (cw_env w) (cw_router w) s" "arrivals_ok (cw_env w) (cw_router w)" "coll_equiv (cw_env w)"
    and "chain_answers (cw_client w) (cw_cfg w) head logs" "bigint_fits head" "scan_start (cw_cfg w) s < head"
    and "lg \<in> set logs" "scan_start (cw_cfg w) s \<le> lg_BlockNumber lg" "lg_BlockNumber lg \<le> head"
    and "recordable w s lg" "own_hash w logs lg" "oview (cw_env w) s (el_HashHex (cw_lib w) (lg_TxHash lg)) = None"
  shows "\<exists>s' x. backfill_tick (li_Backfill (chain_listener w)) s = Some (s', Inr ()) \<and>
    cursors s' (ch_ChainID (cw_cfg w)) = Some head \<and>
    oview (cw_env w) s' (el_HashHex (cw_lib w) (lg_TxHash lg)) = Some x \<and> record_of w s lg x"
proof -
  have env: "healthy (cw_env w)" "wf_router (cw_router w)" "txn_inv s"
    using assms(1) by (simp_all add: repo_good_def)
  obtain s1 where s1: "backfill_tick (li_Backfill (chain_listener w)) s =
      scan_loop (li_Backfill (chain_listener w)) (scan_start (cw_cfg w) s) head s1"
    "onchain s1 = onchain s" "tables s1 = tables s"
    by (rule backfill_tick_scan [OF env(1) assms(4,6)])
  have "txn_inv s1" "recordable w s1 lg" "holds_only w lg s1"
    using env(3) s1(3) assms(10,12) recordable_tables(1) [OF s1(3)] oview_onchain [OF s1(2)] by (simp_all add: txn_inv_def holds_only_def)
  with scan_complete [OF env(1,2) assms(2-5,11), of s1 "scan_start (cw_cfg w) s"] assms(6) obtain s' where
    s': "scan_loop (li_Backfill (chain_listener w)) (scan_start (cw_cfg w) s) head s1 = Some (s', Inr ())"
      "covered w logs lg {scan_start (cw_cfg w) s..head} s1 s'" "cursors s' (ch_ChainID (cw_cfg w)) = Some head"
    by auto
  then obtain x where "oview (cw_env w) s' (el_HashHex (cw_lib w) (lg_TxHash lg)) = Some x" "record_of w s' lg x"
    using assms(7-9) by (auto simp: covered_def holds_only_def)
  moreover have "tables s' = tables s"
    using s'(2) s1(3) by (simp add: covered_def)
  ultimately show ?thesis
    using s1(1) s' recordable_tables(2) [of s' s] by auto
qed

section \<open>Logs the scan never sees\<close>

text \<open>A log below the cursor that is not recorded.\<close>

definition missed :: "'x chain_wiring \<Rightarrow> Log \<Rightarrow> 'x chain_store_scheme \<Rightarrow> bool" where
  "missed w lg s \<longleftrightarrow> oview (cw_env w) s (el_HashHex (cw_lib w) (lg_TxHash lg)) = None \<and>
     (\<exists>c. cursors s (ch_ChainID (cw_cfg w)) = Some c \<and> lg_BlockNumber lg < c)"

lemma missed_same: "onchain s' = onchain s \<Longrightarrow> cursors s' = cursors s \<Longrightarrow> missed w lg s' = missed w lg s"
  by (simp add: missed_def oview_def)

lemma cursors_kept [simp]:
  "cursors (fst (GetByTxHash env r h s)) = cursors s" "cursors (fst (tx_Create env r tx s)) = cursors s"
  "cursors (fst (GetByOrderIDAny env r oid s)) = cursors s" "cursors (fst (cursor_Get env r cid s)) = cursors s"
  by (simp_all add: GetByTxHash_def tx_Create_def GetByOrderIDAny_def scatterFirst_def cursor_Get_def Let_def step_store_def
      split: option.split sum.split)

lemma persist_cursors: "cursors (persist (li_Backfill (chain_listener w)) lg s) = cursors s"
proof -
  have "cursors s2 = cursors s" if "GetByOrderIDAny (cw_env w) (cw_router w) oid (step_store s) = (s2, r2)" for oid s2 r2
    using cursors_kept(3) [of "cw_env w" "cw_router w" oid "step_store s"] that by simp
  then show ?thesis
    by (simp add: persist_def GetByTxHash_def NewTransactionRepository_def split: prod.split sum.split)
qed

lemma fold_persist_missed:
  assumes "coll_equiv (cw_env w)" "missed w lg s"
    "\<And>l. l \<in> set ls \<Longrightarrow> \<not> env_coll (cw_env w) (el_HashHex (cw_lib w) (lg_TxHash l)) (el_HashHex (cw_lib w) (lg_TxHash lg))"
  shows "missed w lg (fold (persist (li_Backfill (chain_listener w))) ls s)"
  using assms(2,3)
proof (induction ls arbitrary: s)
  case (Cons l ls)
  have "missed w lg (persist (li_Backfill (chain_listener w)) l s)"
    using persist_other [OF assms(1), of l] Cons.prems by (simp add: missed_def persist_cursors)
  with Cons show ?case
    by simp
qed simp

lemma scan_missed:
  assumes env: "coll_equiv (cw_env w)" and chain: "chain_answers (cw_client w) (cw_cfg w) head logs"
    and head: "bigint_fits head" and lg: "own_hash w logs lg"
  shows "missed w lg s \<longrightarrow> lg_BlockNumber lg < frm \<longrightarrow>
    (\<forall>y. scan_loop (li_Backfill (chain_listener w)) frm head s = Some y \<longrightarrow> missed w lg (fst y))"
proof -
  let ?b = "li_Backfill (chain_listener w)"
  have b: "0 < bf_BatchSize ?b" "unat head + unat (bf_BatchSize ?b) < 2 ^ 64"
    using head by (simp_all add: bigint_fits_def)
  show ?thesis
    using b
  proof (induction frm s rule: scan_induct)
    case (step frm s)
    show ?case
    proof (cases "frm < head")
      case True
      let ?to = "batch_end ?b frm head"
      let ?ls = "filter (\<lambda>lg. frm \<le> lg_BlockNumber lg \<and> lg_BlockNumber lg \<le> ?to) logs"
      define s1 where "s1 = fst (cl_FilterLogs (lift_chain (cw_client w)) (contract_query (cw_cfg w) (Some frm) (Some ?to)) s)"
      show ?thesis
      proof (intro impI)
        assume s: "missed w lg s" "lg_BlockNumber lg < frm"
        have "missed w lg s1"
          using s(1) missed_same [of s1 s] by (simp add: s1_def)
        moreover have "\<not> env_coll (cw_env w) (el_HashHex (cw_lib w) (lg_TxHash l)) (el_HashHex (cw_lib w) (lg_TxHash lg))"
          if "l \<in> set ?ls" for l
          using lg s(2) that by (auto simp: own_hash_def)
        ultimately have "missed w lg (fold (persist ?b) ?ls s1)"
          by (rule fold_persist_missed [OF env])
        moreover have to: "lg_BlockNumber lg < ?to"
          using batch_end_progress(1) [OF True b] s(2) by simp
        ultimately have "missed w lg (scan_batch w frm ?to logs s1)"
          by (auto simp: scan_batch_def missed_def cursor_Set_def oview_def split: option.split)
        then show "\<forall>y. scan_loop ?b frm head s = Some y \<longrightarrow> missed w lg (fst y)"
          using step [OF True] to scan_loop_batch [OF chain True s1_def] by simp
      qed
    qed (simp add: scan_loop.simps)
  qed
qed

lemma backfill_missed:
  assumes env: "coll_equiv (cw_env w)" and chain: "chain_answers (cw_client w) (cw_cfg w) head logs"
    and head: "bigint_fits head" and lg: "own_hash w logs lg" "missed w lg s"
    and run: "backfill_tick (li_Backfill (chain_listener w)) s = Some y"
  shows "missed w lg (fst y)"
proof -
  let ?b = "li_Backfill (chain_listener w)"
  obtain c where c: "cursors s (ch_ChainID (cw_cfg w)) = Some c" "lg_BlockNumber lg < c"
    using lg(2) by (auto simp: missed_def)
  define s2 where "s2 = fst (cl_BlockNumber (lift_chain (cw_client w)) (step_store s))"
  have bn: "cl_BlockNumber (lift_chain (cw_client w)) (step_store s) = (s2, Inr head)"
    using chain by (simp add: s2_def prod_eq_iff chain_answers_def)
  have m: "missed w lg (step_store s)" "missed w lg s2"
    using lg(2) missed_same [of "step_store s" s] missed_same [of s2 s] by (simp_all add: s2_def)
  show ?thesis
  proof (cases "env_fault (cw_env w) (stmts s) (router_Control (cw_router w))")
    case None
    then have "cursor_Get (cw_env w) (cw_router w) (ch_ChainID (cw_cfg w)) s = (step_store s, Inr c)"
      using c(1) by (simp add: cursor_Get_def)
    moreover have "c \<noteq> 0"
      using c(2) by auto
    ultimately have "backfill_tick ?b s = (if head \<le> c then Some (s2, Inr ()) else scan_loop ?b c head s2)"
      using bn by (simp only: backfill_tick_def chain_listener_simps chain_repo_simps prod.case sum.case Let_def if_False)
    with run m(2) scan_missed [OF env chain head lg(1), of s2 c] c(2) show ?thesis
      by (cases y) (auto split: if_splits)
  next
    case (Some e)
    with run m(1) show ?thesis
      by (auto simp: backfill_tick_def cursor_Get_def)
  qed
qed

text \<open>C22. The cursor of the subscriber can hide a payment from the backfill scanner. If the subscriber takes
  a new log of block \<open>n\<close> while an earlier log, of a block below \<open>n\<close>, has not been recorded (its
  connection was down when that log was emitted), then the cursor jumps to \<open>n\<close> and no number of
  later backfill passes records the earlier log, on any database and any node that answers range
  queries.\<close>

theorem subscriber_skips_missed:
  assumes "repo_good (cw_env w) (cw_router w) s" "arrivals_ok (cw_env w) (cw_router w)" "coll_equiv (cw_env w)"
    and "chain_answers (cw_client w) (cw_cfg w) head logs" "bigint_fits head"
    and "recordable w s new" "oview (cw_env w) s (el_HashHex (cw_lib w) (lg_TxHash new)) = None"
    and "own_hash w logs old" "new \<in> set logs" "lg_BlockNumber old < lg_BlockNumber new"
    and "oview (cw_env w) s (el_HashHex (cw_lib w) (lg_TxHash old)) = None"
    and "listener_run (chain_listener w) (TurnLog new # replicate k TurnBackfill) s = Some s'"
  shows "oview (cw_env w) s' (el_HashHex (cw_lib w) (lg_TxHash old)) = None"
proof -
  have step: "missed w old s'" if "missed w old s1" "listener_run (chain_listener w) (replicate k TurnBackfill) s1 = Some s'" for s1
    using that
  proof (induction k arbitrary: s1)
    case (Suc k)
    then show ?case
      using backfill_missed [OF assms(3-5,8) Suc.prems(1)] by (fastforce split: option.splits)
  qed simp
  have "\<not> env_coll (cw_env w) (el_HashHex (cw_lib w) (lg_TxHash new)) (el_HashHex (cw_lib w) (lg_TxHash old))"
    using assms(8-10) by (auto simp: own_hash_def)
  then have "missed w old (fst (handleLog (li_Subscriber (chain_listener w)) new s))"
    using handleLog_recordable [OF assms(1,2,6,7)] persist_other [OF assms(3), of new _ s] recordable_fits [OF assms(6)] assms(1,10,11)
    by (simp add: missed_def cursor_Set_def repo_good_def healthy_def oview_def)
  with step assms(12) have "missed w old s'"
    by simp
  then show ?thesis
    by (simp add: missed_def)
qed

section \<open>What a confirmation does to the order\<close>

lemma orders_of_receipt [simp]:
  "tables (fst (cl_TransactionReceipt (lift_chain c) h s)) = tables s"
  "snd (cl_TransactionReceipt (lift_chain c) h s) = snd (cl_TransactionReceipt c h (chain_store.more s))"
  by (simp_all add: lift_port_chain)

text \<open>The global lookup depends on the tables and the statement counter only.\<close>

lemma GetByOrderIDAny_cong: "tables s1 = tables s \<Longrightarrow> stmts s1 = stmts s \<Longrightarrow> snd (GetByOrderIDAny env r oid s1) = snd (GetByOrderIDAny env r oid s)"
  by (simp add: GetByOrderIDAny_def scatterFirst_def query_row_def Let_def cong: option.case_cong split: sum.split)

text \<open>The condition under which the tracker pays an order.\<close>

definition crypto_payable :: "'x chain_wiring \<Rightarrow> uint64 \<Rightarrow> OnchainTransaction \<Rightarrow> Transaction \<Rightarrow> 'x chain_store_scheme \<Rightarrow> bool" where
  "crypto_payable w latest p order s \<longleftrightarrow>
     snd (cl_TransactionReceipt (cw_client w) (el_HexToHash (cw_lib w) (x_TxHash p)) (chain_store.more s)) = Inr (Some 1) \<and>
     x_BlockNumber p \<le> latest \<and> x_RequiredConfirm p \<le> latest - x_BlockNumber p \<and>
     snd (GetByOrderIDAny (cw_env w) (cw_router w) (x_OrderID p) s) = Inr order \<and>
     t_Status order \<noteq> TransactionStatusPaid \<and> t_Status order \<noteq> TransactionStatusRefunded \<and>
     map_option big_Int64 (x_Amount p) = Some (t_Amount order)"

lemma processOne_payable:
  assumes "crypto_payable w latest p order s"
  obtains s2 where "processOne (li_Confirmation (chain_listener w)) latest p s =
      confirm_order (li_Confirmation (chain_listener w)) p (latest - x_BlockNumber p) order s2"
    "tables s2 = tables s" "onchain s2 = onchain s" "topic s2 = topic s" "writes s2 = writes s"
proof -
  let ?h = "el_HexToHash (cw_lib w) (x_TxHash p)"
  define s1 where "s1 = fst (cl_TransactionReceipt (lift_chain (cw_client w)) ?h s)"
  have s1: "tables s1 = tables s" "stmts s1 = stmts s" "onchain s1 = onchain s" "topic s1 = topic s" "writes s1 = writes s"
    by (simp_all add: s1_def)
  have 1: "cl_TransactionReceipt (lift_chain (cw_client w)) ?h s = (s1, Inr (Some 1))"
    using assms by (simp add: prod_eq_iff s1_def crypto_payable_def)
  define s2 where "s2 = fst (GetByOrderIDAny (cw_env w) (cw_router w) (x_OrderID p) s1)"
  have s2: "tables s2 = tables s1" "onchain s2 = onchain s1" "topic s2 = topic s1" "writes s2 = writes s1"
    by (simp_all add: s2_def) (simp add: GetByOrderIDAny_def scatterFirst_def Let_def split: sum.split)
  have 2: "GetByOrderIDAny (cw_env w) (cw_router w) (x_OrderID p) s1 = (s2, Inr order)"
    using assms GetByOrderIDAny_cong [OF s1(1,2)] by (simp add: prod_eq_iff s2_def crypto_payable_def)
  have "processOne (li_Confirmation (chain_listener w)) latest p s =
      confirm_order (li_Confirmation (chain_listener w)) p (latest - x_BlockNumber p) order s2"
    using assms 1 2
    by (auto simp: processOne_def crypto_payable_def Let_def NewTransactionRepository_def not_less simp del: lift_chain_simps)
  then show thesis
    using s1 s2 by (intro that [of s2]) simp_all
qed

lemma processOne_unpayable:
  assumes "\<nexists>order. crypto_payable w latest p order s"
  shows "tables (processOne (li_Confirmation (chain_listener w)) latest p s) = tables s \<and>
    topic (processOne (li_Confirmation (chain_listener w)) latest p s) = topic s"
proof -
  let ?h = "el_HexToHash (cw_lib w) (x_TxHash p)" and ?t = "li_Confirmation (chain_listener w)"
  obtain s1 r1 where 1: "cl_TransactionReceipt (lift_chain (cw_client w)) ?h s = (s1, r1)"
    by fastforce
  have s1: "tables s1 = tables s" "stmts s1 = stmts s" "topic s1 = topic s" "r1 = snd (cl_TransactionReceipt (cw_client w) ?h (chain_store.more s))"
    using 1 lift_port_chain [of "cl_TransactionReceipt (cw_client w) ?h" s] by simp_all
  obtain s2 r2 where 2: "GetByOrderIDAny (cw_env w) (cw_router w) (x_OrderID p) s1 = (s2, r2)"
    by fastforce
  have s2: "tables s2 = tables s1" "topic s2 = topic s1" "r2 = snd (GetByOrderIDAny (cw_env w) (cw_router w) (x_OrderID p) s)"
    using 2 chain_ops_orders(13,14) [of "cw_env w" "cw_router w" "x_OrderID p" s1]
      GetByOrderIDAny_cong [OF s1(1,2), of "cw_env w" "cw_router w" "x_OrderID p"] by simp_all
  have "\<not> (t_Status order \<noteq> TransactionStatusPaid \<and> t_Status order \<noteq> TransactionStatusRefunded \<and>
      x_Amount p \<noteq> None \<and> map_option big_Int64 (x_Amount p) = Some (t_Amount order))"
    if "r1 = Inr (Some 1)" "\<not> latest < x_BlockNumber p" "\<not> latest - x_BlockNumber p < x_RequiredConfirm p" "r2 = Inr order" for order
    using assms that s1(4) s2(3) by (auto simp: crypto_payable_def not_less)
  then show ?thesis
    using 1 2 s1 s2 by (auto simp: processOne_def Let_def NewTransactionRepository_def simp del: lift_chain_simps split: sum.split option.split)
qed

lemma confirm_order_effect:
  assumes "tables (confirm_order (li_Confirmation (chain_listener w)) p n order s) \<noteq> tables s"
  shows "\<exists>x. oview (cw_env w) (confirm_order (li_Confirmation (chain_listener w)) p n order s) (x_TxHash p) = Some x \<and>
    x_Status x = OnchainTxStatusConfirmed"
proof -
  let ?t = "li_Confirmation (chain_listener w)"
  obtain s1 r1 where 1: "UpdateConfirmations (cw_env w) (cw_router w) (x_TxHash p) n OnchainTxStatusConfirmed s = (s1, r1)"
    by fastforce
  obtain s2 r2 where 2: "UpdateStatus (cw_env w) (cw_router w) (t_ShardIndex order) (t_MerchantID order) (t_OrderID order)
      TransactionStatusPaid [] s1 = (s2, r2)"
    by fastforce
  have t1: "tables s1 = tables s" and on2: "onchain s2 = onchain s1"
    using 1 2 chain_ops_orders(11) [of "cw_env w" "cw_router w" "x_TxHash p" n OnchainTxStatusConfirmed s]
      txn_ops_onchain(2) [of "cw_env w" "cw_router w" "t_ShardIndex order" "t_MerchantID order" "t_OrderID order" TransactionStatusPaid "[]" s1]
    by simp_all
  have "r1 = Inr ()"
    using assms 1 t1 by (cases r1) (auto simp: confirm_order_def)
  then have on1: "onchain s1 = map (mark_row (cw_env w) (x_TxHash p) n OnchainTxStatusConfirmed) (onchain s)"
    and hit: "\<exists>x \<in> set (onchain s). env_coll (cw_env w) (x_TxHash x) (x_TxHash p)"
    using 1 by (auto simp: UpdateConfirmations_def split: option.splits if_splits)
  have "onchain (confirm_order ?t p n order s) = onchain s1"
    using 1 2 \<open>r1 = Inr ()\<close> on2 by (simp add: confirm_order_def NewTransactionRepository_def split: sum.split)
  then have "oview (cw_env w) (confirm_order ?t p n order s) (x_TxHash p) =
      map_option (mark_row (cw_env w) (x_TxHash p) n OnchainTxStatusConfirmed) (oview (cw_env w) s (x_TxHash p))"
    by (simp add: oview_def on1 find_map_same)
  moreover obtain x where "oview (cw_env w) s (x_TxHash p) = Some x" "env_coll (cw_env w) (x_TxHash x) (x_TxHash p)"
    using hit by (cases "oview (cw_env w) s (x_TxHash p)") (auto simp: oview_def find_None_iff find_Some_iff)
  ultimately show ?thesis
    by (simp add: mark_row_def)
qed

text \<open>C18. The tracker changes an order only for a settled payment, whichever statements and calls fail: if
  processing a payment changes any transaction row, then the node holds a successful receipt for it,
  its block is as deep as required, the order was neither paid nor refunded, the low 64 bits of the
  amount on the chain are the amount of the order, and the payment is now on record as confirmed, so
  that it cannot pay again.\<close>

theorem crypto_pays_only:
  assumes "tables (processOne (li_Confirmation (chain_listener w)) latest p s) \<noteq> tables s"
  shows "(\<exists>order. crypto_payable w latest p order s) \<and>
    (\<exists>x. oview (cw_env w) (processOne (li_Confirmation (chain_listener w)) latest p s) (x_TxHash p) = Some x \<and>
       x_Status x = OnchainTxStatusConfirmed)"
proof -
  from assms processOne_unpayable [of w latest p s] obtain order where order: "crypto_payable w latest p order s"
    by blast
  then obtain s2 where "processOne (li_Confirmation (chain_listener w)) latest p s =
      confirm_order (li_Confirmation (chain_listener w)) p (latest - x_BlockNumber p) order s2" "tables s2 = tables s"
    by (rule processOne_payable)
  with assms order confirm_order_effect [of w p "latest - x_BlockNumber p" order s2] show ?thesis
    by auto
qed

lemma mark_recorded:
  assumes "healthy env" "onchain_inv env s" "oview env s h = Some x" "bigint_fits n"
    "st \<in> {OnchainTxStatusPending, OnchainTxStatusConfirmed, OnchainTxStatusFailed, OnchainTxStatusReorged}"
  obtains s' where "UpdateConfirmations env r h n st s = (s', Inr ())" "tables s' = tables s" "topic s' = topic s" "writes s' = writes s"
    "oview env s' h = Some (x\<lparr>x_Confirmations := n, x_Status := st\<rparr>)"
proof -
  have x: "x \<in> set (onchain s)" "env_coll env (x_TxHash x) h"
    using oview_SomeD [OF assms(3)] by simp_all
  let ?s = "step_store (s\<lparr>onchain := map (mark_row env h n st) (onchain s)\<rparr>)"
  have "list_all (\<lambda>x. onchain_fits (mark_row env h n st x)) (filter (\<lambda>x. env_coll env (x_TxHash x) h) (onchain s))"
    using assms(2,4,5) by (auto simp: onchain_inv_def list_all_iff mark_row_def onchain_fits_def)
  then have "UpdateConfirmations env r h n st s = (?s, Inr ())"
    using assms(1) x by (auto simp: UpdateConfirmations_def healthy_def)
  moreover have "oview env ?s h = Some (x\<lparr>x_Confirmations := n, x_Status := st\<rparr>)"
    using assms(3) x(2) by (simp add: oview_def find_map_same mark_row_def)
  ultimately show thesis
    by (intro that [of ?s]) (simp_all add: step_store_def)
qed

lemma GetByOrderIDAny_stored:
  assumes "repo_good env r s" "arrivals_ok env r" "snd (GetByOrderIDAny env r oid s) = Inr t"
  shows "router_known r (t_ShardIndex t) \<and> valid_order_id (t_OrderID t) \<and> txn_view r s (t_ShardIndex t) (t_TransactionID t) = Some t"
proof -
  have a: "wf_router r" "txn_inv s" "\<forall>n p e. env_fault env n p = Some e \<longrightarrow> \<not> errors_Is e ErrNotFound"
    "mset (env_arrival env (stmts s)) = mset [0..<length (router_All r)]"
    using assms by (auto simp: repo_good_def healthy_def arrivals_ok_def)
  show ?thesis
  proof (cases rule: scatterFirst_cases [OF a, of "\<lambda>row. env_coll env (row_order_id row) oid", case_names hit miss])
    case (hit p row)
    then have "t = row_txn (physicalToFirstLogical r (length (router_All r)) ! p) row"
      using assms(3) by (auto simp: GetByOrderIDAny_def split: sum.splits)
    from row_txn_stored [OF a(2) hit(4,2) this] show ?thesis .
  next
    case (miss e)
    then show ?thesis
      using assms(3) by (auto simp: GetByOrderIDAny_def split: sum.splits)
  qed
qed

lemma processOne_settles:
  assumes "repo_good (cw_env w) (cw_router w) s" "arrivals_ok (cw_env w) (cw_router w)"
    and "onchain_inv (cw_env w) s" "oview (cw_env w) s (x_TxHash p) = Some p" "bigint_fits (latest - x_BlockNumber p)"
    and "crypto_payable w latest p order s"
    and "cw_kafka w (writes s) = None" "\<forall>ev. \<not> isl (cw_marshal w ev)"
  shows "\<exists>s' upd now. processOne (li_Confirmation (chain_listener w)) latest p s = s' \<and>
    txn_view (cw_router w) s' = (\<lambda>j tid. map_option (\<lambda>t.
      if router_colocated (cw_router w) j (t_ShardIndex order) \<and> is_order (env_coll (cw_env w)) (t_MerchantID order) (t_OrderID order) t
      then with_status TransactionStatusPaid [] upd t else t) (txn_view (cw_router w) s j tid)) \<and>
    oview (cw_env w) s' (x_TxHash p) = Some (p\<lparr>x_Confirmations := latest - x_BlockNumber p, x_Status := OnchainTxStatusConfirmed\<rparr>) \<and>
    topic s' = topic s @ [(t_OrderID order, projr (cw_marshal w (crypto_event order now)))]"
proof -
  let ?env = "cw_env w" and ?r = "cw_router w" and ?i = "t_ShardIndex order" and ?t = "li_Confirmation (chain_listener w)"
  have order: "router_known ?r ?i" "valid_order_id (t_OrderID order)" "txn_view ?r s ?i (t_TransactionID order) = Some order"
    using GetByOrderIDAny_stored [OF assms(1,2)] assms(6) by (auto simp: crypto_payable_def)
  obtain s2 where s2: "processOne ?t latest p s = confirm_order ?t p (latest - x_BlockNumber p) order s2"
    "tables s2 = tables s" "onchain s2 = onchain s" "topic s2 = topic s" "writes s2 = writes s"
    by (rule processOne_payable [OF assms(6)])
  have "healthy ?env" "onchain_inv ?env s2" "oview ?env s2 (x_TxHash p) = Some p"
    using assms(1,3,4) s2(3) oview_onchain [OF s2(3)] by (simp_all add: repo_good_def onchain_inv_def)
  then obtain s3 where s3: "UpdateConfirmations ?env ?r (x_TxHash p) (latest - x_BlockNumber p) OnchainTxStatusConfirmed s2 = (s3, Inr ())"
    "tables s3 = tables s" "topic s3 = topic s" "writes s3 = writes s"
    "oview ?env s3 (x_TxHash p) = Some (p\<lparr>x_Confirmations := latest - x_BlockNumber p, x_Status := OnchainTxStatusConfirmed\<rparr>)"
    using assms(5) s2 by (auto elim: mark_recorded [where n = "latest - x_BlockNumber p" and st = OnchainTxStatusConfirmed and r = ?r])
  have good3: "repo_good ?env ?r s3" and v3: "txn_view ?r s3 = txn_view ?r s"
    using assms(1) repo_good_same [OF s3(2)] txn_view_tables [OF s3(2)] by simp_all
  have "\<exists>tid t. txn_view ?r s3 ?i tid = Some t \<and> env_coll ?env (t_MerchantID t) (t_MerchantID order) \<and> env_coll ?env (t_OrderID t) (t_OrderID order)"
    using order(3) v3 assms(1) by (intro exI [of _ "t_TransactionID order"] exI [of _ order]) (simp add: repo_good_def healthy_def)
  from txr.update_status [OF good3 order(1,2), of TransactionStatusPaid "[]" "t_MerchantID order", unfolded if_P [OF this], folded with_status_def is_order_def]
  obtain s4 upd where s4: "UpdateStatus ?env ?r ?i (t_MerchantID order) (t_OrderID order) TransactionStatusPaid [] s3 = (s4, Inr ())"
    and v4: "txn_view ?r s4 = (\<lambda>j tid. map_option (\<lambda>t.
      if router_colocated ?r j ?i \<and> is_order (env_coll ?env) (t_MerchantID order) (t_OrderID order) t
      then with_status TransactionStatusPaid [] upd t else t) (txn_view ?r s j tid))"
    by (auto simp: TransactionStatus_Valid_def v3 simp del: map_option_eq_Some)
  have s4': "onchain s4 = onchain s3" "topic s4 = topic s3" "writes s4 = writes s3"
    using s4 txn_ops_onchain(2) [of ?env ?r ?i "t_MerchantID order" "t_OrderID order" TransactionStatusPaid "[]" s3]
      UpdateStatus_gateway(3,4) [of ?env ?r ?i "t_MerchantID order" "t_OrderID order" TransactionStatusPaid "[]" s3] by simp_all
  let ?ev = "crypto_event order (env_clock ?env (stmts s4))"
  obtain payload where payload: "cw_marshal w ?ev = Inr payload"
    using assms(8) by (metis sum.collapse(2))
  let ?s5 = "s4\<lparr>writes := Suc (writes s4), topic := topic s4 @ [(t_OrderID order, payload)]\<rparr>"
  have "processOne ?t latest p s = ?s5"
    using s2(1) s3(1) s4 payload assms(7) s3(4) s4'(3)
    by (simp add: confirm_order_def NewTransactionRepository_def PublishPaymentConfirmed_def WriteMessages_def crypto_event_def)
  moreover have "txn_view ?r ?s5 = txn_view ?r s4" "oview ?env ?s5 = oview ?env s3"
    using s4'(1) txn_view_tables [of ?s5 s4] oview_onchain [of ?s5 s3] by simp_all
  moreover have "topic ?s5 = topic s @ [(t_OrderID order, projr (cw_marshal w ?ev))]"
    using s4'(2) s3(3) payload by simp
  ultimately show ?thesis
    using v4 s3(5) by (intro exI [of _ ?s5] exI [of _ upd] exI [of _ "env_clock ?env (stmts s4)"]) simp
qed

text \<open>C17. A settled payment pays its order: on a healthy database and broker, processing a payment on record
  whose receipt, depth, order and amount are right marks exactly the rows of that merchant and order
  paid, leaves every other transaction alone, marks the payment confirmed with its depth, and
  publishes one event for the order.\<close>

theorem crypto_settles:
  assumes "repo_good (cw_env w) (cw_router w) s" "arrivals_ok (cw_env w) (cw_router w)"
    and "onchain_inv (cw_env w) s" "oview (cw_env w) s (x_TxHash p) = Some p" "bigint_fits (latest - x_BlockNumber p)"
    and "crypto_payable w latest p order s"
    and "cw_kafka w (writes s) = None" "\<forall>ev. \<not> isl (cw_marshal w ev)"
  shows "\<exists>s' upd now. processOne (li_Confirmation (chain_listener w)) latest p s = s' \<and>
    txn_view (cw_router w) s' = (\<lambda>j tid. map_option (\<lambda>t.
      if router_colocated (cw_router w) j (t_ShardIndex order) \<and> is_order (env_coll (cw_env w)) (t_MerchantID order) (t_OrderID order) t
      then with_status TransactionStatusPaid [] upd t else t) (txn_view (cw_router w) s j tid)) \<and>
    oview (cw_env w) s' (x_TxHash p) = Some (p\<lparr>x_Confirmations := latest - x_BlockNumber p, x_Status := OnchainTxStatusConfirmed\<rparr>) \<and>
    topic s' = topic s @ [(t_OrderID order, projr (cw_marshal w (crypto_event order now)))]"
  using assms by (rule processOne_settles)

section \<open>A small chain\<close>

text \<open>Two payments of the order \<open>o-1\<close>, in the blocks 120 and 150 of a chain of 200 blocks.\<close>

definition demo_lib :: eth_lib where
  "demo_lib = \<lparr>el_BytesToAddress = (\<lambda>b. drop (length b - 20) b), el_AddressHex = (\<lambda>a. ''0x'' @ a),
     el_HashHex = (\<lambda>h. ''0x'' @ h), el_HexToHash = drop 2\<rparr>"

definition demo_cfg :: ChainConfig where
  "demo_cfg = \<lparr>ch_ChainID = 1, ch_ContractAddress = ''c'', ch_RequiredConfirmations = 12, ch_StartBlock = 100,
     ch_EventTopic = replicate 32 (CHR 0x00)\<rparr>"

definition demo_log :: "string \<Rightarrow> uint64 \<Rightarrow> Log" where
  "demo_log h n = \<lparr>lg_TxHash = h, lg_BlockNumber = n,
     lg_Topics = [''t'', replicate 29 (CHR 0x00) @ ''o-1'', replicate 20 (CHR ''a'')],
     lg_Data = replicate 62 (CHR 0x00) @ [CHR 0x05, CHR 0xDC]\<rparr>"

definition demo_logs :: "Log list" where
  "demo_logs = [demo_log ''h1'' 120, demo_log ''h2'' 150]"

definition in_query :: "FilterQuery \<Rightarrow> Log \<Rightarrow> bool" where
  "in_query q lg \<longleftrightarrow> (case fq_FromBlock q of None \<Rightarrow> True | Some f \<Rightarrow> f \<le> lg_BlockNumber lg) \<and>
     (case fq_ToBlock q of None \<Rightarrow> True | Some t \<Rightarrow> lg_BlockNumber lg \<le> t)"

definition demo_node :: "unit ChainClient" where
  "demo_node = \<lparr>cl_BlockNumber = (\<lambda>u. (u, Inr 200)), cl_SubscribeFilterLogs = (\<lambda>q u. (u, Inr ())),
     cl_FilterLogs = (\<lambda>q u. (u, Inr (filter (in_query q) demo_logs))),
     cl_TransactionReceipt = (\<lambda>h u. (u, Inr (Some 1))), cl_Close = (\<lambda>u. u)\<rparr>"

definition demo_chain_wiring :: "unit chain_wiring" where
  "demo_chain_wiring = \<lparr>cw_env = demo_env, cw_router = demo_router, cw_marshal = (\<lambda>ev. Inr (ev_Status ev)),
     cw_kafka = (\<lambda>n. None), cw_lib = demo_lib, cw_cfg = demo_cfg, cw_client = demo_node,
     cw_ctxErr = (\<lambda>s. None), cw_select = (\<lambda>s. (s, CtxDone (Sentinel Canceled))), cw_wait = (\<lambda>d s. (s, None))\<rparr>"

definition demo_chain :: chain_store where
  "demo_chain = \<lparr>tables = tables demo_stuck, stmts = 0, merchants = [demo_payer ''M1''], mcache = newLRUCache 1024 300000000000,
     rd_db = (\<lambda>k. None), rd_calls = 0, topic = [], writes = 0, urls = NewURLCache 10000 5000000000, onchain = [], cursors = (\<lambda>_. None)\<rparr>"

lemma demo_chain_wiring_simps [simp]:
  "cw_env demo_chain_wiring = demo_env" "cw_router demo_chain_wiring = demo_router" "cw_lib demo_chain_wiring = demo_lib"
  "cw_cfg demo_chain_wiring = demo_cfg" "cw_client demo_chain_wiring = demo_node" "cw_kafka demo_chain_wiring = (\<lambda>n. None)"
  "cw_marshal demo_chain_wiring = (\<lambda>ev. Inr (ev_Status ev))"
  by (simp_all add: demo_chain_wiring_def)

lemma demo_coll_equiv: "coll_equiv demo_env"
  by (auto simp: coll_equiv_def demo_env_def EqualFold_def equivp_def fun_eq_iff)

lemma demo_arrivals: "arrivals_ok demo_env demo_router"
  by (simp add: arrivals_ok_def demo_env_def demo_router_def router_All_def upt_rec)

lemma demo_chain_good: "repo_good demo_env demo_router demo_chain"
  using demo_stuck_good by (simp add: repo_good_def txn_inv_def demo_chain_def)

lemma demo_answers: "chain_answers demo_node demo_cfg 200 demo_logs"
proof -
  have "in_query (contract_query demo_cfg (Some frm) (Some to)) = (\<lambda>lg. frm \<le> lg_BlockNumber lg \<and> lg_BlockNumber lg \<le> to)" for frm to
    by (simp add: in_query_def contract_query_def fun_eq_iff)
  then show ?thesis
    by (simp add: chain_answers_def demo_node_def)
qed

lemma demo_parse:
  "ParsePaymentEvent demo_lib (demo_log h n) =
     Inr \<lparr>pe_OrderID = ''o-1'', pe_Payer = replicate 20 (CHR ''a''), pe_Token = replicate 20 (CHR 0x00), pe_Amount = 1500\<rparr>"
  by (simp add: ParsePaymentEvent_def demo_lib_def demo_log_def SetBytes_def) (simp add: numeral_eq_Suc)

lemma demo_order_row: "order_row demo_env demo_router demo_chain ''o-1'' (demo_row 9 80)"
  by (simp add: order_row_def demo_router_def router_All_def demo_chain_def demo_stuck_def) (simp add: demo_row_def demo_env_def EqualFold_def)

lemma demo_recordable:
  assumes "length h \<le> 64" "unat n < 2 ^ 63"
  shows "recordable demo_chain_wiring demo_chain (demo_log h n)"
  using assms demo_order_row ValidateOrderID_valid [OF demo_oid]
  by (auto simp: recordable_def demo_parse) (simp_all add: demo_lib_def demo_log_def demo_cfg_def bigint_fits_def)

lemma demo_own_hash: "own_hash demo_chain_wiring demo_logs (demo_log ''h1'' 120)"
proof -
  have "\<not> EqualFold ''0xh2'' ''0xh1''"
    by code_simp
  then show ?thesis
    by (simp add: own_hash_def demo_logs_def demo_log_def demo_lib_def demo_env_def)
qed

lemma demo_oview_empty: "oview demo_env demo_chain h = None"
  by (simp add: oview_def demo_chain_def)

theorem backfill_complete_witness:
  "\<exists>s' x. backfill_tick (li_Backfill (chain_listener demo_chain_wiring)) demo_chain = Some (s', Inr ()) \<and>
    cursors s' 1 = Some 200 \<and> oview demo_env s' ''0xh1'' = Some x \<and> x_Amount x = Some 1500"
proof -
  have h: "el_HashHex demo_lib (lg_TxHash (demo_log ''h1'' 120)) = ''0xh1''" "lg_BlockNumber (demo_log ''h1'' 120) = 120"
    by (simp_all add: demo_lib_def demo_log_def)
  have start: "scan_start demo_cfg demo_chain = 100"
    by (simp add: scan_start_def demo_chain_def demo_cfg_def)
  have "x_Amount x = Some 1500" if "record_of demo_chain_wiring demo_chain (demo_log ''h1'' 120) x" for x
    using that by (cases x) (auto simp: record_of_def demo_parse observed_tx_def)
  then show ?thesis
    using backfill_complete [of demo_chain_wiring demo_chain 200 demo_logs "demo_log ''h1'' 120"]
      demo_chain_good demo_arrivals demo_coll_equiv demo_answers demo_recordable [of "''h1''" 120] demo_own_hash demo_oview_empty start h
    by (auto simp: bigint_fits_def demo_logs_def demo_cfg_def)
qed

theorem listener_total_witness:
  "\<exists>s'. listener_run (chain_listener demo_chain_wiring) [TurnBackfill, TurnConfirm] demo_chain = Some s'"
  by (rule listener_total) (simp add: demo_node_def)

theorem subscriber_skips_missed_witness:
  "\<exists>s'. listener_run (chain_listener demo_chain_wiring) (TurnLog (demo_log ''h2'' 150) # replicate 2 TurnBackfill) demo_chain = Some s' \<and>
    oview demo_env s' ''0xh1'' = None \<and> recordable demo_chain_wiring demo_chain (demo_log ''h1'' 120)"
proof -
  let ?ts = "TurnLog (demo_log ''h2'' 150) # replicate 2 TurnBackfill"
  have "\<exists>s'. listener_run (chain_listener demo_chain_wiring) ?ts demo_chain = Some s'"
    by (rule listener_run_total) (simp add: demo_node_def)
  then obtain s' where s': "listener_run (chain_listener demo_chain_wiring) ?ts demo_chain = Some s'"
    by blast
  have h: "el_HashHex demo_lib (lg_TxHash (demo_log ''h1'' 120)) = ''0xh1''"
    "lg_BlockNumber (demo_log ''h1'' 120) = 120" "lg_BlockNumber (demo_log ''h2'' 150) = 150"
    by (simp_all add: demo_lib_def demo_log_def)
  have "oview demo_env s' (el_HashHex demo_lib (lg_TxHash (demo_log ''h1'' 120))) = None"
    using subscriber_skips_missed [of demo_chain_wiring demo_chain 200 demo_logs "demo_log ''h2'' 150" "demo_log ''h1'' 120" 2 s']
      demo_chain_good demo_arrivals demo_coll_equiv demo_answers demo_recordable [of "''h2''" 150] demo_own_hash demo_oview_empty h s'
    by (auto simp: bigint_fits_def demo_logs_def)
  with s' h demo_recordable [of "''h1''" 120] show ?thesis
    by auto
qed

definition demo_payment :: OnchainTransaction where
  "demo_payment = \<lparr>x_ID = 1, x_TxHash = ''0xh1'', x_BlockNumber = 120, x_MerchantID = ''M1'', x_OrderID = ''o-1'',
     x_Payer = ''0xaa'', x_Token = ''0x00'', x_Amount = Some 1500, x_ChainID = 1, x_Confirmations = 0,
     x_RequiredConfirm = 12, x_Status = OnchainTxStatusPending, x_CreatedAt = 0\<rparr>"

definition demo_recorded :: "string \<Rightarrow> chain_store" where
  "demo_recorded status = demo_chain\<lparr>onchain := [demo_payment\<lparr>x_Status := status\<rparr>]\<rparr>"

lemma demo_recorded_inv: "onchain_inv demo_env (demo_recorded OnchainTxStatusPending)" "onchain_inv demo_env (demo_recorded OnchainTxStatusReorged)"
  by (simp_all add: onchain_inv_def demo_recorded_def demo_payment_def onchain_fits_def bigint_fits_def)

lemma demo_recorded_view: "oview demo_env (demo_recorded st) ''0xh1'' = Some (demo_payment\<lparr>x_Status := st\<rparr>)"
  by (simp add: oview_def demo_recorded_def demo_payment_def demo_env_def EqualFold_def)

lemma demo_recorded_order: "snd (GetByOrderIDAny demo_env demo_router ''o-1'' (demo_recorded st)) = Inr (row_txn 2 (demo_row 9 80))"
proof -
  have "stmts (demo_recorded st) = 0" "tables (demo_recorded st) 1 = [demo_row 9 80]"
    by (simp_all add: demo_recorded_def demo_chain_def demo_stuck_def)
  moreover have "env_coll demo_env (row_order_id (demo_row 9 80)) ''o-1''"
    by (simp add: demo_row_def demo_env_def EqualFold_def)
  moreover have "physicalToFirstLogical demo_router (Suc (Suc 0)) ! 1 = 2"
    by code_simp
  ultimately show ?thesis
    using ValidateOrderID_valid [OF demo_oid] scan_ok(2) [OF demo_row_ok, of 9 80] row_txn_shard [where i = 0 and j = 2 and row = "demo_row 9 80"]
    by (simp add: GetByOrderIDAny_def scatterFirst_def query_row_def Let_def router_All_def demo_env_def demo_router_def)
qed

lemma demo_order_fields: "t_Amount (row_txn i (demo_row k n)) = 1500" "t_Status (row_txn i (demo_row k n)) = TransactionStatusCreated"
  by (simp_all add: row_txn_def scanTransaction_def demo_row_def decodeCurrency_def decodeStatus_def
      codeToCurrency_Some_iff [THEN iffD2, of "''USD''" 840] currencyToCode_def)

lemma demo_crypto_payable: "crypto_payable demo_chain_wiring 200 demo_payment (row_txn 2 (demo_row 9 80)) (demo_recorded OnchainTxStatusPending)"
proof -
  have "x_OrderID demo_payment = ''o-1''" "x_BlockNumber demo_payment = 120" "x_RequiredConfirm demo_payment = 12" "x_Amount demo_payment = Some 1500"
    by (simp_all add: demo_payment_def)
  then show ?thesis
    using demo_recorded_order [of OnchainTxStatusPending] by (simp add: crypto_payable_def demo_order_fields demo_node_def big_Int64_def int64_def)
qed

lemma demo_recorded_good: "repo_good demo_env demo_router (demo_recorded st)" "writes (demo_recorded st) = 0" "topic (demo_recorded st) = []"
  using demo_chain_good repo_good_same [of "demo_recorded st" demo_chain] by (simp_all add: demo_recorded_def) (simp_all add: demo_chain_def)

lemma demo_payment_fields: "demo_payment\<lparr>x_Status := OnchainTxStatusPending\<rparr> = demo_payment" "x_TxHash demo_payment = ''0xh1''"
  "x_BlockNumber demo_payment = 120"
  by (simp_all add: demo_payment_def)

lemma demo_settle_facts:
  "repo_good (cw_env demo_chain_wiring) (cw_router demo_chain_wiring) (demo_recorded OnchainTxStatusPending)"
  "arrivals_ok (cw_env demo_chain_wiring) (cw_router demo_chain_wiring)"
  "onchain_inv (cw_env demo_chain_wiring) (demo_recorded OnchainTxStatusPending)"
  "oview (cw_env demo_chain_wiring) (demo_recorded OnchainTxStatusPending) (x_TxHash demo_payment) = Some demo_payment"
  "bigint_fits (200 - x_BlockNumber demo_payment)"
  "cw_kafka demo_chain_wiring (writes (demo_recorded OnchainTxStatusPending)) = None" "\<forall>ev. \<not> isl (cw_marshal demo_chain_wiring ev)"
  using demo_recorded_good [of OnchainTxStatusPending] demo_arrivals demo_recorded_inv(1) demo_recorded_view [of OnchainTxStatusPending]
  by (simp_all add: demo_payment_fields bigint_fits_def)

theorem crypto_settles_witness:
  "\<exists>p. oview demo_env (processOne (li_Confirmation (chain_listener demo_chain_wiring)) 200 demo_payment (demo_recorded OnchainTxStatusPending)) ''0xh1'' =
      Some p \<and> x_Status p = OnchainTxStatusConfirmed \<and> x_Confirmations p = 80"
proof -
  have "\<exists>s'. processOne (li_Confirmation (chain_listener demo_chain_wiring)) 200 demo_payment (demo_recorded OnchainTxStatusPending) = s' \<and>
    oview (cw_env demo_chain_wiring) s' (x_TxHash demo_payment) =
      Some (demo_payment\<lparr>x_Confirmations := 200 - x_BlockNumber demo_payment, x_Status := OnchainTxStatusConfirmed\<rparr>)"
    using crypto_settles [OF demo_settle_facts(1-5) demo_crypto_payable demo_settle_facts(6,7)] by (elim exE conjE, intro exI conjI)
  then show ?thesis
    by (simp add: demo_payment_fields)
qed


theorem crypto_pays_only_witness:
  "\<exists>order. crypto_payable demo_chain_wiring 200 demo_payment order (demo_recorded OnchainTxStatusPending)"
proof -
  let ?s = "demo_recorded OnchainTxStatusPending" and ?t = "row_txn 2 (demo_row 9 80)"
  let ?p = "processOne (li_Confirmation (chain_listener demo_chain_wiring)) 200 demo_payment ?s"
  have stored: "txn_view demo_router ?s (t_ShardIndex ?t) (t_TransactionID ?t) = Some ?t"
    using GetByOrderIDAny_stored [OF demo_recorded_good(1) demo_arrivals demo_recorded_order] by simp
  from processOne_settles [OF demo_settle_facts(1-5) demo_crypto_payable demo_settle_facts(6,7)]
  obtain upd where v: "txn_view demo_router ?p = (\<lambda>j tid. map_option (\<lambda>t.
      if router_colocated demo_router j (t_ShardIndex ?t) \<and> is_order (env_coll demo_env) (t_MerchantID ?t) (t_OrderID ?t) t
      then with_status TransactionStatusPaid [] upd t else t) (txn_view demo_router ?s j tid))"
    by (elim exE conjE) (simp only: demo_chain_wiring_simps)
  have "is_order (env_coll demo_env) (t_MerchantID ?t) (t_OrderID ?t) ?t"
    using coll_equivD(1) [OF demo_coll_equiv] by (simp add: is_order_def)
  then have "txn_view demo_router ?p (t_ShardIndex ?t) (t_TransactionID ?t) = Some (with_status TransactionStatusPaid [] upd ?t)"
    unfolding v stored by (simp add: router_colocated_def)
  then have "txn_view demo_router ?p \<noteq> txn_view demo_router ?s"
    using stored demo_order_fields(2) [of 2 9 80] by (auto dest: arg_cong [where f = "\<lambda>v. map_option t_Status (v (t_ShardIndex ?t) (t_TransactionID ?t))"])
  then have "tables ?p \<noteq> tables ?s"
    using txn_view_tables by blast
  from crypto_pays_only [of demo_chain_wiring 200 demo_payment ?s, OF this] show ?thesis
    by (rule conjunct1)
qed

end
