(* ===== verification/CheckoutPage.thy ===== *)
theory CheckoutPage
  imports Prelude
begin

text \<open>
  \<^verbatim>\<open>internal/api/handler/checkout_page.go\<close>: the pages of the hosted checkout, as UTF-8 bytes, and the
  \<^verbatim>\<open>fmt.Sprintf\<close> of a format whose only verb is one \<^verbatim>\<open>%s\<close>.
\<close>

definition html_page :: "string list \<Rightarrow> string" where
  "html_page ls = (case ls of [] \<Rightarrow> [] | x # xs \<Rightarrow> x @ concat (map (\<lambda>l. CHR 0x0A # l) xs))"

fun Sprintf_s :: "string \<Rightarrow> string \<Rightarrow> string" where
  "Sprintf_s [] arg = []"
| "Sprintf_s (c # fmt) arg = (if c = CHR ''%'' \<and> HasPrefix fmt ''s'' then arg @ tl fmt else c # Sprintf_s fmt arg)"

definition checkoutNotReadyHTML :: string where
  \<open>checkoutNotReadyHTML = html_page [
    ''<!doctype html>'',
    ''<html lang="en">'',
    ''<head>'',
    ''<meta charset="utf-8">'',
    ''<meta http-equiv="refresh" content="2">'',
    ''<title>Preparing checkout'' @ [CHR 0xE2, CHR 0x80, CHR 0xA6] @ ''</title>'',
    ''<style>'',
    ''  body{font-family:-apple-system,BlinkMacSystemFont,Segoe UI,Roboto,sans-serif;background:#fafafa;display:flex;align-items:center;justify-content:center;height:100vh;margin:0;color:#1a1a1a}'',
    ''  .card{background:#fff;border-radius:12px;padding:32px 40px;box-shadow:0 1px 3px rgba(0,0,0,0.08);text-align:center;max-width:420px}'',
    ''  .spinner{width:36px;height:36px;border:3px solid #eee;border-top-color:#635bff;border-radius:50%;margin:0 auto 16px;animation:s 0.8s linear infinite}'',
    ''  @keyframes s{to{transform:rotate(360deg)}}'',
    ''  h1{font-size:18px;font-weight:600;margin:0 0 8px}'',
    ''  p{font-size:14px;color:#666;margin:0}'',
    ''</style>'',
    ''</head>'',
    ''<body>'',
    ''  <div class="card">'',
    ''    <div class="spinner"></div>'',
    ''    <h1>Preparing your secure checkout'' @ [CHR 0xE2, CHR 0x80, CHR 0xA6] @ ''</h1>'',
    ''    <p>This usually takes a second or two. The page will refresh automatically.</p>'',
    ''  </div>'',
    ''</body>'',
    ''</html>'']\<close>

definition checkoutErrorHTML :: string where
  \<open>checkoutErrorHTML = html_page [
    ''<!doctype html>'',
    ''<html lang="en">'',
    ''<head>'',
    ''<meta charset="utf-8">'',
    ''<title>Checkout temporarily unavailable</title>'',
    ''<style>'',
    ''  body{font-family:-apple-system,BlinkMacSystemFont,Segoe UI,Roboto,sans-serif;background:#fafafa;display:flex;align-items:center;justify-content:center;height:100vh;margin:0;color:#1a1a1a}'',
    ''  .card{background:#fff;border-radius:12px;padding:32px 40px;box-shadow:0 1px 3px rgba(0,0,0,0.08);text-align:center;max-width:480px}'',
    ''  .icon{font-size:36px;margin-bottom:8px}'',
    ''  h1{font-size:18px;font-weight:600;margin:0 0 8px}'',
    ''  p{font-size:14px;color:#666;margin:0 0 16px;line-height:1.5}'',
    ''  button{background:#635bff;color:#fff;border:0;border-radius:8px;padding:10px 20px;font-size:14px;font-weight:500;cursor:pointer}'',
    ''  button:hover{background:#4f46e5}'',
    ''  .ref{margin-top:16px;font-size:11px;color:#aaa;font-family:monospace}'',
    ''</style>'',
    ''</head>'',
    ''<body>'',
    ''  <div class="card">'',
    ''    <div class="icon">'' @ [CHR 0xE2, CHR 0x8F, CHR 0xB3] @ ''</div>'',
    ''    <h1>Checkout temporarily unavailable</h1>'',
    ''    <p>We couldn't reach our payment processor right now. Please try again in a moment, or contact the merchant if this persists.</p>'',
    ''    <button onclick="location.reload()">Try again</button>'',
    ''    <div class="ref">ref: %s</div>'',
    ''  </div>'',
    ''</body>'',
    ''</html>'']\<close>

definition checkoutSuccessHTML :: string where
  \<open>checkoutSuccessHTML = html_page [
    ''<!doctype html>'',
    ''<html lang="en">'',
    ''<head>'',
    ''<meta charset="utf-8">'',
    ''<title>Payment successful</title>'',
    ''<style>'',
    ''  body{font-family:-apple-system,BlinkMacSystemFont,Segoe UI,Roboto,sans-serif;background:#fafafa;display:flex;align-items:center;justify-content:center;height:100vh;margin:0;color:#1a1a1a}'',
    ''  .card{background:#fff;border-radius:12px;padding:32px 40px;box-shadow:0 1px 3px rgba(0,0,0,0.08);text-align:center;max-width:420px}'',
    ''  .icon{font-size:48px;margin-bottom:8px}'',
    ''  h1{font-size:20px;font-weight:600;margin:0 0 8px;color:#0a8754}'',
    ''  p{font-size:14px;color:#666;margin:0;line-height:1.5}'',
    ''  .ref{margin-top:16px;font-size:11px;color:#aaa;font-family:monospace}'',
    ''</style>'',
    ''</head>'',
    ''<body>'',
    ''  <div class="card">'',
    ''    <div class="icon">'' @ [CHR 0xE2, CHR 0x9C, CHR 0x85] @ ''</div>'',
    ''    <h1>Payment successful</h1>'',
    ''    <p>Thanks '' @ [CHR 0xE2, CHR 0x80, CHR 0x94] @ '' we've received your payment. The merchant will follow up shortly.</p>'',
    ''    <div class="ref">order: %s</div>'',
    ''  </div>'',
    ''</body>'',
    ''</html>'']\<close>

definition checkoutCancelHTML :: string where
  \<open>checkoutCancelHTML = html_page [
    ''<!doctype html>'',
    ''<html lang="en">'',
    ''<head>'',
    ''<meta charset="utf-8">'',
    ''<title>Checkout cancelled</title>'',
    ''<style>'',
    ''  body{font-family:-apple-system,BlinkMacSystemFont,Segoe UI,Roboto,sans-serif;background:#fafafa;display:flex;align-items:center;justify-content:center;height:100vh;margin:0;color:#1a1a1a}'',
    ''  .card{background:#fff;border-radius:12px;padding:32px 40px;box-shadow:0 1px 3px rgba(0,0,0,0.08);text-align:center;max-width:420px}'',
    ''  .icon{font-size:48px;margin-bottom:8px}'',
    ''  h1{font-size:20px;font-weight:600;margin:0 0 8px}'',
    ''  p{font-size:14px;color:#666;margin:0;line-height:1.5}'',
    ''  .ref{margin-top:16px;font-size:11px;color:#aaa;font-family:monospace}'',
    ''</style>'',
    ''</head>'',
    ''<body>'',
    ''  <div class="card">'',
    ''    <div class="icon">'' @ [CHR 0xE2, CHR 0x86, CHR 0xA9, CHR 0xEF, CHR 0xB8, CHR 0x8F] @ ''</div>'',
    ''    <h1>Checkout cancelled</h1>'',
    ''    <p>No charges were made. You can return to the merchant to retry.</p>'',
    ''    <div class="ref">order: %s</div>'',
    ''  </div>'',
    ''</body>'',
    ''</html>'']\<close>

definition checkoutNotFoundHTML :: string where
  \<open>checkoutNotFoundHTML = html_page [
    ''<!doctype html>'',
    ''<html lang="en">'',
    ''<head>'',
    ''<meta charset="utf-8">'',
    ''<title>Order not found</title>'',
    ''<style>'',
    ''  body{font-family:-apple-system,BlinkMacSystemFont,Segoe UI,Roboto,sans-serif;background:#fafafa;display:flex;align-items:center;justify-content:center;height:100vh;margin:0;color:#1a1a1a}'',
    ''  .card{background:#fff;border-radius:12px;padding:32px 40px;box-shadow:0 1px 3px rgba(0,0,0,0.08);text-align:center;max-width:420px}'',
    ''  .icon{font-size:36px;margin-bottom:8px}'',
    ''  h1{font-size:18px;font-weight:600;margin:0 0 8px}'',
    ''  p{font-size:14px;color:#666;margin:0;line-height:1.5}'',
    ''</style>'',
    ''</head>'',
    ''<body>'',
    ''  <div class="card">'',
    ''    <div class="icon">'' @ [CHR 0xF0, CHR 0x9F, CHR 0x94, CHR 0x8D] @ ''</div>'',
    ''    <h1>Order not found</h1>'',
    ''    <p>We couldn't find this order. The link may be incorrect '' @ [CHR 0xE2, CHR 0x80, CHR 0x94] @ '' please return to the merchant to start a new checkout.</p>'',
    ''  </div>'',
    ''</body>'',
    ''</html>'']\<close>

definition checkoutInvalidHTML :: string where
  \<open>checkoutInvalidHTML = html_page [
    ''<!doctype html>'',
    ''<html lang="en">'',
    ''<head>'',
    ''<meta charset="utf-8">'',
    ''<title>Invalid checkout link</title>'',
    ''<style>'',
    ''  body{font-family:-apple-system,BlinkMacSystemFont,Segoe UI,Roboto,sans-serif;background:#fafafa;display:flex;align-items:center;justify-content:center;height:100vh;margin:0;color:#1a1a1a}'',
    ''  .card{background:#fff;border-radius:12px;padding:32px 40px;box-shadow:0 1px 3px rgba(0,0,0,0.08);text-align:center;max-width:420px}'',
    ''  .icon{font-size:36px;margin-bottom:8px}'',
    ''  h1{font-size:18px;font-weight:600;margin:0 0 8px}'',
    ''  p{font-size:14px;color:#666;margin:0;line-height:1.5}'',
    ''</style>'',
    ''</head>'',
    ''<body>'',
    ''  <div class="card">'',
    ''    <div class="icon">'' @ [CHR 0xF0, CHR 0x9F, CHR 0x94, CHR 0x97] @ ''</div>'',
    ''    <h1>This checkout link is no longer valid</h1>'',
    ''    <p>It may have expired or been used. Please return to the merchant to start a new checkout.</p>'',
    ''  </div>'',
    ''</body>'',
    ''</html>'']\<close>

section \<open>Pages and formats\<close>

lemma Contains_page:
  assumes "l \<in> set ls" "Contains l sub"
  shows "Contains (html_page ls) sub"
proof -
  have page: "\<exists>a b. concat (map (\<lambda>l. CHR 0x0A # l) xs) = a @ l @ b" if "l \<in> set xs" for xs
    using that
  proof (induction xs)
    case (Cons x xs)
    then show ?case
    proof (cases "x = l")
      case True
      then show ?thesis
        by (intro exI [of _ "[CHR 0x0A]"] exI [of _ "concat (map (\<lambda>l. CHR 0x0A # l) xs)"]) simp
    next
      case False
      with Cons obtain a b where "concat (map (\<lambda>l. CHR 0x0A # l) xs) = a @ l @ b"
        by auto
      then show ?thesis
        by (intro exI [of _ "CHR 0x0A # x @ a"] exI [of _ b]) simp
    qed
  qed simp
  have "\<exists>a b. html_page ls = a @ l @ b"
  proof (cases ls)
    case (Cons x xs)
    show ?thesis
    proof (cases "x = l")
      case True
      with Cons show ?thesis
        by (intro exI [of _ "[]"] exI [of _ "concat (map (\<lambda>l. CHR 0x0A # l) xs)"]) (simp add: html_page_def)
    next
      case False
      with Cons assms(1) page [of xs] obtain a b where "concat (map (\<lambda>l. CHR 0x0A # l) xs) = a @ l @ b"
        by auto
      with Cons show ?thesis
        by (intro exI [of _ "x @ a"] exI [of _ b]) (simp add: html_page_def)
    qed
  qed (use assms(1) in simp)
  then show ?thesis
    using assms(2) unfolding Contains_iff by (metis append.assoc)
qed

lemma Sprintf_s_split: "Contains fmt ''%s'' \<Longrightarrow> \<exists>a b. \<forall>x. Sprintf_s fmt x = a @ x @ b"
proof (induction fmt)
  case (Cons c fmt)
  show ?case
  proof (cases "c = CHR ''%'' \<and> HasPrefix fmt ''s''")
    case True
    then show ?thesis
      by (intro exI [of _ "[]"] exI [of _ "tl fmt"]) simp
  next
    case False
    with Cons obtain a b where "\<forall>x. Sprintf_s fmt x = a @ x @ b"
      by auto
    with False show ?thesis
      by (intro exI [of _ "c # a"] exI [of _ b]) auto
  qed
qed simp

end
