(* ===== verification/Api.thy ===== *)
theory Api
  imports CheckoutResolver CheckoutPage
begin

text \<open>
  \<^verbatim>\<open>internal/api\<close> and \<^verbatim>\<open>pkg/response\<close>: the middlewares, the handlers and the table of routes. The services
  are ports; JSON decoding (\<^verbatim>\<open>BodyParser\<close>), path matching and the answer to an unmatched request are those
  of the HTTP library and are parameters. The library runs the layers of the table in the order they
  were registered, as its documentation says. The metrics middleware only counts and is left out, as
  are log messages.
\<close>

section \<open>Requests and responses\<close>

text \<open>
  The context of a request: what \<^verbatim>\<open>Get\<close>, \<^verbatim>\<open>Query\<close> and \<^verbatim>\<open>Params\<close> return (the empty string if there is
  nothing), the locals the middlewares set, and the response headers set so far.
\<close>

record Ctx =
  cx_Method :: string
  cx_Path :: string
  cx_Header :: "string \<Rightarrow> string"
  cx_Query :: "string \<Rightarrow> string"
  cx_Params :: "string \<Rightarrow> string"
  cx_Body :: string
  cx_Merchant :: "Merchant option"
  cx_RequestID :: string
  cx_Out :: "(string \<times> string) list"

record paymentStatusResponse =
  psr_OrderID :: string
  psr_TransactionID :: string
  psr_Status :: string
  psr_Amount :: int
  psr_Currency :: string
  psr_PaymentMethod :: string
  psr_StripeSessionID :: string
  psr_StripePaymentIntentID :: string
  psr_CheckoutURL :: string
  psr_CreatedAt :: string
  psr_UpdatedAt :: string

datatype payload =
    PaymentData CreatePaymentResult
  | StatusData paymentStatusResponse
  | RefundData RefundResult
  | MerchantData CreateMerchantResult
  | HealthData string "(string \<times> string) list"

datatype body = Data payload | Failure string string | Checks string "(string \<times> string) list" | WebhookError string
  | Html string | Redirect_to string | Empty | Other string

record Response =
  rs_Status :: nat
  rs_Headers :: "(string \<times> string) list"
  rs_Body :: body

definition reply :: "Ctx \<Rightarrow> nat \<Rightarrow> body \<Rightarrow> Response" where
  "reply c status b = \<lparr>rs_Status = status, rs_Headers = cx_Out c, rs_Body = b\<rparr>"

definition set_header :: "string \<Rightarrow> string \<Rightarrow> Ctx \<Rightarrow> Ctx" where
  "set_header k v c = c\<lparr>cx_Out := (k, v) # filter (\<lambda>(k', _). \<not> EqualFold k' k) (cx_Out c)\<rparr>"

section \<open>response.go\<close>

definition resp_OK :: "Ctx \<Rightarrow> payload \<Rightarrow> Response" where
  "resp_OK c d = reply c 200 (Data d)"

definition Accepted :: "Ctx \<Rightarrow> payload \<Rightarrow> Response" where
  "Accepted c d = reply c 202 (Data d)"

definition Created :: "Ctx \<Rightarrow> payload \<Rightarrow> Response" where
  "Created c d = reply c 201 (Data d)"

definition Fail :: "Ctx \<Rightarrow> nat \<Rightarrow> string \<Rightarrow> string \<Rightarrow> Response" where
  "Fail c status code message = reply c status (Failure code message)"

definition BadRequest :: "Ctx \<Rightarrow> string \<Rightarrow> string \<Rightarrow> Response" where
  "BadRequest c = Fail c 400"

definition Unauthorized :: "Ctx \<Rightarrow> string \<Rightarrow> string \<Rightarrow> Response" where
  "Unauthorized c = Fail c 401"

definition TooManyRequests :: "Ctx \<Rightarrow> string \<Rightarrow> string \<Rightarrow> Response" where
  "TooManyRequests c = Fail c 429"

definition Conflict :: "Ctx \<Rightarrow> string \<Rightarrow> string \<Rightarrow> Response" where
  "Conflict c = Fail c 409"

definition InternalError :: "Ctx \<Rightarrow> string \<Rightarrow> string \<Rightarrow> Response" where
  "InternalError c = Fail c 500"

section \<open>Middlewares\<close>

type_synonym 's handler = "Ctx \<Rightarrow> 's \<Rightarrow> 's \<times> Response"

definition AdminAuth :: "string \<Rightarrow> 's handler \<Rightarrow> 's handler" where
  "AdminAuth expected next c s =
     (if expected = [] then (s, Unauthorized c ''admin_disabled'' ''admin endpoints disabled'')
      else let got = cx_Header c ''X-Admin-Key''
           in if got = [] \<or> got \<noteq> expected then (s, Unauthorized c ''bad_admin_key'' ''X-Admin-Key invalid or missing'')
              else next c s)"

text \<open>\<^verbatim>\<open>int64(skew.Seconds())\<close>: the whole seconds, exact for durations below \<open>2^22\<close> seconds.\<close>

definition whole_seconds :: "int \<Rightarrow> int" where
  "whole_seconds d = (if d < 0 then - (- d div 1000000000) else d div 1000000000)"

definition HMACAuth :: "'s MerchantRepository \<Rightarrow> int \<Rightarrow> ('s \<Rightarrow> int) \<Rightarrow> 's handler \<Rightarrow> 's handler" where
  "HMACAuth repo skew clock next c s =
     (let apiKey = cx_Header c ''X-API-Key''; ts = cx_Header c ''X-Timestamp''; sig = cx_Header c ''X-Signature''
      in if apiKey = [] \<or> ts = [] \<or> sig = []
         then (s, Unauthorized c ''missing_auth_headers'' ''X-API-Key, X-Timestamp, X-Signature are required'')
         else case ParseInt ts of
           None \<Rightarrow> (s, Unauthorized c ''bad_timestamp'' ''X-Timestamp must be unix seconds'')
         | Some tsInt \<Rightarrow>
             if abs64 (int64 (unix (clock s) - tsInt)) > whole_seconds skew
             then (s, Unauthorized c ''timestamp_skew'' ''X-Timestamp outside acceptable skew'')
             else case mr_GetByAPIKey repo apiKey s of
               (s1, Inl e) \<Rightarrow> (s1, Unauthorized c ''unknown_api_key'' ''API key not recognized'')
             | (s1, Inr merchant) \<Rightarrow>
                 if m_Status merchant \<noteq> MerchantStatusActive
                 then (s1, Unauthorized c ''merchant_suspended'' ''merchant is not active'')
                 else if \<not> hmac_Verify (m_SecretKey merchant) (ts @ ''.'' @ cx_Body c) sig
                 then (s1, Unauthorized c ''bad_signature'' ''signature does not match'')
                 else next (c\<lparr>cx_Merchant := Some merchant\<rparr>) s1)"

definition RateLimit :: "(string \<Rightarrow> int \<Rightarrow> int \<Rightarrow> 's \<Rightarrow> 's \<times> (bool \<times> int) result) \<Rightarrow> 's handler \<Rightarrow> 's handler" where
  "RateLimit allow next c s =
     (case cx_Merchant c of
        None \<Rightarrow> next c s
      | Some m \<Rightarrow>
          (let limit = (if m_RateLimit m \<le> 0 then 1000 else m_RateLimit m)
           in case allow (m_MerchantID m) limit (60 * 1000000000) s of
             (s1, Inl e) \<Rightarrow> next c s1
           | (s1, Inr (allowed, remaining)) \<Rightarrow>
               (let c1 = set_header ''X-RateLimit-Remaining'' (FormatInt remaining) (set_header ''X-RateLimit-Limit'' (FormatInt limit) c)
                in if \<not> allowed then (s1, TooManyRequests c1 ''rate_limited'' ''merchant rate limit exceeded'') else next c1 s1)))"

text \<open>\<open>uuid\<close> is the fresh identifier of a request that brings none.\<close>

definition RequestID :: "('s \<Rightarrow> string) \<Rightarrow> 's handler \<Rightarrow> 's handler" where
  "RequestID uuid next c s =
     (let i = (if cx_Header c ''X-Request-ID'' = [] then uuid s else cx_Header c ''X-Request-ID'')
      in next ((set_header ''X-Request-ID'' i c)\<lparr>cx_RequestID := i\<rparr>) s)"

section \<open>The ports of the services and the HTTP library\<close>

record 's Payments =
  pm_Create :: "CreatePaymentInput \<Rightarrow> 's \<Rightarrow> 's \<times> CreatePaymentResult result"

record 's Webhooks =
  wk_Process :: "string \<Rightarrow> string \<Rightarrow> 's \<Rightarrow> 's \<times> unit result"
  wk_CreateRefund :: "RefundInput \<Rightarrow> 's \<Rightarrow> 's \<times> RefundResult result"

record 's Checkouts =
  ck_Resolve :: "string \<Rightarrow> string \<Rightarrow> 's \<Rightarrow> 's \<times> string result"

record 's Merchants =
  me_Create :: "CreateMerchantInput \<Rightarrow> 's \<Rightarrow> 's \<times> CreateMerchantResult result"

record createPaymentRequest =
  cp_OrderID :: string
  cp_Amount :: int
  cp_Currency :: string
  cp_PaymentMethodTypes :: "string list"
  cp_CustomerEmail :: string
  cp_SuccessURL :: string
  cp_CancelURL :: string

record refundRequest =
  rq_Amount :: int
  rq_Reason :: string

record createMerchantRequest =
  cmq_MerchantID :: string
  cmq_Name :: string
  cmq_CallbackURL :: string
  cmq_RateLimit :: int

text \<open>
  \<open>fb_prefix\<close> and \<open>fb_match\<close> decide whether a path lies below a group and whether it matches a pattern,
  with the parameters found; \<open>fb_none\<close> answers a request no route matches; \<open>fb_metrics\<close> is the exporter.
\<close>

record fiber_lib =
  fb_payment :: "Ctx \<Rightarrow> createPaymentRequest result"
  fb_refund :: "Ctx \<Rightarrow> refundRequest result"
  fb_merchant :: "Ctx \<Rightarrow> createMerchantRequest result"
  fb_prefix :: "string \<Rightarrow> string \<Rightarrow> bool"
  fb_match :: "string \<Rightarrow> string \<Rightarrow> (string \<Rightarrow> string) option"
  fb_none :: "Ctx \<Rightarrow> Response"
  fb_metrics :: "Ctx \<Rightarrow> Response"

section \<open>Handlers\<close>

definition payment_input :: "Ctx \<Rightarrow> Merchant \<Rightarrow> createPaymentRequest \<Rightarrow> CreatePaymentInput" where
  "payment_input c merchant req =
     \<lparr>in_Merchant = Some merchant, in_OrderID = cp_OrderID req, in_Amount = cp_Amount req, in_Currency = cp_Currency req,
      in_PaymentMethodTypes = cp_PaymentMethodTypes req, in_CustomerEmail = cp_CustomerEmail req,
      in_SuccessURL = cp_SuccessURL req, in_CancelURL = cp_CancelURL req, in_Method = cx_Query c ''method''\<rparr>"

definition PaymentHandler_Create :: "fiber_lib \<Rightarrow> 's Payments \<Rightarrow> 's handler" where
  "PaymentHandler_Create lib svc c s =
     (case cx_Merchant c of
        None \<Rightarrow> (s, Unauthorized c ''missing_merchant'' ''merchant not authenticated'')
      | Some merchant \<Rightarrow>
     (case fb_payment lib c of
        Inl _ \<Rightarrow> (s, BadRequest c ''bad_json'' ''invalid JSON body'')
      | Inr req \<Rightarrow>
     (case pm_Create svc (payment_input c merchant req) s of
        (s1, Inl err) \<Rightarrow>
          (s1, if errors_Is err ErrInvalidRequest then BadRequest c ''invalid_request'' (Error err)
               else if errors_Is err ErrTransactionConflict then Conflict c ''transaction_conflict'' (Error err)
               else InternalError c ''create_failed'' (Error err))
      | (s1, Inr res) \<Rightarrow> (s1, Accepted c (PaymentData res)))))"

definition checkoutURLFor :: "Transaction \<Rightarrow> string" where
  "checkoutURLFor o' = (if t_StripeSessionID o' = [] then [] else ''https://checkout.stripe.com/c/pay/'' @ t_StripeSessionID o')"

text \<open>\<^verbatim>\<open>t.UTC().Format("2006-01-02T15:04:05Z")\<close> for years 0 to 9999: days since 1970 to a date of the proleptic calendar.\<close>

definition civil :: "int \<Rightarrow> int \<times> int \<times> int" where
  "civil days =
     (let z = days + 719468; era = z div 146097; doe = z - era * 146097;
          yoe = (doe - doe div 1460 + doe div 36524 - doe div 146096) div 365;
          doy = doe - (365 * yoe + yoe div 4 - yoe div 100);
          mp = (5 * doy + 2) div 153;
          m = (if mp < 10 then mp + 3 else mp - 9)
      in (yoe + era * 400 + (if m \<le> 2 then 1 else 0), m, doy - (153 * mp + 2) div 5 + 1))"

definition pad :: "nat \<Rightarrow> int \<Rightarrow> string" where
  "pad n v = (let d = FormatInt v in replicate (n - length d) (CHR ''0'') @ d)"

definition format_utc :: "int \<Rightarrow> string" where
  "format_utc t =
     (let secs = unix t; days = secs div 86400; sod = secs mod 86400
      in case civil days of (y, m, d) \<Rightarrow>
        pad 4 y @ ''-'' @ pad 2 m @ ''-'' @ pad 2 d @ ''T'' @ pad 2 (sod div 3600) @ '':'' @ pad 2 (sod div 60 mod 60) @ '':'' @
        pad 2 (sod mod 60) @ ''Z'')"

definition status_response :: "Transaction \<Rightarrow> paymentStatusResponse" where
  "status_response order =
     \<lparr>psr_OrderID = t_OrderID order, psr_TransactionID = t_TransactionID order, psr_Status = t_Status order,
      psr_Amount = t_Amount order, psr_Currency = t_Currency order, psr_PaymentMethod = t_PaymentMethod order,
      psr_StripeSessionID = t_StripeSessionID order, psr_StripePaymentIntentID = t_StripePaymentIntentID order,
      psr_CheckoutURL = checkoutURLFor order, psr_CreatedAt = format_utc (t_CreatedAt order), psr_UpdatedAt = format_utc (t_UpdatedAt order)\<rparr>"

definition PaymentStatusHandler_Get :: "'s TransactionRepository \<Rightarrow> 's handler" where
  "PaymentStatusHandler_Get repo c s =
     (let i = cx_Params c ''id''
      in if i = [] then (s, BadRequest c ''missing_id'' ''order id required'')
         else case cx_Merchant c of
           None \<Rightarrow> (s, Unauthorized c ''missing_merchant'' ''merchant not authenticated'')
         | Some merchant \<Rightarrow>
             (case tr_GetByMerchantOrderID repo (m_ShardIndex merchant) (m_MerchantID merchant) i s of
                (s1, Inl err) \<Rightarrow>
                  (s1, if errors_Is err ErrNotFound \<or> errors_Is err ErrInvalidOrderID then Fail c 404 ''not_found'' ''order not found''
                       else InternalError c ''lookup_failed'' (Error err))
              | (s1, Inr order) \<Rightarrow> (s1, resp_OK c (StatusData (status_response order)))))"

definition refund_input :: "Ctx \<Rightarrow> Merchant \<Rightarrow> refundRequest \<Rightarrow> RefundInput" where
  "refund_input c merchant req =
     \<lparr>ri_Merchant = Some merchant, ri_OrderID = cx_Params c ''id'', ri_Amount = rq_Amount req, ri_Reason = rq_Reason req,
      ri_IdemKey = ''refund:'' @ cx_Params c ''id'' @ '':'' @ cx_RequestID c\<rparr>"

definition RefundHandler_Create :: "fiber_lib \<Rightarrow> 's Webhooks \<Rightarrow> 's handler" where
  "RefundHandler_Create lib svc c s =
     (case cx_Merchant c of
        None \<Rightarrow> (s, Unauthorized c ''missing_merchant'' ''merchant not authenticated'')
      | Some merchant \<Rightarrow>
          if cx_Params c ''id'' = [] then (s, BadRequest c ''missing_id'' ''order id required'')
          else let req = (case fb_refund lib c of Inl _ \<Rightarrow> \<lparr>rq_Amount = 0, rq_Reason = []\<rparr> | Inr req \<Rightarrow> req)
               in case wk_CreateRefund svc (refund_input c merchant req) s of
                 (s1, Inl err) \<Rightarrow> (s1, InternalError c ''refund_failed'' (Error err))
               | (s1, Inr res) \<Rightarrow> (s1, Accepted c (RefundData res)))"

definition WebhookHandler_Stripe :: "'s Webhooks \<Rightarrow> 's handler" where
  "WebhookHandler_Stripe svc c s =
     (case wk_Process svc (cx_Body c) (cx_Header c ''Stripe-Signature'') s of
        (s1, Inr _) \<Rightarrow> (s1, reply c 200 Empty)
      | (s1, Inl err) \<Rightarrow>
          (s1, if errors_Is err ErrWebhookDuplicate then reply c 200 Empty
               else if errors_Is err ErrWebhookOrderMissing then reply c 500 (WebhookError (Error err))
               else reply c 400 (WebhookError (Error err))))"

definition MerchantHandler_Create :: "fiber_lib \<Rightarrow> 's Merchants \<Rightarrow> 's handler" where
  "MerchantHandler_Create lib svc c s =
     (case fb_merchant lib c of
        Inl _ \<Rightarrow> (s, BadRequest c ''bad_json'' ''invalid JSON body'')
      | Inr req \<Rightarrow>
     (case me_Create svc \<lparr>cm_MerchantID = cmq_MerchantID req, cm_Name = cmq_Name req, cm_CallbackURL = cmq_CallbackURL req,
             cm_RateLimit = cmq_RateLimit req\<rparr> s of
        (s1, Inl err) \<Rightarrow>
          (s1, if errors_Is err ErrInvalidRequest then BadRequest c ''invalid_request'' (Error err)
               else InternalError c ''create_failed'' (Error err))
      | (s1, Inr res) \<Rightarrow> (s1, Created c (MerchantData res))))"

record 's HealthHandler =
  hh_DB :: "('s \<Rightarrow> 's \<times> goerr option) option"
  hh_Redis :: "('s \<Rightarrow> 's \<times> goerr option) option"
  hh_Kafka :: "('s \<Rightarrow> 's \<times> goerr option) option"

definition Liveness :: "'s handler" where
  "Liveness c s = (s, resp_OK c (HealthData ''alive'' []))"

text \<open>One check: its entry, if the dependency is configured, and whether it passed.\<close>

definition ping_check :: "string \<Rightarrow> ('s \<Rightarrow> 's \<times> goerr option) option \<Rightarrow> 's \<Rightarrow> 's \<times> (string \<times> string) list \<times> bool" where
  "ping_check name p s =
     (case p of
        None \<Rightarrow> (s, [], True)
      | Some ping \<Rightarrow>
          (case ping s of
             (s1, Some err) \<Rightarrow> (s1, [(name, ''down: '' @ Error err)], False)
           | (s1, None) \<Rightarrow> (s1, [(name, ''ok'')], True)))"

definition Readiness :: "'s HealthHandler \<Rightarrow> 's handler" where
  "Readiness h c s =
     (case ping_check ''db'' (hh_DB h) s of (s1, e1, ok1) \<Rightarrow>
      case ping_check ''redis'' (hh_Redis h) s1 of (s2, e2, ok2) \<Rightarrow>
      case ping_check ''kafka'' (hh_Kafka h) s2 of (s3, e3, ok3) \<Rightarrow>
        (s3, if \<not> (ok1 \<and> ok2 \<and> ok3) then reply c 503 (Checks ''not_ready'' (e1 @ e2 @ e3))
             else resp_OK c (HealthData ''ready'' (e1 @ e2 @ e3))))"

record 's CheckoutHandler =
  ch_resolver :: "'s Checkouts"
  ch_tokenSecret :: string
  ch_clock :: "'s \<Rightarrow> int"

definition html_headers :: "Ctx \<Rightarrow> Ctx" where
  "html_headers c = set_header ''Cache-Control'' ''no-store'' (set_header ''Content-Type'' ''text/html; charset=utf-8'' c)"

definition sendNotReady :: "Ctx \<Rightarrow> Response" where
  "sendNotReady c = reply (set_header ''Retry-After'' ''2'' (html_headers c)) 503 (Html checkoutNotReadyHTML)"

definition sendNotFound :: "Ctx \<Rightarrow> Response" where
  "sendNotFound c = reply (html_headers c) 404 (Html checkoutNotFoundHTML)"

definition sendUnavailable :: "Ctx \<Rightarrow> Response" where
  "sendUnavailable c = reply (set_header ''Retry-After'' ''30'' (html_headers c)) 503 (Html (Sprintf_s checkoutErrorHTML (cx_RequestID c)))"

definition sendInvalid :: "Ctx \<Rightarrow> Response" where
  "sendInvalid c = reply (html_headers c) 410 (Html checkoutInvalidHTML)"

definition resolve_failed :: "Ctx \<Rightarrow> goerr \<Rightarrow> Response" where
  "resolve_failed c err =
     (if errors_Is err ErrOrderNotFound then sendNotFound c
      else if errors_Is err ErrOrderNotReady then sendNotReady c
      else sendUnavailable c)"

definition redirect_reply :: "Ctx \<Rightarrow> string \<Rightarrow> Response" where
  "redirect_reply c url =
     reply (set_header ''Location'' url (set_header ''Pragma'' ''no-cache''
       (set_header ''Cache-Control'' ''no-store, no-cache, must-revalidate, private'' c))) 302 (Redirect_to url)"

definition CheckoutHandler_Redirect :: "'s CheckoutHandler \<Rightarrow> 's handler" where
  "CheckoutHandler_Redirect h c s =
     (let merchantID = cx_Params c ''merchant_id''; orderID = cx_Params c ''order_id''; token = cx_Query c ''t''
      in if merchantID = [] \<or> orderID = [] then (s, sendInvalid c)
         else if ch_tokenSecret h \<noteq> [] \<and> (token = [] \<or> isl (token_Verify (ch_tokenSecret h) merchantID orderID token (ch_clock h s)))
         then (s, sendInvalid c)
         else case ck_Resolve (ch_resolver h) merchantID orderID s of
           (s1, Inl err) \<Rightarrow> (s1, resolve_failed c err)
         | (s1, Inr url) \<Rightarrow> (s1, redirect_reply c url))"

definition CheckoutHandler_Success :: "'s handler" where
  "CheckoutHandler_Success c s = (s, reply (html_headers c) 200 (Html (Sprintf_s checkoutSuccessHTML (cx_Query c ''order_id''))))"

definition CheckoutHandler_Cancel :: "'s handler" where
  "CheckoutHandler_Cancel c s = (s, reply (html_headers c) 200 (Html (Sprintf_s checkoutCancelHTML (cx_Query c ''order_id''))))"

section \<open>router.go\<close>

text \<open>
  A layer of the table: a middleware for the paths below a prefix, or a handler for a method and a
  pattern. The layers run in order; a middleware gets the rest of the table as its continuation.
\<close>

datatype 's layer = Use string "'s handler \<Rightarrow> 's handler" | Route string string "'s handler"

fun serve :: "fiber_lib \<Rightarrow> 's layer list \<Rightarrow> 's handler" where
  "serve lib [] c s = (s, fb_none lib c)"
| "serve lib (Use p m # ls) c s = (if fb_prefix lib p (cx_Path c) then m (serve lib ls) c s else serve lib ls c s)"
| "serve lib (Route meth pat h # ls) c s =
     (if cx_Method c = meth \<and> fb_match lib pat (cx_Path c) \<noteq> None
      then h (c\<lparr>cx_Params := the (fb_match lib pat (cx_Path c))\<rparr>) s
      else serve lib ls c s)"

record 's Deps =
  dp_Health :: "'s HealthHandler"
  dp_Payment :: "'s Payments option"
  dp_PaymentStatus :: "'s TransactionRepository option"
  dp_Refund :: "'s Webhooks option"
  dp_Webhook :: "'s Webhooks option"
  dp_Checkout :: "'s CheckoutHandler option"
  dp_Merchant :: "'s Merchants option"
  dp_Merchants :: "'s MerchantRepository option"
  dp_RateLimiter :: "(string \<Rightarrow> int \<Rightarrow> int \<Rightarrow> 's \<Rightarrow> 's \<times> (bool \<times> int) result) option"
  dp_HMACSkew :: int
  dp_AdminAPIKey :: string
  dp_clock :: "'s \<Rightarrow> int"
  dp_uuid :: "'s \<Rightarrow> string"

definition when_set :: "'a option \<Rightarrow> ('a \<Rightarrow> 'b list) \<Rightarrow> 'b list" where
  "when_set x f = (case x of None \<Rightarrow> [] | Some v \<Rightarrow> f v)"

definition public_routes :: "fiber_lib \<Rightarrow> 's Deps \<Rightarrow> 's layer list" where
  "public_routes lib d =
     [Route ''GET'' ''/healthz'' Liveness, Route ''GET'' ''/readyz'' (Readiness (dp_Health d)),
      Route ''GET'' ''/metrics'' (\<lambda>c s. (s, fb_metrics lib c))] @
     when_set (dp_Webhook d) (\<lambda>w. [Route ''POST'' ''/webhook/stripe'' (WebhookHandler_Stripe w)]) @
     when_set (dp_Checkout d) (\<lambda>k.
       [Route ''GET'' ''/pay/:merchant_id/:order_id'' (CheckoutHandler_Redirect k),
        Route ''GET'' ''/checkout/success'' CheckoutHandler_Success, Route ''GET'' ''/checkout/cancel'' CheckoutHandler_Cancel])"

definition merchant_routes :: "fiber_lib \<Rightarrow> 's Deps \<Rightarrow> 's layer list" where
  "merchant_routes lib d =
     when_set (dp_Payment d) (\<lambda>p. [Route ''POST'' ''/api/payments'' (PaymentHandler_Create lib p)]) @
     when_set (dp_PaymentStatus d) (\<lambda>p. [Route ''GET'' ''/api/payments/:id'' (PaymentStatusHandler_Get p)]) @
     when_set (dp_Refund d) (\<lambda>w. [Route ''POST'' ''/api/payments/:id/refund'' (RefundHandler_Create lib w)])"

definition admin_routes :: "fiber_lib \<Rightarrow> 's Deps \<Rightarrow> 's layer list" where
  "admin_routes lib d =
     (if dp_AdminAPIKey d \<noteq> []
      then when_set (dp_Merchant d) (\<lambda>m. [Use ''/admin'' (AdminAuth (dp_AdminAPIKey d)),
        Route ''POST'' ''/admin/merchants'' (MerchantHandler_Create lib m)])
      else [])"

definition NewRouter :: "fiber_lib \<Rightarrow> 's Deps \<Rightarrow> 's layer list" where
  "NewRouter lib d =
     [Use ''/'' (RequestID (dp_uuid d))] @ public_routes lib d @
     when_set (dp_Merchants d) (\<lambda>m. [Use ''/api'' (HMACAuth m (dp_HMACSkew d) (dp_clock d))]) @
     when_set (dp_RateLimiter d) (\<lambda>rl. [Use ''/api'' (RateLimit rl)]) @
     merchant_routes lib d @ admin_routes lib d"

section \<open>The chain of middlewares\<close>

text \<open>A request that carries a fresh signature of an active merchant over its body.\<close>

definition authentic :: "int \<Rightarrow> int \<Rightarrow> Ctx \<Rightarrow> Merchant \<Rightarrow> bool" where
  "authentic skew now c m \<longleftrightarrow>
     cx_Header c ''X-API-Key'' \<noteq> [] \<and> cx_Header c ''X-Timestamp'' \<noteq> [] \<and> cx_Header c ''X-Signature'' \<noteq> [] \<and>
     (\<exists>ts. ParseInt (cx_Header c ''X-Timestamp'') = Some ts \<and> abs64 (int64 (unix now - ts)) \<le> whole_seconds skew) \<and>
     m_Status m = MerchantStatusActive \<and>
     hmac_Verify (m_SecretKey m) (cx_Header c ''X-Timestamp'' @ ''.'' @ cx_Body c) (cx_Header c ''X-Signature'')"

lemma HMACAuth_authentic:
  assumes "mr_GetByAPIKey repo (cx_Header c ''X-API-Key'') s = (s1, Inr m)" "authentic skew (clock s) c m"
  shows "HMACAuth repo skew clock next c s = next (c\<lparr>cx_Merchant := Some m\<rparr>) s1"
  using assms by (auto simp: HMACAuth_def authentic_def Let_def)

lemma HMACAuth_refuses:
  assumes "\<nexists>m. snd (mr_GetByAPIKey repo (cx_Header c ''X-API-Key'') s) = Inr m \<and> authentic skew (clock s) c m"
  shows "fst (HMACAuth repo skew clock next c s) \<in> {s, fst (mr_GetByAPIKey repo (cx_Header c ''X-API-Key'') s)} \<and>
    rs_Status (snd (HMACAuth repo skew clock next c s)) = 401"
  using assms by (auto simp: HMACAuth_def authentic_def Let_def Unauthorized_def Fail_def reply_def split: option.split prod.split sum.split)

lemma authentic_cong:
  "cx_Header c' = cx_Header c \<Longrightarrow> cx_Body c' = cx_Body c \<Longrightarrow> authentic skew now c' m = authentic skew now c m"
  by (simp add: authentic_def)

text \<open>Routes that do not match are passed over.\<close>

definition passes :: "fiber_lib \<Rightarrow> Ctx \<Rightarrow> 's layer \<Rightarrow> bool" where
  "passes lib c l = (case l of Use p m \<Rightarrow> \<not> fb_prefix lib p (cx_Path c)
     | Route meth pat h \<Rightarrow> \<not> (cx_Method c = meth \<and> fb_match lib pat (cx_Path c) \<noteq> None))"

lemma serve_passes: "\<forall>l \<in> set ls. passes lib c l \<Longrightarrow> serve lib (ls @ ls') c s = serve lib ls' c s"
proof (induction ls)
  case (Cons l ls)
  then show ?case
    by (cases l) (auto simp: passes_def)
qed simp

text \<open>The patterns that are served without authentication.\<close>

definition public_patterns :: "string list" where
  "public_patterns = [''/healthz'', ''/readyz'', ''/metrics'', ''/webhook/stripe'', ''/pay/:merchant_id/:order_id'',
     ''/checkout/success'', ''/checkout/cancel'']"

text \<open>The path lies below \<open>/api\<close>; the matcher is that of the library, for which no public pattern matches such a path.\<close>

definition api_path :: "fiber_lib \<Rightarrow> string \<Rightarrow> bool" where
  "api_path lib path \<longleftrightarrow> fb_prefix lib ''/'' path \<and> fb_prefix lib ''/api'' path \<and> \<not> fb_prefix lib ''/admin'' path \<and>
     (\<forall>pat \<in> set public_patterns. fb_match lib pat path = None)"

definition tagged :: "'s Deps \<Rightarrow> Ctx \<Rightarrow> 's \<Rightarrow> Ctx" where
  "tagged d c s = (let i = (if cx_Header c ''X-Request-ID'' = [] then dp_uuid d s else cx_Header c ''X-Request-ID'')
     in (set_header ''X-Request-ID'' i c)\<lparr>cx_RequestID := i\<rparr>)"

lemma tagged_fields [simp]:
  "cx_Header (tagged d c s) = cx_Header c" "cx_Body (tagged d c s) = cx_Body c" "cx_Path (tagged d c s) = cx_Path c"
  "cx_Method (tagged d c s) = cx_Method c" "cx_Query (tagged d c s) = cx_Query c" "cx_Params (tagged d c s) = cx_Params c"
  "cx_Merchant (tagged d c s) = cx_Merchant c"
  by (simp_all add: tagged_def set_header_def Let_def)

lemma RequestID_tagged: "RequestID (dp_uuid d) next c s = next (tagged d c s) s"
  by (simp add: RequestID_def tagged_def Let_def)

lemma public_pass:
  assumes "api_path lib (cx_Path c)" "l \<in> set (public_routes lib d)"
  shows "passes lib c l"
  using assms by (auto simp: public_routes_def when_set_def passes_def api_path_def public_patterns_def split: option.splits)

lemma serve_api:
  assumes "api_path lib (cx_Path c)" "dp_Merchants d = Some repo"
  shows "serve lib (NewRouter lib d) c s =
    HMACAuth repo (dp_HMACSkew d) (dp_clock d)
      (serve lib (when_set (dp_RateLimiter d) (\<lambda>rl. [Use ''/api'' (RateLimit rl)]) @ merchant_routes lib d @ admin_routes lib d))
      (tagged d c s) s"
proof -
  have "serve lib (public_routes lib d @ ls) (tagged d c s) s = serve lib ls (tagged d c s) s" for ls
    by (rule serve_passes) (use assms(1) in \<open>auto intro: public_pass\<close>)
  then show ?thesis
    using assms by (simp add: NewRouter_def RequestID_tagged when_set_def api_path_def)
qed

section \<open>Properties of the merchant API\<close>

text \<open>C11. Nothing below \<open>/api\<close> happens without a signature: whatever the method, the query and the rest of the
  path, a request that does not carry a fresh signature of an active merchant over its body is
  answered with 401, and no service, limiter or order repository is called: at most the merchant
  lookup has run.\<close>

theorem api_needs_signature:
  assumes "api_path lib (cx_Path c)" and "dp_Merchants d = Some repo"
    and "\<nexists>m. snd (mr_GetByAPIKey repo (cx_Header c ''X-API-Key'') s) = Inr m \<and> authentic (dp_HMACSkew d) (dp_clock d s) c m"
  shows "fst (serve lib (NewRouter lib d) c s) \<in> {s, fst (mr_GetByAPIKey repo (cx_Header c ''X-API-Key'') s)} \<and>
    rs_Status (snd (serve lib (NewRouter lib d) c s)) = 401"
proof -
  have "authentic (dp_HMACSkew d) (dp_clock d s) (tagged d c s) m = authentic (dp_HMACSkew d) (dp_clock d s) c m" for m
    by (rule authentic_cong) simp_all
  then show ?thesis
    using HMACAuth_refuses [of repo "tagged d c s" s "dp_HMACSkew d" "dp_clock d"] assms(3)
    by (simp add: serve_api [OF assms(1,2)])
qed

text \<open>What the limiter does with an authenticated request: refuse it, or hand it on with two headers set.\<close>

definition limit_of :: "Merchant \<Rightarrow> int" where
  "limit_of m = (if m_RateLimit m \<le> 0 then 1000 else m_RateLimit m)"

definition within_limit :: "'s Deps \<Rightarrow> Merchant \<Rightarrow> 's \<Rightarrow> 's \<Rightarrow> bool" where
  "within_limit d m s s' \<longleftrightarrow> (case dp_RateLimiter d of
      None \<Rightarrow> s' = s
    | Some allow \<Rightarrow> (case allow (m_MerchantID m) (limit_of m) (60 * 1000000000) s of
        (s1, Inl e) \<Rightarrow> s' = s1
      | (s1, Inr (allowed, n)) \<Rightarrow> allowed \<and> s' = s1))"

lemma RateLimit_within:
  assumes "dp_RateLimiter d = Some allow" "cx_Merchant c = Some m" "within_limit d m s s'"
  obtains c' where "RateLimit allow next c s = next c' s'" "cx_Merchant c' = Some m" "cx_Path c' = cx_Path c" "cx_Method c' = cx_Method c"
    "cx_Query c' = cx_Query c" "cx_Header c' = cx_Header c" "cx_Body c' = cx_Body c" "cx_RequestID c' = cx_RequestID c"
proof (cases "allow (m_MerchantID m) (limit_of m) (60 * 1000000000) s")
  case (Pair s1 res)
  show thesis
  proof (cases res)
    case (Inl e)
    then show thesis
      using Pair assms by (intro that [of c]) (simp_all add: RateLimit_def within_limit_def limit_of_def Let_def)
  next
    case (Inr p)
    let ?c = "set_header ''X-RateLimit-Remaining'' (FormatInt (snd p)) (set_header ''X-RateLimit-Limit'' (FormatInt (limit_of m)) c)"
    have "cx_Merchant ?c = Some m" "cx_Path ?c = cx_Path c" "cx_Method ?c = cx_Method c" "cx_Query ?c = cx_Query c"
      "cx_Header ?c = cx_Header c" "cx_Body ?c = cx_Body c" "cx_RequestID ?c = cx_RequestID c"
      using assms(2) by (simp_all add: set_header_def)
    moreover have "RateLimit allow next c s = next ?c s'"
      using Pair Inr assms by (cases p) (simp add: RateLimit_def within_limit_def limit_of_def Let_def)
    ultimately show thesis
      by (intro that [of ?c])
  qed
qed

text \<open>An authenticated request within its limit reaches the routes of the merchant API as that merchant.\<close>

lemma serve_merchant:
  assumes "api_path lib (cx_Path c)" "dp_Merchants d = Some repo"
    and "mr_GetByAPIKey repo (cx_Header c ''X-API-Key'') s = (s1, Inr m)" "authentic (dp_HMACSkew d) (dp_clock d s) c m"
    and "within_limit d m s1 s2"
  obtains c' where "serve lib (NewRouter lib d) c s = serve lib (merchant_routes lib d @ admin_routes lib d) c' s2"
    "cx_Merchant c' = Some m" "cx_Path c' = cx_Path c" "cx_Method c' = cx_Method c" "cx_Query c' = cx_Query c"
    "cx_Header c' = cx_Header c" "cx_Body c' = cx_Body c" "cx_RequestID c' = cx_RequestID (tagged d c s)"
proof -
  let ?c = "(tagged d c s)\<lparr>cx_Merchant := Some m\<rparr>" and ?routes = "merchant_routes lib d @ admin_routes lib d"
  have "authentic (dp_HMACSkew d) (dp_clock d s) (tagged d c s) m"
    using assms(4) authentic_cong [of "tagged d c s" c] by simp
  then have auth: "serve lib (NewRouter lib d) c s =
      serve lib (when_set (dp_RateLimiter d) (\<lambda>rl. [Use ''/api'' (RateLimit rl)]) @ ?routes) ?c s1"
    using assms(3) by (simp add: serve_api [OF assms(1,2)] HMACAuth_authentic)
  show thesis
  proof (cases "dp_RateLimiter d")
    case None
    then show ?thesis
      using auth assms(5) by (intro that [of ?c]) (simp_all add: when_set_def within_limit_def)
  next
    case (Some allow)
    have m: "cx_Merchant ?c = Some m"
      by simp
    from RateLimit_within [OF Some m assms(5), of "serve lib ?routes"] obtain c' where
      c': "RateLimit allow (serve lib ?routes) ?c s1 = serve lib ?routes c' s2" "cx_Merchant c' = Some m" "cx_Path c' = cx_Path ?c"
        "cx_Method c' = cx_Method ?c" "cx_Query c' = cx_Query ?c" "cx_Header c' = cx_Header ?c" "cx_Body c' = cx_Body ?c"
        "cx_RequestID c' = cx_RequestID ?c"
      by metis
    then show ?thesis
      using auth Some assms(1) by (intro that [of c']) (simp_all add: when_set_def api_path_def)
  qed
qed

lemma GetByAPIKey_tables [simp]: "tables (fst (GetByAPIKey env r k s)) = tables s"
  by (simp add: GetByAPIKey_def query_merchant_def step_store_def split: prod.split option.split sum.split)

lemma redis_do_tables [simp]: "tables (fst (redis_do env cmd s)) = tables s"
  by (simp add: redis_do_def Let_def split: prod.split option.split)

lemma rate_Allow_tables [simp]: "tables (fst (rate_Allow env k n win s)) = tables s"
  using redis_do_tables [of env "slidingWindowScript (''rate:'' @ k) (rd_clock env (rd_calls s)) win n (FormatInt (rd_clock env (rd_calls s)))" s]
  by (auto simp: rate_Allow_def Let_def simp del: redis_do_tables split: prod.split sum.split)

lemma within_limit_tables:
  assumes "dp_RateLimiter d = Some (rate_Allow renv)" "within_limit d m s s'"
  shows "tables s' = tables s"
  using assms rate_Allow_tables [of renv "m_MerchantID m" "limit_of m" "60 * 1000000000" s]
  by (auto simp: within_limit_def simp del: rate_Allow_tables split: prod.splits sum.splits)

lemma status_handler:
  assumes "repo_good env r s" "cx_Merchant c = Some m" "router_known r (m_ShardIndex m)" "cx_Params c ''id'' = oid" "oid \<noteq> []"
  shows "\<exists>s' resp. PaymentStatusHandler_Get (NewTransactionRepository env r) c s = (s', resp) \<and> tables s' = tables s \<and>
    (if valid_order_id oid \<and> (\<exists>tid t. txn_view r s (m_ShardIndex m) tid = Some t \<and> is_order (env_coll env) (m_MerchantID m) oid t)
     then \<exists>t. txn_view r s (m_ShardIndex m) (t_TransactionID t) = Some t \<and> is_order (env_coll env) (m_MerchantID m) oid t \<and>
       rs_Status resp = 200 \<and> rs_Body resp = Data (StatusData (status_response t))
     else rs_Status resp = 404)"
proof (cases "valid_order_id oid")
  case False
  then obtain e where "ValidateOrderID oid = Inl e" "errors_Is e ErrInvalidOrderID"
    using ValidateOrderID_Inl [of oid] by (cases "ValidateOrderID oid") (auto simp: ValidateOrderID_Inr_iff)
  with False assms show ?thesis
    by (auto simp: PaymentStatusHandler_Get_def NewTransactionRepository_def GetByMerchantOrderID_def Fail_def reply_def)
next
  case True
  from txr.get_order [OF assms(1,3) True, of "m_MerchantID m", folded is_order_def] obtain s1 res where
    g: "GetByMerchantOrderID env r (m_ShardIndex m) (m_MerchantID m) oid s = (s1, res)"
    and res: "case res of Inr t \<Rightarrow> txn_view r s (m_ShardIndex m) (t_TransactionID t) = Some t \<and> is_order (env_coll env) (m_MerchantID m) oid t
      | Inl e \<Rightarrow> e = Sentinel ErrNotFound \<and> (\<forall>tid t. txn_view r s (m_ShardIndex m) tid = Some t \<longrightarrow> \<not> is_order (env_coll env) (m_MerchantID m) oid t)"
    by (elim exE conjE)
  have "tables s1 = tables s"
    using reads_tables(2) [of env r "m_ShardIndex m" "m_MerchantID m" oid s] g by simp
  with g res assms(2,4,5) True show ?thesis
    by (cases res)
      (auto simp: PaymentStatusHandler_Get_def NewTransactionRepository_def Fail_def resp_OK_def reply_def)
qed

text \<open>C12. A merchant sees its own orders and no others: an authenticated \<open>GET /api/payments/:id\<close> within the
  limit is answered with the stored transaction of that merchant and order id, or with 404 if the
  shard of the merchant holds none; the rows stay as they are.\<close>

theorem status_of_own_order:
  assumes "api_path lib (cx_Path c)" "cx_Method c = ''GET''" "fb_match lib ''/api/payments/:id'' (cx_Path c) = Some ps" "ps ''id'' \<noteq> []"
    and "dp_Merchants d = Some (NewMerchantRepository env r L)" "dp_PaymentStatus d = Some (NewTransactionRepository env r)"
      "dp_RateLimiter d = Some (rate_Allow renv)"
    and "GetByAPIKey env r (cx_Header c ''X-API-Key'') s = (s1, Inr m)" "authentic (dp_HMACSkew d) (dp_clock d s) c m"
      "within_limit d m s1 s2"
    and "repo_good env r s" "router_known r (m_ShardIndex m)"
  shows "\<exists>s' resp. serve lib (NewRouter lib d) c s = (s', resp) \<and> tables s' = tables s \<and>
    (if valid_order_id (ps ''id'') \<and>
        (\<exists>tid t. txn_view r s (m_ShardIndex m) tid = Some t \<and> is_order (env_coll env) (m_MerchantID m) (ps ''id'') t)
     then \<exists>t. txn_view r s (m_ShardIndex m) (t_TransactionID t) = Some t \<and> is_order (env_coll env) (m_MerchantID m) (ps ''id'') t \<and>
       rs_Status resp = 200 \<and> rs_Body resp = Data (StatusData (status_response t))
     else rs_Status resp = 404)"
proof -
  have api: "mr_GetByAPIKey (NewMerchantRepository env r L) (cx_Header c ''X-API-Key'') s = (s1, Inr m)"
    using assms(8) by (simp add: NewMerchantRepository_def)
  have "tables s1 = tables s"
    using GetByAPIKey_tables [of env r "cx_Header c ''X-API-Key''" s] assms(8) by simp
  then have t2: "tables s2 = tables s"
    using within_limit_tables [OF assms(7,10)] by simp
  then have good: "repo_good env r s2" and view: "txn_view r s2 = txn_view r s"
    using assms(11) repo_good_same [OF t2] txn_view_tables [OF t2] by simp_all
  obtain c' where c': "serve lib (NewRouter lib d) c s = serve lib (merchant_routes lib d @ admin_routes lib d) c' s2"
    "cx_Merchant c' = Some m" "cx_Path c' = cx_Path c" "cx_Method c' = cx_Method c"
    by (rule serve_merchant [OF assms(1,5) api assms(9,10)])
  have "serve lib (merchant_routes lib d @ admin_routes lib d) c' s2 =
      PaymentStatusHandler_Get (NewTransactionRepository env r) (c'\<lparr>cx_Params := ps\<rparr>) s2"
    using c' assms(2,3,6) by (simp add: merchant_routes_def when_set_def split: option.split)
  moreover have "cx_Merchant (c'\<lparr>cx_Params := ps\<rparr>) = Some m" "cx_Params (c'\<lparr>cx_Params := ps\<rparr>) ''id'' = ps ''id''"
    using c'(2) by simp_all
  note status_handler [OF good this(1) assms(12) this(2) assms(4), unfolded view t2]
  ultimately show ?thesis
    using c'(1) by (simp only:)
qed

section \<open>The signature does not cover the path\<close>


section \<open>Webhooks\<close>

definition webhooks_of :: "'x wiring \<Rightarrow> 'x gateway_scheme Webhooks" where
  "webhooks_of w = \<lparr>wk_Process = Process (NewWebhookService w), wk_CreateRefund = CreateRefund (NewWebhookService w)\<rparr>"

text \<open>C10. A webhook whose handling failed is lost. Once a delivery was taken on, whatever it was answered
  (400 for a failed cross-check or database, 500 for a missing order, both of which ask Stripe to
  retry), the retry with the same event id within 24 hours is answered with 200 and changes neither
  rows nor topic, as long as Redis keeps the key: Stripe stops retrying and only the reconciler can
  settle the order.\<close>

theorem webhook_retry_swallowed:
  assumes "verified w (cx_Body c) (cx_Header c ''Stripe-Signature'') s = Inr event" and "fresh_event w s event"
    and "rd_db s2 (dedup_key event) = rd_db (fst (WebhookHandler_Stripe (webhooks_of w) c s)) (dedup_key event)"
    and "verified w (cx_Body c2) (cx_Header c2 ''Stripe-Signature'') s2 = Inr event2" and "ev_ID event2 = ev_ID event"
    and "rd_fault (w_redis w) (rd_calls s2) = None"
    and "millis (rd_clock (w_redis w) (rd_calls s2)) \<le> millis (rd_clock (w_redis w) (rd_calls s)) + 86400000"
  shows "WebhookHandler_Stripe (webhooks_of w) c2 s2 = (s2\<lparr>rd_calls := Suc (rd_calls s2)\<rparr>, reply c2 200 Empty)"
proof -
  have "fst (WebhookHandler_Stripe (webhooks_of w) c s) =
      fst (Process (NewWebhookService w) (cx_Body c) (cx_Header c ''Stripe-Signature'') s)"
    by (simp add: WebhookHandler_Stripe_def webhooks_of_def split: prod.split sum.split)
  with webhook_replay [OF assms(1,2) _ assms(4-7)] assms(3) show ?thesis
    by (simp add: WebhookHandler_Stripe_def webhooks_of_def)
qed

section \<open>The hosted checkout\<close>

lemma token_open_iff:
  "token \<noteq> [] \<and> \<not> isl (token_Verify secret mid oid token now) \<longleftrightarrow>
    (\<exists>expiry. int64_range expiry \<and> unix now \<le> expiry \<and> token = signWithExpiry secret mid oid expiry)"
proof -
  have "\<not> isl (token_Verify secret mid oid token now) \<longleftrightarrow> token_Verify secret mid oid token now = Inr ()"
    by (cases "token_Verify secret mid oid token now") simp_all
  moreover have "token_Verify secret mid oid [] now \<noteq> Inr ()"
    by (simp add: token_Verify_def)
  ultimately show ?thesis
    using token_Verify_iff [of secret mid oid token now] by (cases token) auto
qed

lemma Redirect_guarded:
  assumes "ch_tokenSecret h \<noteq> []" "cx_Params c ''merchant_id'' = mid" "cx_Params c ''order_id'' = oid" "cx_Query c ''t'' = token"
  shows "CheckoutHandler_Redirect h c s =
    (if mid \<noteq> [] \<and> oid \<noteq> [] \<and>
        (\<exists>expiry. int64_range expiry \<and> unix (ch_clock h s) \<le> expiry \<and> token = signWithExpiry (ch_tokenSecret h) mid oid expiry)
     then case ck_Resolve (ch_resolver h) mid oid s of
       (s1, Inl err) \<Rightarrow> (s1, resolve_failed c err)
     | (s1, Inr url) \<Rightarrow> (s1, redirect_reply c url)
     else (s, sendInvalid c))"
  unfolding token_open_iff [symmetric] using assms by (auto simp: CheckoutHandler_Redirect_def Let_def)

text \<open>C13. Checkout links are guarded by their token: with a token secret configured, the resolver is asked only
  when the token is exactly the one the gateway signs for the merchant and the order in the path,
  with an expiry that has not passed; every other request is answered with 410 and changes nothing.\<close>

theorem checkout_link_guarded:
  assumes "ch_tokenSecret h \<noteq> []"
  shows "CheckoutHandler_Redirect h c s =
    (if cx_Params c ''merchant_id'' \<noteq> [] \<and> cx_Params c ''order_id'' \<noteq> [] \<and>
        (\<exists>expiry. int64_range expiry \<and> unix (ch_clock h s) \<le> expiry \<and>
           cx_Query c ''t'' = signWithExpiry (ch_tokenSecret h) (cx_Params c ''merchant_id'') (cx_Params c ''order_id'') expiry)
     then case ck_Resolve (ch_resolver h) (cx_Params c ''merchant_id'') (cx_Params c ''order_id'') s of
       (s1, Inl err) \<Rightarrow> (s1, resolve_failed c err)
     | (s1, Inr url) \<Rightarrow> (s1, redirect_reply c url)
     else (s, sendInvalid c))"
  by (rule Redirect_guarded [OF assms refl refl refl])

text \<open>C14. The links the payment service mints open the checkout: a request that follows the link made for a
  merchant and an order at instant \<open>t\<close> is redirected to whatever the resolver returns for that
  merchant and order until the second of \<open>t\<close> plus the token lifetime, and is answered with 410
  afterwards.\<close>

theorem minted_link_opens:
  assumes "lazyCheckoutURL ps mid oid t = ps_publicBaseURL ps @ ''/pay/'' @ mid @ ''/'' @ oid @ ''?t='' @ cx_Query c ''t''"
    and "cx_Params c ''merchant_id'' = mid" "cx_Params c ''order_id'' = oid" "mid \<noteq> []" "oid \<noteq> []"
    and "ch_tokenSecret h = ps_checkoutSecret ps" "ps_checkoutSecret ps \<noteq> []" "int64_range (unix (t + ps_checkoutTokenTTL ps))"
  shows "CheckoutHandler_Redirect h c s =
    (if unix (ch_clock h s) \<le> unix (t + ps_checkoutTokenTTL ps)
     then case ck_Resolve (ch_resolver h) mid oid s of
       (s1, Inl err) \<Rightarrow> (s1, resolve_failed c err)
     | (s1, Inr url) \<Rightarrow> (s1, redirect_reply c url)
     else (s, sendInvalid c))"
proof -
  let ?token = "token_Sign (ps_checkoutSecret ps) mid oid (ps_checkoutTokenTTL ps) t"
  have token: "cx_Query c ''t'' = ?token"
    using assms(1,7) by (auto simp: lazyCheckoutURL_def Let_def split: if_splits)
  have "token_Verify (ps_checkoutSecret ps) mid oid ?token (ch_clock h s) =
      (if unix (ch_clock h s) > unix (t + ps_checkoutTokenTTL ps) then Inl (Sentinel ErrExpired) else Inr ())"
    unfolding token_Sign_def by (rule token_Verify_signed [OF assms(8)])
  then have "(\<exists>expiry. int64_range expiry \<and> unix (ch_clock h s) \<le> expiry \<and> ?token = signWithExpiry (ps_checkoutSecret ps) mid oid expiry) \<longleftrightarrow>
      unix (ch_clock h s) \<le> unix (t + ps_checkoutTokenTTL ps)"
    using token_Verify_iff [of "ps_checkoutSecret ps" mid oid ?token "ch_clock h s"] by (simp split: if_splits)
  with Redirect_guarded [of h c mid oid ?token s] assms(2-7) token show ?thesis
    by simp
qed

section \<open>The pages reflect the order id\<close>

text \<open>C38. The success page repeats the query parameter \<open>order_id\<close> unescaped: whatever the browser sent,
  markup included, appears verbatim between two fixed parts of the HTML.\<close>

theorem success_page_reflects:
  "\<exists>a b. \<forall>c s. rs_Body (snd (CheckoutHandler_Success c s)) = Html (a @ cx_Query c ''order_id'' @ b)"
proof -
  have "Contains ''    <div class=\"ref\">order: %s</div>'' ''%s''"
    by simp
  then have "Contains checkoutSuccessHTML ''%s''"
    unfolding checkoutSuccessHTML_def by (rule Contains_page [rotated]) simp
  from Sprintf_s_split [OF this] show ?thesis
    by (auto simp: CheckoutHandler_Success_def reply_def)
qed

section \<open>The admin API\<close>

definition admin_path :: "fiber_lib \<Rightarrow> string \<Rightarrow> bool" where
  "admin_path lib path \<longleftrightarrow> fb_prefix lib ''/'' path \<and> fb_prefix lib ''/admin'' path \<and> \<not> fb_prefix lib ''/api'' path \<and>
     (\<forall>pat \<in> set public_patterns. fb_match lib pat path = None) \<and>
     fb_match lib ''/api/payments'' path = None \<and> fb_match lib ''/api/payments/:id'' path = None \<and>
     fb_match lib ''/api/payments/:id/refund'' path = None"

lemma serve_admin:
  assumes "admin_path lib (cx_Path c)"
  shows "serve lib (NewRouter lib d) c s = serve lib (admin_routes lib d) (tagged d c s) s"
proof -
  let ?ls = "public_routes lib d @ when_set (dp_Merchants d) (\<lambda>m. [Use ''/api'' (HMACAuth m (dp_HMACSkew d) (dp_clock d))]) @
     when_set (dp_RateLimiter d) (\<lambda>rl. [Use ''/api'' (RateLimit rl)]) @ merchant_routes lib d"
  have "\<forall>l \<in> set ?ls. passes lib (tagged d c s) l"
    using assms by (auto simp: public_routes_def merchant_routes_def when_set_def passes_def admin_path_def public_patterns_def split: option.splits)
  from serve_passes [OF this, of "admin_routes lib d" s] assms show ?thesis
    by (simp add: NewRouter_def RequestID_tagged admin_path_def)
qed


section \<open>A small deployment\<close>

text \<open>A matcher that splits paths at the slashes, as the witnesses need it.\<close>

fun match_segments :: "string list \<Rightarrow> string list \<Rightarrow> (string \<Rightarrow> string) option" where
  "match_segments [] [] = Some (\<lambda>_. [])"
| "match_segments (p # ps) (x # xs) =
     (case match_segments ps xs of
        None \<Rightarrow> None
      | Some f \<Rightarrow> if HasPrefix p '':'' then Some (f(tl p := x)) else if p = x then Some f else None)"
| "match_segments _ _ = None"

definition segments :: "string \<Rightarrow> string list" where
  "segments path = filter (\<lambda>x. x \<noteq> []) (Split path (CHR ''/''))"

definition demo_fiber :: fiber_lib where
  "demo_fiber = \<lparr>fb_payment = (\<lambda>c. Inl (ErrNew ''json'')), fb_refund = (\<lambda>c. Inl (ErrNew ''json'')), fb_merchant = (\<lambda>c. Inl (ErrNew ''json'')),
     fb_prefix = (\<lambda>p path. take (length (segments p)) (segments path) = segments p),
     fb_match = (\<lambda>p path. match_segments (segments p) (segments path)),
     fb_none = (\<lambda>c. reply c 404 Empty), fb_metrics = (\<lambda>c. reply c 200 Empty)\<rparr>"

definition demo_ctx :: "string \<Rightarrow> string \<Rightarrow> (string \<times> string) list \<Rightarrow> Ctx" where
  "demo_ctx meth path hs = \<lparr>cx_Method = meth, cx_Path = path, cx_Header = (\<lambda>k. case map_of hs k of None \<Rightarrow> [] | Some v \<Rightarrow> v),
     cx_Query = (\<lambda>_. []), cx_Params = (\<lambda>_. []), cx_Body = [], cx_Merchant = None, cx_RequestID = [], cx_Out = []\<rparr>"

definition demo_limits :: redis_env where
  "demo_limits = \<lparr>rd_fault = (\<lambda>n. None), rd_clock = (\<lambda>n. int n * 1000000000), rd_uuid = (\<lambda>n. [])\<rparr>"

definition demo_deps :: "gateway Deps" where
  "demo_deps = \<lparr>dp_Health = \<lparr>hh_DB = None, hh_Redis = None, hh_Kafka = None\<rparr>, dp_Payment = None,
     dp_PaymentStatus = Some (NewTransactionRepository demo_env demo_router), dp_Refund = Some (webhooks_of (demo_wiring ''succeeded'')),
     dp_Webhook = Some (webhooks_of (demo_wiring ''succeeded'')), dp_Checkout = None, dp_Merchant = None,
     dp_Merchants = Some (NewMerchantRepository demo_env demo_router 4), dp_RateLimiter = Some (rate_Allow demo_limits),
     dp_HMACSkew = 300000000000, dp_AdminAPIKey = ''k'', dp_clock = (\<lambda>s. 1700000000 * 1000000000), dp_uuid = (\<lambda>s. ''u'')\<rparr>"

text \<open>The headers of a signed request of the merchant M1 with an empty body.\<close>

definition demo_headers :: "(string \<times> string) list" where
  "demo_headers = [(''X-API-Key'', m_APIKey (demo_payer ''M1'')), (''X-Timestamp'', FormatInt 1700000000),
     (''X-Signature'', hmac_Sign (m_SecretKey (demo_payer ''M1'')) (FormatInt 1700000000 @ ''.''))]"

lemma demo_api_path: "api_path demo_fiber ''/api/payments/o-1''" "api_path demo_fiber ''/api/payments/o-1/refund''"
  by code_simp+

lemma demo_match:
  "fb_match demo_fiber ''/api/payments/:id'' ''/api/payments/o-1'' = Some ((\<lambda>_. [])(''id'' := ''o-1''))"
  "fb_match demo_fiber ''/api/payments/:id/refund'' ''/api/payments/o-1/refund'' = Some ((\<lambda>_. [])(''id'' := ''o-1''))"
  "fb_match demo_fiber ''/api/payments'' ''/api/payments/o-1/refund'' = None"
  by (simp_all add: demo_fiber_def segments_def)

lemma demo_key: "snd (GetByAPIKey demo_env demo_router ''k-M1'' demo_gateway) = Inr (demo_payer ''M1'')"
  by (simp add: GetByAPIKey_def query_merchant_def scanMerchant_def demo_gateway_def demo_env_def lru_get_def newLRUCache_def
      demo_payer_def demo_merchant_def)

lemma demo_authentic: "authentic 300000000000 (1700000000 * 1000000000) (demo_ctx meth path demo_headers) (demo_payer ''M1'')"
proof -
  have "ParseInt (FormatInt 1700000000) = Some 1700000000"
    by (rule ParseInt_FormatInt) (simp add: int64_range_def)
  moreover from this have "FormatInt 1700000000 \<noteq> []"
    by (auto simp: ParseInt_def ParseUint_def)
  moreover have "hmac_Sign k p \<noteq> []" for k p
    using length_hmac_Sign [of k p] by (auto simp del: length_hmac_Sign)
  moreover have "ToLower (hmac_Sign k p) = hmac_Sign k p" for k p
    by (simp add: hmac_Sign_def ToLower_EncodeToString)
  ultimately show ?thesis
    by (simp add: authentic_def demo_ctx_def demo_headers_def demo_payer_def demo_merchant_def unix_def abs64_def whole_seconds_def
        int64_def hmac_Verify_iff)
qed

lemma demo_header_key: "cx_Header (demo_ctx meth path demo_headers) ''X-API-Key'' = ''k-M1''"
  by (simp add: demo_ctx_def demo_headers_def demo_payer_def demo_merchant_def)

lemma demo_deps_simps [simp]:
  "dp_Merchants demo_deps = Some (NewMerchantRepository demo_env demo_router 4)" "dp_HMACSkew demo_deps = 300000000000"
  "dp_PaymentStatus demo_deps = Some (NewTransactionRepository demo_env demo_router)" "dp_RateLimiter demo_deps = Some (rate_Allow demo_limits)"
  "dp_clock demo_deps s = 1700000000 * 1000000000" "dp_Refund demo_deps = Some (webhooks_of (demo_wiring ''succeeded''))"
  "dp_AdminAPIKey demo_deps = ''k''"
  by (simp_all add: demo_deps_def)

lemma demo_signed:
  obtains s1 s2 where "GetByAPIKey demo_env demo_router ''k-M1'' demo_gateway = (s1, Inr (demo_payer ''M1''))"
    "within_limit demo_deps (demo_payer ''M1'') s1 s2"
proof -
  define s1 where "s1 = fst (GetByAPIKey demo_env demo_router ''k-M1'' demo_gateway)"
  have 1: "GetByAPIKey demo_env demo_router ''k-M1'' demo_gateway = (s1, Inr (demo_payer ''M1''))"
    using demo_key by (simp add: s1_def prod_eq_iff)
  have "rd_db s1 = (\<lambda>k. None)" "rd_calls s1 = 0"
    by (simp_all add: s1_def GetByAPIKey_def query_merchant_def scanMerchant_def demo_gateway_def demo_env_def lru_get_def newLRUCache_def
      demo_payer_def demo_merchant_def step_store_def)
  then have "\<exists>s2 n. rate_Allow demo_limits ''M1'' 1000 60000000000 s1 = (s2, Inr (True, n))"
    by (simp add: rate_Allow_def redis_do_def demo_limits_def slidingWindowScript_def zset_of_def live_def zremrange_def Let_def
        dbl_exact)
  then obtain s2 n where "rate_Allow demo_limits ''M1'' 1000 60000000000 s1 = (s2, Inr (True, n))"
    by blast
  then show thesis
    using 1 by (intro that [of s1 s2]) (simp_all add: within_limit_def limit_of_def demo_payer_def demo_merchant_def)
qed

theorem status_of_own_order_witness:
  "\<exists>s' resp t. serve demo_fiber (NewRouter demo_fiber demo_deps) (demo_ctx ''GET'' ''/api/payments/o-1'' demo_headers) demo_gateway = (s', resp) \<and>
    rs_Status resp = 200 \<and> rs_Body resp = Data (StatusData (status_response t)) \<and> EqualFold (t_MerchantID t) ''M1''"
proof -
  let ?c = "demo_ctx ''GET'' ''/api/payments/o-1'' demo_headers" and ?ps = "(\<lambda>_. [])(''id'' := ''o-1'')"
  have c: "cx_Path ?c = ''/api/payments/o-1''" "cx_Method ?c = ''GET''"
    by (simp_all add: demo_ctx_def)
  have m: "m_ShardIndex (demo_payer ''M1'') = 3" "m_MerchantID (demo_payer ''M1'') = ''M1''"
    by (simp_all add: demo_payer_def demo_merchant_def)
  obtain s1 s2 where s: "GetByAPIKey demo_env demo_router ''k-M1'' demo_gateway = (s1, Inr (demo_payer ''M1''))"
    "within_limit demo_deps (demo_payer ''M1'') s1 s2"
    by (rule demo_signed)
  have coll: "env_coll demo_env = EqualFold"
    by (simp add: demo_env_def)
  have "valid_order_id (?ps ''id'') \<and> (\<exists>tid t. txn_view demo_router demo_gateway (m_ShardIndex (demo_payer ''M1'')) tid = Some t \<and>
      is_order (env_coll demo_env) (m_MerchantID (demo_payer ''M1'')) (?ps ''id'') t)"
    using demo_oid demo_gateway_row demo_gateway_order by (auto simp: m)
  from status_of_own_order [of demo_fiber ?c ?ps demo_deps demo_env demo_router 4 demo_limits demo_gateway s1 "demo_payer ''M1''" s2,
      unfolded if_P [OF this]] show ?thesis
    using c s demo_api_path demo_match demo_gateway_good demo_authentic [of "''GET''" "''/api/payments/o-1''"] demo_known [of 3]
    by (auto simp: demo_header_key m is_order_def coll)
qed


theorem api_needs_signature_witness:
  "rs_Status (snd (serve demo_fiber (NewRouter demo_fiber demo_deps) (demo_ctx ''GET'' ''/api/payments/o-1'' []) demo_gateway)) = 401"
proof -
  have "cx_Path (demo_ctx ''GET'' ''/api/payments/o-1'' []) = ''/api/payments/o-1''"
    "cx_Header (demo_ctx ''GET'' ''/api/payments/o-1'' []) k = []" for k
    by (simp_all add: demo_ctx_def)
  then show ?thesis
    using api_needs_signature [of demo_fiber "demo_ctx ''GET'' ''/api/payments/o-1'' []" demo_deps _ demo_gateway, OF _ demo_deps_simps(1)]
      demo_api_path(1) by (simp add: authentic_def)
qed


definition demo_delivery :: Ctx where
  "demo_delivery = demo_ctx ''POST'' ''/webhook/stripe'' [(''Stripe-Signature'', ''whsec'')]"

theorem webhook_retry_swallowed_witness:
  "\<exists>s2. s2 = fst (WebhookHandler_Stripe (webhooks_of (demo_wiring ''processing'')) demo_delivery demo_gateway) \<and>
    rs_Status (snd (WebhookHandler_Stripe (webhooks_of (demo_wiring ''processing'')) demo_delivery demo_gateway)) = 400 \<and>
    rs_Status (snd (WebhookHandler_Stripe (webhooks_of (demo_wiring ''processing'')) demo_delivery s2)) = 200"
proof -
  let ?w = "demo_wiring ''processing''"
  let ?H = "WebhookHandler_Stripe (webhooks_of ?w) demo_delivery"
  have c: "cx_Body demo_delivery = []" "cx_Header demo_delivery ''Stripe-Signature'' = ''whsec''"
    by (simp_all add: demo_delivery_def demo_ctx_def)
  have first: "?H demo_gateway = (fst (?H demo_gateway), snd (?H demo_gateway))" "rs_Status (snd (?H demo_gateway)) = 400" "rd_calls (fst (?H demo_gateway)) = 1"
    using demo_verified [of "''processing''" "[]"] demo_fresh [of "''processing''"]
    by (simp_all add: WebhookHandler_Stripe_def webhooks_of_def c Process_fresh)
      (simp_all add: dispatch_def demo_event_def handleSucceeded_def decodeStripeObject_def cross_check_def intent_of_def demo_wiring_def
        demo_object_def meta_def demo_signed_def NewWebhookService_def gateway_stripe_def lift_client_def lift_port_def reply_def
        noted_def demo_gateway_def)
  have "?H (fst (?H demo_gateway)) = ((fst (?H demo_gateway))\<lparr>rd_calls := Suc (rd_calls (fst (?H demo_gateway)))\<rparr>, reply demo_delivery 200 Empty)"
    by (rule webhook_retry_swallowed [where w = ?w and c = demo_delivery and s = demo_gateway, OF _ demo_fresh refl])
      (use first(3) demo_verified in \<open>simp_all add: c demo_wiring_def demo_gateway_def millis_def\<close>)
  then show ?thesis
    using first(2) by (simp add: reply_def)
qed

definition demo_page :: "unit CheckoutHandler" where
  "demo_page = \<lparr>ch_resolver = \<lparr>ck_Resolve = (\<lambda>m o' s. (s, Inr (''https://pay/'' @ o')))\<rparr>, ch_tokenSecret = ''secret'',
     ch_clock = (\<lambda>s. 1700000000 * 1000000000)\<rparr>"

theorem checkout_link_guarded_witness:
  "CheckoutHandler_Redirect demo_page (demo_ctx ''GET'' ''/pay/M1/o-1'' []) () = ((), sendInvalid (demo_ctx ''GET'' ''/pay/M1/o-1'' []))"
  using checkout_link_guarded [of demo_page "demo_ctx ''GET'' ''/pay/M1/o-1'' []" "()"]
  by (simp add: demo_page_def demo_ctx_def)

definition demo_minter :: paymentService where
  "demo_minter = \<lparr>ps_currency = ''usd'', ps_cryptoContract = [], ps_cryptoChainID = 1, ps_lazyCheckout = True, ps_publicBaseURL = ''https://gw'',
     ps_checkoutSecret = ''secret'', ps_checkoutTokenTTL = 60 * 1000000000, ps_defaultSuccessURL = [], ps_defaultCancelURL = []\<rparr>"

definition demo_follow :: Ctx where
  "demo_follow = (demo_ctx ''GET'' ''/pay/M1/o-1'' [])\<lparr>cx_Params := (\<lambda>_. [])(''merchant_id'' := ''M1'', ''order_id'' := ''o-1''),
     cx_Query := (\<lambda>_. [])(''t'' := token_Sign ''secret'' ''M1'' ''o-1'' (60 * 1000000000) (1700000000 * 1000000000))\<rparr>"

theorem minted_link_opens_witness:
  "rs_Status (snd (CheckoutHandler_Redirect demo_page demo_follow ())) = 302"
proof -
  let ?t = "1700000000 * 1000000000"
  have "token_Sign k m o' l n \<noteq> []" for k m o' l n
    by (simp add: token_Sign_def signWithExpiry_def)
  then have "lazyCheckoutURL demo_minter ''M1'' ''o-1'' ?t =
      ps_publicBaseURL demo_minter @ ''/pay/'' @ ''M1'' @ ''/'' @ ''o-1'' @ ''?t='' @ cx_Query demo_follow ''t''"
    by (simp add: lazyCheckoutURL_def demo_minter_def demo_follow_def Let_def)
  from minted_link_opens [OF this, of demo_page "()"] show ?thesis
    by (simp add: demo_follow_def demo_page_def demo_minter_def int64_range_def unix_def redirect_reply_def reply_def)
qed

end
