(* ===== verification/Server.thy ===== *)
theory Server
  imports Api Reconciliation ChainListener Settlement
begin

text \<open>
  \<^verbatim>\<open>cmd/server/main.go\<close>: the start of the server, its services wired together from the configuration, and
  the events that drive it (HTTP requests, messages of the settlement consumer, ticks of the order
  reconciler, turns of the chain listener). The locales \<open>service_frame\<close> and \<open>api_frame\<close> show what services and handlers leave alone if
  their ports do; their interpretations on the wired server show that no sequence of events removes
  or rewrites a stored transaction.
\<close>

section \<open>Start and wiring\<close>

text \<open>
  What the process gets from outside: the configuration file, the drivers (a pool is named by a
  number), the environments of the database, Redis and Kafka models, the Stripe SDK and the circuit
  breaker, the Ethereum client library, random bytes, and what happens elsewhere during a pause.
\<close>

record 'x server_ports =
  sp_yaml :: "string \<Rightarrow> rawConfig result"
  sp_duration :: "string \<Rightarrow> int result"
  sp_sqlOpen :: "string \<Rightarrow> nat result"
  sp_pingDB :: "nat \<Rightarrow> unit result"
  sp_pingRedis :: "RedisConfig \<Rightarrow> goerr option"
  sp_dialAdmin :: "string \<Rightarrow> 'x \<Rightarrow> 'x \<times> 'x adminConn result"
  sp_dialBroker :: "string \<Rightarrow> 'x \<Rightarrow> 'x \<times> 'x brokerConn result"
  sp_env :: db_env
  sp_redis :: redis_env
  sp_round :: "rat \<Rightarrow> rat"
  sp_marshal :: "PaymentConfirmedEvent \<Rightarrow> string result"
  sp_kafka :: "nat \<Rightarrow> goerr option"
  sp_sdk :: "'x sdk"
  sp_rnd :: "nat \<Rightarrow> 'x \<Rightarrow> 'x \<times> string"
  sp_unmarshal :: "string \<Rightarrow> Event result"
  sp_decode :: "string \<Rightarrow> stripeObject result"
  sp_clock :: "'x \<Rightarrow> int"
  sp_ExecuteCS :: "('x \<Rightarrow> 'x \<times> CheckoutSession result) \<Rightarrow> 'x \<Rightarrow> 'x \<times> CheckoutSession result"
  sp_ExecutePI :: "('x \<Rightarrow> 'x \<times> PaymentIntent result) \<Rightarrow> 'x \<Rightarrow> 'x \<times> PaymentIntent result"
  sp_ExecuteRF :: "('x \<Rightarrow> 'x \<times> Refund result) \<Rightarrow> 'x \<Rightarrow> 'x \<times> Refund result"
  sp_eth :: eth_lib
  sp_HexToAddress :: "string \<Rightarrow> string"
  sp_dial :: "string \<Rightarrow> 'x \<Rightarrow> 'x \<times> 'x ChainClient result"
  sp_rand :: "'x chain_store_scheme \<Rightarrow> string result \<times> string result"
  sp_uuid :: "'x chain_store_scheme \<Rightarrow> string"
  sp_sleep :: "int \<Rightarrow> 'x chain_store_scheme \<Rightarrow> 'x chain_store_scheme"
  sp_ctxErr :: "'x chain_store_scheme \<Rightarrow> goerr option"
  sp_select :: "'x chain_store_scheme \<Rightarrow> 'x chain_store_scheme \<times> goerr option"
  sp_logs :: "'x chain_store_scheme \<Rightarrow> 'x chain_store_scheme \<times> sub_event"
  sp_NewRequest :: "string \<Rightarrow> goerr option"
  sp_Do :: "callback_request \<Rightarrow> 'x \<Rightarrow> 'x \<times> int result"
  sp_event :: "string \<Rightarrow> PaymentConfirmedEvent result"
  sp_wait :: "int \<Rightarrow> 'x chain_store_scheme \<Rightarrow> 'x chain_store_scheme \<times> goerr option"

text \<open>The server once \<^verbatim>\<open>run\<close> has opened its connections; \<open>sv_chain\<close> is \<^const>\<open>None\<close> while the listener is disabled.\<close>

record 'x Server =
  sv_cfg :: Config
  sv_router :: "nat multiShardRouter"
  sv_chain :: "'x ChainClient option"

definition NewRedis :: "(RedisConfig \<Rightarrow> goerr option) \<Rightarrow> RedisConfig \<Rightarrow> unit result" where
  "NewRedis ping cfg = (case ping cfg of Some err \<Rightarrow> Inl (Wrapf ''ping redis'' err) | None \<Rightarrow> Inr ())"

definition pool_router :: "'db Pool multiShardRouter \<Rightarrow> 'db multiShardRouter" where
  "pool_router r = \<lparr>pools = map pool_DB (pools r), logicalToDB = map pool_DB (logicalToDB r), logicalCount = logicalCount r\<rparr>"

definition dial_chain :: "'x server_ports \<Rightarrow> BlockchainConfig \<Rightarrow> 'x \<Rightarrow> 'x \<times> 'x ChainClient option" where
  "dial_chain P cfg x =
     (if chain_ContractAddress cfg \<noteq> [] \<and> chain_RPCWebsocket cfg \<noteq> []
      then (case chain_NewClient (sp_dial P) (chain_RPCWebsocket cfg) (chain_RPCHTTP cfg) x of
              (x', Inl _) \<Rightarrow> (x', None)
            | (x', Inr client) \<Rightarrow> (x', Some client))
      else (x, None))"

definition start :: "'x server_ports \<Rightarrow> string \<Rightarrow> 'x \<Rightarrow> 'x \<times> 'x Server result" where
  "start P configPath x =
     (case Load (sp_yaml P) (sp_duration P) configPath of
        Inl e \<Rightarrow> (x, Inl (Wrapf ''load config'' e))
      | Inr cfg \<Rightarrow>
     (case snd (OpenShards (sp_sqlOpen P) (sp_pingDB P) (c_DB cfg) (app_LogicalShardCount (c_App cfg))) of
        Inl e \<Rightarrow> (x, Inl (Wrapf ''mysql shards'' e))
      | Inr r \<Rightarrow>
     (case NewRedis (sp_pingRedis P) (c_Redis cfg) of
        Inl e \<Rightarrow> (x, Inl (Wrapf ''redis'' e))
      | Inr _ \<Rightarrow>
     (case dial_chain P (c_Blockchain cfg) (ensureTopics (sp_dialAdmin P) (kafka_Brokers (c_Kafka cfg)) [kafka_TopicConfirmed (c_Kafka cfg)] x) of
        (x', chain) \<Rightarrow> (x', Inr \<lparr>sv_cfg = cfg, sv_router = pool_router r, sv_chain = chain\<rparr>)))))"

text \<open>The caches of a fresh process; the merchant cache is made by its repository.\<close>

definition server_urls :: urlCache where
  "server_urls = NewURLCache 10000 (5 * 1000000000)"

definition stripe_client :: "'x server_ports \<Rightarrow> StripeConfig \<Rightarrow> 'x StripeClient" where
  "stripe_client P cfg =
     NewBreakerClient (sp_ExecuteCS P) (sp_ExecutePI P) (sp_ExecuteRF P)
       (if stripe_Mode cfg = ''fake'' then NewFake (sp_rnd P) (sp_unmarshal P) (sp_clock P)
        else NewClient (sp_sdk P) (sp_unmarshal P) (sp_clock P) (stripe_WebhookSecret cfg))"

definition server_stripe :: "'x server_ports \<Rightarrow> 'x Server \<Rightarrow> 'x chain_store_scheme StripeClient" where
  "server_stripe P v =
     lift_client chain_store.more (\<lambda>x. chain_store.more_update (\<lambda>_. x)) (stripe_client P (c_Stripe (sv_cfg v)))"

definition server_orders :: "'x server_ports \<Rightarrow> 'x Server \<Rightarrow> 'x chain_store_scheme TransactionRepository" where
  "server_orders P v = NewTransactionRepository (sp_env P) (sv_router v)"

definition server_merchants :: "'x server_ports \<Rightarrow> 'x Server \<Rightarrow> 'x chain_store_scheme MerchantRepository" where
  "server_merchants P v = NewMerchantRepository (sp_env P) (sv_router v) (app_LogicalShardCount (c_App (sv_cfg v)))"

definition server_now :: "'x server_ports \<Rightarrow> 'x chain_store_scheme \<Rightarrow> int" where
  "server_now P s = env_clock (sp_env P) (stmts s)"

definition stripe_bucket :: "AppConfig \<Rightarrow> redisTokenBucket" where
  "stripe_bucket cfg = NewTokenBucket ''stripe:create_session'' (app_StripeRateLimit cfg) (of_int (app_StripeRateLimit cfg))"

definition payment_options :: "Config \<Rightarrow> paymentService" where
  "payment_options cfg = \<lparr>
     ps_currency = stripe_DefaultCurrency (c_Stripe cfg),
     ps_cryptoContract = chain_ContractAddress (c_Blockchain cfg),
     ps_cryptoChainID = chain_ChainID (c_Blockchain cfg),
     ps_lazyCheckout = app_LazyCheckout (c_App cfg),
     ps_publicBaseURL = app_PublicBaseURL (c_App cfg),
     ps_checkoutSecret = app_CheckoutTokenSecret (c_App cfg),
     ps_checkoutTokenTTL = app_CheckoutTokenTTL (c_App cfg),
     ps_defaultSuccessURL = app_CheckoutDefaultSuccessURL (c_App cfg),
     ps_defaultCancelURL = app_CheckoutDefaultCancelURL (c_App cfg)\<rparr>"

definition server_payments :: "'x server_ports \<Rightarrow> 'x Server \<Rightarrow> 'x chain_store_scheme Payments" where
  "server_payments P v = \<lparr>pm_Create = payment_Create (server_stripe P v) (server_orders P v) (server_now P)
     (NewPaymentService (payment_options (sv_cfg v)))\<rparr>"

definition server_registry :: "'x server_ports \<Rightarrow> 'x Server \<Rightarrow> 'x chain_store_scheme Merchants" where
  "server_registry P v = \<lparr>me_Create = (\<lambda>inp s.
     case sp_rand P s of (rand1, rand2) \<Rightarrow> merchant_Create (mr_Insert (server_merchants P v)) rand1 rand2 inp s)\<rparr>"

definition server_webhook :: "'x server_ports \<Rightarrow> 'x Server \<Rightarrow> 'x chain_store_scheme webhookService" where
  "server_webhook P v = \<lparr>
     wh_stripe = server_stripe P v, wh_repo = server_orders P v, wh_merchants = server_merchants P v,
     wh_publisher = NewPublisher (sp_marshal P) (sp_kafka P), wh_SetNX = SetNX (sp_redis P),
     wh_webhookSecret = stripe_WebhookSecret (c_Stripe (sv_cfg v)), wh_decode = sp_decode P, wh_clock = server_now P\<rparr>"

definition server_webhooks :: "'x server_ports \<Rightarrow> 'x Server \<Rightarrow> 'x chain_store_scheme Webhooks" where
  "server_webhooks P v = \<lparr>wk_Process = Process (server_webhook P v), wk_CreateRefund = CreateRefund (server_webhook P v)\<rparr>"

definition server_resolver :: "'x server_ports \<Rightarrow> 'x Server \<Rightarrow> 'x chain_store_scheme checkoutResolver" where
  "server_resolver P v = \<lparr>
     cr_stripe = server_stripe P v, cr_repo = server_orders P v, cr_merchants = server_merchants P v,
     cr_Acquire = Acquire (sp_redis P), cr_Release = Release (sp_redis P),
     cr_urlCache = Some \<lparr>uc_Get = (\<lambda>k s. url_Get (server_now P s) k (urls s)),
                         uc_Put = (\<lambda>k url s. s\<lparr>urls := url_Put (server_now P s) k url (urls s)\<rparr>)\<rparr>,
     cr_bucket = Some (tb_Allow (sp_round P) (sp_redis P) (stripe_bucket (c_App (sv_cfg v)))),
     cr_sleep = sp_sleep P,
     cr_defaultSuccessURL = app_CheckoutDefaultSuccessURL (c_App (sv_cfg v)),
     cr_defaultCancelURL = app_CheckoutDefaultCancelURL (c_App (sv_cfg v))\<rparr>"

definition server_health :: "'x server_ports \<Rightarrow> 'x Server \<Rightarrow> 'x chain_store_scheme HealthHandler" where
  "server_health P v = \<lparr>
     hh_DB = Some (\<lambda>s. (s, case ShardRouterPinger_Ping (sp_pingDB P) (sv_router v) of Inl e \<Rightarrow> Some e | Inr _ \<Rightarrow> None)),
     hh_Redis = Some (\<lambda>s. (s, sp_pingRedis P (c_Redis (sv_cfg v)))),
     hh_Kafka = Some (lift_port chain_store.more (\<lambda>x. chain_store.more_update (\<lambda>_. x))
       (kafka_Ping (sp_dialBroker P) (kafka_Brokers (c_Kafka (sv_cfg v)))))\<rparr>"

definition server_deps :: "'x server_ports \<Rightarrow> 'x Server \<Rightarrow> 'x chain_store_scheme Deps" where
  "server_deps P v = \<lparr>
     dp_Health = server_health P v, dp_Payment = Some (server_payments P v), dp_PaymentStatus = Some (server_orders P v),
     dp_Refund = Some (server_webhooks P v), dp_Webhook = Some (server_webhooks P v),
     dp_Checkout = Some \<lparr>ch_resolver = \<lparr>ck_Resolve = Resolve (server_resolver P v)\<rparr>,
       ch_tokenSecret = app_CheckoutTokenSecret (c_App (sv_cfg v)), ch_clock = server_now P\<rparr>,
     dp_Merchant = Some (server_registry P v), dp_Merchants = Some (server_merchants P v),
     dp_RateLimiter = Some (rate_Allow (sp_redis P)),
     dp_HMACSkew = sec_HMACTimestampSkew (c_Security (sv_cfg v)), dp_AdminAPIKey = sec_AdminAPIKey (c_Security (sv_cfg v)),
     dp_clock = server_now P, dp_uuid = sp_uuid P\<rparr>"

definition server_reconciler :: "'x server_ports \<Rightarrow> 'x Server \<Rightarrow> 'x chain_store_scheme orderReconciliation" where
  "server_reconciler P v = NewOrderReconciliation (server_orders P v) (server_stripe P v)
     (NewPublisher (sp_marshal P) (sp_kafka P)) (server_now P) (sp_select P)"

definition server_settlement :: "'x server_ports \<Rightarrow> 'x Server \<Rightarrow> 'x chain_store_scheme SettlementConsumer" where
  "server_settlement P v = NewSettlementConsumer \<lparr>
     sc_lookup = merchantLookup (mr_GetByMerchantID (server_merchants P v)), sc_NewRequest = sp_NewRequest P,
     sc_Do = (\<lambda>req. lift_port chain_store.more (\<lambda>x. chain_store.more_update (\<lambda>_. x)) (sp_Do P req)),
     sc_wait = sp_wait P, sc_clock = server_now P, sc_marshal = sp_marshal P, sc_unmarshal = sp_event P, sc_maxAttempts = 0\<rparr>"

text \<open>The event topic is not set: it keeps its zero value.\<close>

definition chain_config :: "'x server_ports \<Rightarrow> BlockchainConfig \<Rightarrow> ChainConfig" where
  "chain_config P cfg = \<lparr>
     ch_ChainID = chain_ChainID cfg, ch_ContractAddress = sp_HexToAddress P (chain_ContractAddress cfg),
     ch_RequiredConfirmations = chain_RequiredConfirmations cfg, ch_StartBlock = chain_StartBlock cfg,
     ch_EventTopic = replicate 32 (CHR 0x00)\<rparr>"

definition listener_wiring :: "'x server_ports \<Rightarrow> 'x Server \<Rightarrow> 'x ChainClient \<Rightarrow> 'x chain_wiring" where
  "listener_wiring P v client = \<lparr>
     cw_env = sp_env P, cw_router = sv_router v, cw_marshal = sp_marshal P, cw_kafka = sp_kafka P, cw_lib = sp_eth P,
     cw_cfg = chain_config P (c_Blockchain (sv_cfg v)), cw_client = client,
     cw_ctxErr = sp_ctxErr P, cw_select = sp_logs P, cw_wait = sp_wait P\<rparr>"

text \<open>
  What drives the server: a request, a message for the settlement consumer, a tick of the order
  reconciler, a turn of the chain listener if it runs. A run is any sequence of events; \<^const>\<open>None\<close> stands for an event whose handling never ends.
\<close>

datatype server_event = Request Ctx | Settle Message | Reconcile | Chain turn

fun server_step :: "fiber_lib \<Rightarrow> 'x server_ports \<Rightarrow> 'x Server \<Rightarrow> server_event \<Rightarrow> 'x chain_store_scheme \<Rightarrow> 'x chain_store_scheme option" where
  "server_step lib P v (Request c) s = Some (fst (serve lib (NewRouter lib (server_deps P v)) c s))"
| "server_step lib P v (Settle m) s = Some (fst (settle_HandleOne (server_settlement P v) m s))"
| "server_step lib P v Reconcile s = Some (fst (tick (server_reconciler P v) s))"
| "server_step lib P v (Chain t) s =
     (case sv_chain v of None \<Rightarrow> Some s | Some client \<Rightarrow> listener_turn (chain_listener (listener_wiring P v client)) t s)"

fun server_run :: "fiber_lib \<Rightarrow> 'x server_ports \<Rightarrow> 'x Server \<Rightarrow> server_event list \<Rightarrow> 'x chain_store_scheme \<Rightarrow> 'x chain_store_scheme option" where
  "server_run lib P v [] s = Some s"
| "server_run lib P v (e # es) s = (case server_step lib P v e s of None \<Rightarrow> None | Some s' \<Rightarrow> server_run lib P v es s')"

section \<open>The wired services are those of the component theories\<close>

text \<open>
  The component theories wire the webhook service and the reconciler over a gateway and the
  resolver over a pod; their client acts on what the state has beyond that. The client of the server
  acts on what the state has beyond the chain tables.
\<close>

definition blank_gateway :: gateway where
  "blank_gateway = \<lparr>tables = (\<lambda>p. []), stmts = 0, merchants = [], mcache = newLRUCache 1024 300000000000,
     rd_db = (\<lambda>k. None), rd_calls = 0, topic = [], writes = 0\<rparr>"

definition blank_pod :: pod where
  "blank_pod = gateway.extend blank_gateway (pod.fields server_urls)"

definition past_gateway :: "'x StripeClient \<Rightarrow> 'x chain_store_ext pod_ext StripeClient" where
  "past_gateway = lift_client (\<lambda>f. chain_store.more (gateway.extend blank_gateway f))
     (\<lambda>x f. gateway.more ((gateway.extend blank_gateway f)\<lparr>chain_store.more := x\<rparr>))"

definition past_pod :: "'x StripeClient \<Rightarrow> 'x chain_store_ext StripeClient" where
  "past_pod = lift_client (\<lambda>f. chain_store.more (pod.extend blank_pod f))
     (\<lambda>x f. pod.more ((pod.extend blank_pod f)\<lparr>chain_store.more := x\<rparr>))"

lemma lift_port_nested:
  "lift_port gateway.more (\<lambda>x. gateway.more_update (\<lambda>_. x))
     (lift_port (\<lambda>f. chain_store.more (gateway.extend blank_gateway f))
       (\<lambda>x f. gateway.more ((gateway.extend blank_gateway f)\<lparr>chain_store.more := x\<rparr>)) g) s =
   lift_port chain_store.more (\<lambda>x. chain_store.more_update (\<lambda>_. x)) g s"
  "lift_port pod.more (\<lambda>x. pod.more_update (\<lambda>_. x))
     (lift_port (\<lambda>f. chain_store.more (pod.extend blank_pod f))
       (\<lambda>x f. pod.more ((pod.extend blank_pod f)\<lparr>chain_store.more := x\<rparr>)) g) s =
   lift_port chain_store.more (\<lambda>x. chain_store.more_update (\<lambda>_. x)) g s"
  by (cases s; simp add: lift_port_def gateway.extend_def pod.extend_def split: prod.split)+

lemma chain_more_parts [simp]:
  "chain_store.more (gateway.extend blank_gateway (gateway.more s)) = chain_store.more s"
  "chain_store.more (pod.extend blank_pod (pod.more s)) = chain_store.more s"
  by (cases s; simp add: gateway.extend_def pod.extend_def)+

lemma clients_agree:
  "gateway_stripe (past_gateway c) = lift_client chain_store.more (\<lambda>x. chain_store.more_update (\<lambda>_. x)) c"
  "lift_client pod.more (\<lambda>x. pod.more_update (\<lambda>_. x)) (past_pod c) = lift_client chain_store.more (\<lambda>x. chain_store.more_update (\<lambda>_. x)) c"
  by (simp_all add: gateway_stripe_def past_gateway_def past_pod_def lift_client_def lift_port_nested fun_eq_iff)

definition server_wiring :: "'x server_ports \<Rightarrow> 'x Server \<Rightarrow> 'x chain_store_ext pod_ext wiring" where
  "server_wiring P v = \<lparr>
     w_env = sp_env P, w_router = sv_router v, w_redis = sp_redis P, w_marshal = sp_marshal P, w_kafka = sp_kafka P,
     w_client = past_gateway (stripe_client P (c_Stripe (sv_cfg v))), w_secret = stripe_WebhookSecret (c_Stripe (sv_cfg v)),
     w_decode = sp_decode P\<rparr>"

definition server_links :: "'x server_ports \<Rightarrow> 'x Server \<Rightarrow> 'x chain_store_ext resolver_wiring" where
  "server_links P v = \<lparr>
     r_env = sp_env P, r_router = sv_router v, r_redis = sp_redis P, r_bucket = Some (stripe_bucket (c_App (sv_cfg v))),
     r_round = sp_round P, r_sleep = sp_sleep P, r_client = past_pod (stripe_client P (c_Stripe (sv_cfg v))),
     r_success = app_CheckoutDefaultSuccessURL (c_App (sv_cfg v)), r_cancel = app_CheckoutDefaultCancelURL (c_App (sv_cfg v))\<rparr>"

text \<open>The server runs the services the component theorems are about: over a router with the configured
  number of logical shards its webhook service, its checkout resolver and its order reconciler are
  the wired services of the component theories, with the Stripe client chosen by the configuration
  behind the circuit breaker. What is proved of a webhook, a checkout link or a reconciler tick
  therefore holds of the routes and goroutines of the running server.\<close>

lemma server_services:
  assumes "router_LogicalCount (sv_router v) = app_LogicalShardCount (c_App (sv_cfg v))"
  shows "server_webhook P v = NewWebhookService (server_wiring P v)"
    and "server_resolver P v = NewCheckoutResolver (server_links P v)"
    and "server_reconciler P v = reconciler (server_wiring P v) \<lparr>opt_Interval = 0, opt_StuckAfter = 0, opt_BatchSize = 0\<rparr> (sp_select P)"
proof -
  have now: "server_now P = (\<lambda>s. env_clock (sp_env P) (stmts s))"
    by (simp add: server_now_def fun_eq_iff)
  show "server_webhook P v = NewWebhookService (server_wiring P v)"
    using assms by (simp add: server_webhook_def NewWebhookService_def server_wiring_def server_stripe_def server_orders_def
        server_merchants_def now clients_agree)
  show "server_resolver P v = NewCheckoutResolver (server_links P v)"
    using assms by (simp add: server_resolver_def NewCheckoutResolver_def server_links_def server_stripe_def server_orders_def
        server_merchants_def now clients_agree)
  show "server_reconciler P v = reconciler (server_wiring P v) \<lparr>opt_Interval = 0, opt_StuckAfter = 0, opt_BatchSize = 0\<rparr> (sp_select P)"
    by (simp add: server_reconciler_def reconciler_def NewOrderReconciliation_def server_wiring_def server_stripe_def
        server_orders_def now clients_agree)
qed

section \<open>A webhook from the request to the row\<close>

lemma server_wiring_simps [simp]:
  "w_env (server_wiring P v) = sp_env P" "w_router (server_wiring P v) = sv_router v" "w_redis (server_wiring P v) = sp_redis P"
  "w_marshal (server_wiring P v) = sp_marshal P" "w_kafka (server_wiring P v) = sp_kafka P" "w_decode (server_wiring P v) = sp_decode P"
  by (simp_all add: server_wiring_def)

text \<open>Live or fake, the client checks the signature with the configured secret.\<close>

lemma server_verified:
  "verified (server_wiring P v) payload hdr s =
     VerifyAndConstructEvent (sp_unmarshal P) payload hdr (stripe_WebhookSecret (c_Stripe (sv_cfg v))) (sp_clock P (chain_store.more s))"
  by (simp add: verified_def server_wiring_def past_gateway_def lift_client_def stripe_client_def NewBreakerClient_def NewFake_def NewClient_def)

lemma server_confirms:
  "stripe_confirms (server_wiring P v) x s \<longleftrightarrow>
     (case snd (st_GetPaymentIntent (stripe_client P (c_Stripe (sv_cfg v))) x (chain_store.more s)) of
        Inl _ \<Rightarrow> False | Inr intent \<Rightarrow> pi_Status intent = ''succeeded'')"
  by (simp add: stripe_confirms_def server_wiring_def past_gateway_def lift_client_def lift_port_def split: prod.split)

lemma serve_webhook:
  assumes "cx_Method c = ''POST''" "fb_match lib ''/webhook/stripe'' (cx_Path c) = Some ps" "dp_Webhook d = Some wk"
  obtains c' where "serve lib (NewRouter lib d) c s = WebhookHandler_Stripe wk c' s" "cx_Body c' = cx_Body c" "cx_Header c' = cx_Header c"
proof -
  let ?c = "if fb_prefix lib ''/'' (cx_Path c) then tagged d c s else c"
  have "serve lib (NewRouter lib d) c s = WebhookHandler_Stripe wk (?c\<lparr>cx_Params := ps\<rparr>) s"
    using assms by (simp add: NewRouter_def RequestID_tagged public_routes_def when_set_def)
  then show thesis
    by (rule that) simp_all
qed

text \<open>C2. From the request to the row: on a healthy database with Redis, Kafka and Stripe answering, a
  \<^verbatim>\<open>POST /webhook/stripe\<close> whose signature verifies under the configured secret, for an event the
  gateway has not seen that reports a payment intent Stripe itself reports as succeeded, is answered
  with 200; exactly the rows of the order named in its metadata become paid and take the intent,
  every other row stays as it was, and one message with the stored order goes to the topic.\<close>

theorem server_webhook_settles:
  assumes route: "cx_Method c = ''POST''" "fb_match lib ''/webhook/stripe'' (cx_Path c) = Some ps"
    and count: "router_LogicalCount (sv_router v) = app_LogicalShardCount (c_App (sv_cfg v))"
    and up: "repo_good (sp_env P) (sv_router v) s" "sp_kafka P (writes s) = None" "\<forall>ev. \<not> isl (sp_marshal P ev)"
      "rd_fault (sp_redis P) (rd_calls s) = None"
    and sig: "VerifyAndConstructEvent (sp_unmarshal P) (cx_Body c) (cx_Header c ''Stripe-Signature'')
      (stripe_WebhookSecret (c_Stripe (sv_cfg v))) (sp_clock P (chain_store.more s)) = Inr event"
    and fresh: "live (rd_clock (sp_redis P) (rd_calls s)) (rd_db s) (''webhook:'' @ ev_ID event) = None"
    and event: "sp_decode P (ev_Data event) = Inr o'" "ev_Type event = ''payment_intent.succeeded''"
      "meta o' ''order_id'' = oid" "meta o' ''merchant_id'' = mid" "mid \<noteq> []" "valid_order_id oid" "length (intent_of o') \<le> 64"
    and stripe: "snd (st_GetPaymentIntent (stripe_client P (c_Stripe (sv_cfg v))) (intent_of o') (chain_store.more s)) = Inr intent"
      "pi_Status intent = ''succeeded''"
    and m: "snd (GetByMerchantID (sp_env P) (sv_router v) mid s) = Inr m" "router_known (sv_router v) (m_ShardIndex m)"
    and row: "txn_view (sv_router v) s (m_ShardIndex m) tid = Some t" "is_order (env_coll (sp_env P)) mid oid t"
  shows "\<exists>s' resp upd order now. serve lib (NewRouter lib (server_deps P v)) c s = (s', resp) \<and> rs_Status resp = 200 \<and>
    txn_view (sv_router v) s' = (\<lambda>j tid. map_option (\<lambda>t.
      if router_colocated (sv_router v) j (m_ShardIndex m) \<and> is_order (env_coll (sp_env P)) mid oid t
      then with_status TransactionStatusPaid (intent_of o') upd t else t) (txn_view (sv_router v) s j tid)) \<and>
    txn_view (sv_router v) s' (m_ShardIndex m) (t_TransactionID order) = Some order \<and> is_order (env_coll (sp_env P)) mid oid order \<and>
    topic s' = topic s @ [(t_OrderID order, projr (sp_marshal P (confirmed_event order TransactionStatusPaid now)))]"
proof -
  let ?w = "server_wiring P v"
  have "settles_as ?w s event o' TransactionStatusPaid (intent_of o')"
    using event(2) stripe by (simp add: settles_as_def server_confirms)
  note settles = this
  have "kafka_up ?w s" "fresh_event ?w s event"
    using up fresh by (simp_all add: kafka_up_def fresh_event_def dedup_key_def)
  from process_settles [where w = ?w and s = s and payload = "cx_Body c" and sig = "cx_Header c ''Stripe-Signature''" and o' = o' and m = m,
      unfolded server_wiring_simps server_verified event_bytes_def, OF up(1) this(1) sig this(2) event(1,3-7) settles m row]
  obtain s' upd order now where
    proc: "Process (NewWebhookService ?w) (cx_Body c) (cx_Header c ''Stripe-Signature'') s = (s', Inr ())" and
    rest: "txn_view (sv_router v) s' = (\<lambda>j tid. map_option (\<lambda>t.
      if router_colocated (sv_router v) j (m_ShardIndex m) \<and> is_order (env_coll (sp_env P)) mid oid t
      then with_status TransactionStatusPaid (intent_of o') upd t else t) (txn_view (sv_router v) s j tid))"
    "txn_view (sv_router v) s' (m_ShardIndex m) (t_TransactionID order) = Some order" "is_order (env_coll (sp_env P)) mid oid order"
    "topic s' = topic s @ [(t_OrderID order, projr (sp_marshal P (confirmed_event order TransactionStatusPaid now)))]"
    by blast
  have "dp_Webhook (server_deps P v) = Some (server_webhooks P v)"
    by (simp add: server_deps_def)
  then obtain c' where "serve lib (NewRouter lib (server_deps P v)) c s = WebhookHandler_Stripe (server_webhooks P v) c' s"
    "cx_Body c' = cx_Body c" "cx_Header c' = cx_Header c"
    by (rule serve_webhook [OF route])
  with proc have "serve lib (NewRouter lib (server_deps P v)) c s = (s', reply c' 200 Empty)"
    by (simp add: WebhookHandler_Stripe_def server_webhooks_def server_services(1) [OF count])
  then show ?thesis
    using rest by (intro exI [of _ s'] exI [of _ "reply c' 200 Empty"] exI [of _ upd] exI [of _ order] exI [of _ now])
      (simp only: reply_def Response.simps simp_thms)
qed

section \<open>What services and handlers leave alone\<close>

text \<open>A relation that the ports of the services keep is kept by the services.\<close>

locale service_frame =
  fixes kept :: "'s \<Rightarrow> 's \<Rightarrow> bool" and stripe :: "'s StripeClient" and repo :: "'s TransactionRepository"
  assumes kept_refl: "kept s s"
    and kept_trans: "kept s t \<Longrightarrow> kept t u \<Longrightarrow> kept s u"
    and kept_insert: "kept s (fst (tr_Insert repo tx s))"
    and kept_by_txn: "kept s (fst (tr_GetByTransactionID repo i mid tid s))"
    and kept_order: "kept s (fst (tr_GetByMerchantOrderID repo i mid oid s))"
    and kept_pending: "kept s (fst (tr_GetPendingBefore repo before n s))"
    and kept_status: "kept s (fst (tr_UpdateStatus repo i mid oid st x s))"
    and kept_checkout: "kept s (fst (tr_UpdateCheckout repo i mid oid sess x s))"
    and kept_session: "kept s (fst (st_CreateCheckoutSession stripe req key s))"
    and kept_intent: "kept s (fst (st_GetPaymentIntent stripe x s))"
    and kept_refund_call: "kept s (fst (st_CreateRefund stripe rreq key s))"
begin

lemma kept_port: "kept s (fst (f s)) \<Longrightarrow> f s = (s', res) \<Longrightarrow> kept s s'"
  by simp

lemmas kept_ports =
  kept_port [where f = "tr_Insert repo tx" for tx, OF kept_insert]
  kept_port [where f = "tr_GetByTransactionID repo i mid tid" for i mid tid, OF kept_by_txn]
  kept_port [where f = "tr_GetByMerchantOrderID repo i mid oid" for i mid oid, OF kept_order]
  kept_port [where f = "tr_GetPendingBefore repo before n" for before n, OF kept_pending]
  kept_port [where f = "tr_UpdateStatus repo i mid oid st x" for i mid oid st x, OF kept_status]
  kept_port [where f = "tr_UpdateCheckout repo i mid oid sess x" for i mid oid sess x, OF kept_checkout]
  kept_port [where f = "st_CreateCheckoutSession stripe req key" for req key, OF kept_session]
  kept_port [where f = "st_GetPaymentIntent stripe x" for x, OF kept_intent]
  kept_port [where f = "st_CreateRefund stripe rreq key" for rreq key, OF kept_refund_call]

lemma kept_after_insert: "kept s (fst (after_insert stripe repo clock ps m inp cur s))"
  by (auto simp: after_insert_def kept_refl Let_def split: prod.split sum.split dest!: kept_ports; meson kept_trans)

lemma kept_payment: "kept s (fst (payment_Create stripe repo clock ps inp s))"
  by (auto simp: payment_Create_def kept_refl Let_def split: prod.split sum.split option.split dest!: kept_ports;
      meson kept_trans kept_after_insert)

lemma kept_refund:
  assumes "wh_repo ws = repo" "wh_stripe ws = stripe"
  shows "kept s (fst (CreateRefund ws inp s))"
  by (auto simp: CreateRefund_def assms kept_refl split: prod.split sum.split option.split dest!: kept_ports; meson kept_trans)

lemma kept_reconcileOne:
  assumes "rc_Orders r = repo" "rc_Stripe r = stripe" "\<And>ev s. kept s (fst (ep_PublishPaymentConfirmed (rc_Publisher r) ev s))"
  shows "kept s (reconcileOne r t s)"
  by (auto simp: reconcileOne_def assms(1,2) kept_refl split: prod.split sum.split dest!: kept_ports;
      meson kept_trans kept_status assms(3))

lemma kept_fold: "(\<And>x s. kept s (f x s)) \<Longrightarrow> kept s (fold f xs s)"
  by (induction xs arbitrary: s) (auto intro: kept_refl kept_trans)

lemma kept_tick:
  assumes "rc_Orders r = repo" "rc_Stripe r = stripe" "\<And>ev s. kept s (fst (ep_PublishPaymentConfirmed (rc_Publisher r) ev s))"
  shows "kept s (fst (tick r s))"
proof -
  have "kept s (fold (reconcileOne r) ts s)" for ts s
    by (rule kept_fold) (rule kept_reconcileOne [OF assms])
  then show ?thesis
    by (auto simp: tick_def assms(1) split: prod.split sum.split dest!: kept_ports; meson kept_trans)
qed

text \<open>The resolver uses the merchants, the lock, the bucket, the URL cache and a pause as well.\<close>

lemma kept_resolver:
  assumes r: "cr_repo r = repo" "cr_stripe r = stripe"
    and merchant: "\<And>mid s. kept s (fst (mr_GetByMerchantID (cr_merchants r) mid s))"
    and lock: "\<And>k n s. kept s (fst (cr_Acquire r k n s))" "\<And>l s. kept s (fst (cr_Release r l s))" "\<And>n s. kept s (cr_sleep r n s)"
    and cache: "\<And>k u s. kept s (cacheURL r k u s)" and bucket: "\<And>s. kept s (fst (bucket_allows r s))"
  shows "kept s (fst (Resolve r mid oid s))"
proof -
  note more = kept_port [where f = "mr_GetByMerchantID (cr_merchants r) mid" for mid, OF merchant]
    kept_port [where f = "cr_Acquire r k n" for k n, OF lock(1)] kept_port [where f = "bucket_allows r", OF bucket]
  have late: "kept s (fst (resolveAfterLock r i mid oid k s))" for i k s
    by (auto simp: resolveAfterLock_def r Let_def split: prod.split sum.split dest!: kept_ports; meson kept_trans cache)
  have opens: "kept s (fst (open_session r i mid oid k order s))" for i k order s
    by (auto simp: open_session_def createSession_def r split: prod.split sum.split dest!: kept_ports; meson kept_trans cache)
  have locked: "kept s (fst (under_lock r i mid oid k order s))" for i k order s
    by (auto simp: under_lock_def r Let_def split: prod.split sum.split dest!: kept_ports more; meson kept_trans cache opens)
  note locked' = kept_port [where f = "under_lock r i mid oid k order" for i k order, OF locked]
  show ?thesis
    by (auto simp: Resolve_def r Let_def kept_refl split: prod.split sum.split option.split dest!: kept_ports more locked';
        meson kept_trans cache lock(2,3) late)
qed

end

text \<open>A relation that the dependencies of the router keep is kept by every request.\<close>

definition keeping :: "('s \<Rightarrow> 's \<Rightarrow> bool) \<Rightarrow> 's layer \<Rightarrow> bool" where
  "keeping kept l = (case l of
      Use p m \<Rightarrow> \<forall>next. (\<forall>c s. kept s (fst (next c s))) \<longrightarrow> (\<forall>c s. kept s (fst (m next c s)))
    | Route meth pat h \<Rightarrow> \<forall>c s. kept s (fst (h c s)))"

locale api_frame =
  fixes kept :: "'s \<Rightarrow> 's \<Rightarrow> bool" and d :: "'s Deps"
  assumes kept_refl: "kept s s"
    and kept_trans: "kept s t \<Longrightarrow> kept t u \<Longrightarrow> kept s u"
    and kept_ping: "\<And>p. Some p \<in> {hh_DB (dp_Health d), hh_Redis (dp_Health d), hh_Kafka (dp_Health d)} \<Longrightarrow> kept s (fst (p s))"
    and kept_pay: "dp_Payment d = Some pay \<Longrightarrow> kept s (fst (pm_Create pay pin s))"
    and kept_lookup: "dp_PaymentStatus d = Some repo \<Longrightarrow> kept s (fst (tr_GetByMerchantOrderID repo i mid oid s))"
    and kept_refund: "dp_Refund d = Some wk \<Longrightarrow> kept s (fst (wk_CreateRefund wk rin s))"
    and kept_event: "dp_Webhook d = Some wk \<Longrightarrow> kept s (fst (wk_Process wk payload sig s))"
    and kept_open: "dp_Checkout d = Some k \<Longrightarrow> kept s (fst (ck_Resolve (ch_resolver k) mid oid s))"
    and kept_register: "dp_Merchant d = Some reg \<Longrightarrow> kept s (fst (me_Create reg rm s))"
    and kept_key: "dp_Merchants d = Some ms \<Longrightarrow> kept s (fst (mr_GetByAPIKey ms key s))"
    and kept_limit: "dp_RateLimiter d = Some allow \<Longrightarrow> kept s (fst (allow name bound win s))"
begin

lemma kept_port: "kept s (fst (f s)) \<Longrightarrow> f s = (s', res) \<Longrightarrow> kept s s'"
  by simp

lemma kept_serve: "\<forall>l \<in> set ls. keeping kept l \<Longrightarrow> kept s (fst (serve lib ls c s))"
proof (induction ls arbitrary: c s)
  case (Cons l ls)
  then have rest: "\<forall>c s. kept s (fst (serve lib ls c s))"
    by simp
  from Cons.prems have "keeping kept l"
    by simp
  with rest show ?case
    by (cases l) (auto simp: keeping_def)
qed (simp add: kept_refl)

lemma keeping_middleware:
  "keeping kept (Use p (RequestID (dp_uuid d)))"
  "keeping kept (Use p (AdminAuth key))"
  by (auto simp: keeping_def RequestID_def AdminAuth_def Let_def kept_refl)

lemma keeping_auth:
  assumes "dp_Merchants d = Some ms"
  shows "keeping kept (Use p (HMACAuth ms skew clock))"
  by (auto simp: keeping_def HMACAuth_def Let_def kept_refl split: option.split prod.split sum.split
      dest!: kept_port [where f = "mr_GetByAPIKey ms key" for key, OF kept_key [OF assms]]; meson kept_trans)

lemma keeping_limit:
  assumes "dp_RateLimiter d = Some allow"
  shows "keeping kept (Use p (RateLimit allow))"
  by (auto simp: keeping_def RateLimit_def Let_def split: option.split prod.split sum.split
      dest!: kept_port [where f = "allow name bound win" for name bound win, OF kept_limit [OF assms]]; meson kept_trans)

lemma kept_check:
  assumes "p \<in> {hh_DB (dp_Health d), hh_Redis (dp_Health d), hh_Kafka (dp_Health d)}"
  shows "kept s (fst (ping_check name p s))"
proof (cases p)
  case (Some f)
  with kept_ping [of f] assms show ?thesis
    by (auto simp: ping_check_def split: prod.split option.split dest!: kept_port [where f = f])
qed (simp add: ping_check_def kept_refl)

lemma kept_ready: "kept s (fst (Readiness (dp_Health d) c s))"
proof -
  note checks = kept_port [where f = "ping_check name p" for name p, OF kept_check]
  show ?thesis
    by (auto simp: Readiness_def split: prod.split dest!: checks [rotated]; meson kept_trans)
qed

lemma kept_public_handlers:
  "dp_Webhook d = Some wk \<Longrightarrow> kept s (fst (WebhookHandler_Stripe wk c s))"
  "dp_Checkout d = Some k \<Longrightarrow> kept s (fst (CheckoutHandler_Redirect k c s))"
  by (auto simp: WebhookHandler_Stripe_def CheckoutHandler_Redirect_def kept_refl Let_def split: prod.split sum.split
      dest: kept_port [where f = "wk_Process wk payload sig" for payload sig, OF kept_event]
        kept_port [where f = "ck_Resolve (ch_resolver k) mid oid" for mid oid, OF kept_open])

lemma kept_merchant_handlers:
  "dp_Payment d = Some pay \<Longrightarrow> kept s (fst (PaymentHandler_Create lib pay c s))"
  "dp_PaymentStatus d = Some repo \<Longrightarrow> kept s (fst (PaymentStatusHandler_Get repo c s))"
  "dp_Refund d = Some wk \<Longrightarrow> kept s (fst (RefundHandler_Create lib wk c s))"
  "dp_Merchant d = Some reg \<Longrightarrow> kept s (fst (MerchantHandler_Create lib reg c s))"
  by (auto simp: PaymentHandler_Create_def PaymentStatusHandler_Get_def RefundHandler_Create_def MerchantHandler_Create_def
      kept_refl Let_def split: option.split prod.split sum.split
      dest: kept_port [where f = "pm_Create pay pin" for pin, OF kept_pay]
        kept_port [where f = "tr_GetByMerchantOrderID repo i mid oid" for i mid oid, OF kept_lookup]
        kept_port [where f = "wk_CreateRefund wk rin" for rin, OF kept_refund]
        kept_port [where f = "me_Create reg rm" for rm, OF kept_register])

lemma keeping_routes:
  "l \<in> set (public_routes lib d) \<Longrightarrow> keeping kept l"
  "l \<in> set (merchant_routes lib d) \<Longrightarrow> keeping kept l"
  "l \<in> set (admin_routes lib d) \<Longrightarrow> keeping kept l"
  using keeping_middleware(2) kept_public_handlers kept_merchant_handlers
  by (auto simp: public_routes_def merchant_routes_def admin_routes_def when_set_def kept_refl kept_ready Liveness_def
      CheckoutHandler_Success_def CheckoutHandler_Cancel_def keeping_def split: option.splits if_splits)

lemma keeping_optional:
  "l \<in> set (when_set (dp_Merchants d) (\<lambda>m. [Use p (HMACAuth m skew clock)])) \<Longrightarrow> keeping kept l"
  "l \<in> set (when_set (dp_RateLimiter d) (\<lambda>rl. [Use p (RateLimit rl)])) \<Longrightarrow> keeping kept l"
  by (cases "dp_Merchants d"; simp add: when_set_def keeping_auth) (cases "dp_RateLimiter d"; simp add: when_set_def keeping_limit)

lemma kept_request: "kept s (fst (serve lib (NewRouter lib d) c s))"
  by (rule kept_serve) (auto simp: NewRouter_def keeping_middleware(1) intro: keeping_routes keeping_optional)

end

section \<open>The ledger\<close>

text \<open>
  What no operation may do to a stored transaction: its parties, ids, amount, currency, method and
  creation time stay, and Stripe ids are never cleared. A pool only gains rows, and so does the
  table of merchants.
\<close>

definition row_grows :: "txn_row \<Rightarrow> txn_row \<Rightarrow> bool" where
  "row_grows row row' \<longleftrightarrow>
     row_merchant_id row' = row_merchant_id row \<and> row_transaction_id row' = row_transaction_id row \<and>
     row_order_id row' = row_order_id row \<and> row_amount row' = row_amount row \<and>
     row_currency_code row' = row_currency_code row \<and> row_payment_method row' = row_payment_method row \<and>
     row_created_at row' = row_created_at row \<and>
     (row_stripe_pi_id row' = None \<longrightarrow> row_stripe_pi_id row = None) \<and>
     (row_stripe_session row' = None \<longrightarrow> row_stripe_session row = None)"

definition rows_grow :: "txn_row list \<Rightarrow> txn_row list \<Rightarrow> bool" where
  "rows_grow rows rows' \<longleftrightarrow> length rows \<le> length rows' \<and> list_all2 row_grows rows (take (length rows) rows')"

definition ledger :: "'x chain_store_scheme \<Rightarrow> 'x chain_store_scheme \<Rightarrow> bool" where
  "ledger s s' \<longleftrightarrow> (txn_inv s \<longrightarrow> txn_inv s') \<and> (\<forall>p. rows_grow (tables s p) (tables s' p)) \<and>
     (\<exists>new. merchants s' = merchants s @ new)"

lemma rows_grow_nth:
  "rows_grow rows rows' \<longleftrightarrow> length rows \<le> length rows' \<and> (\<forall>i < length rows. row_grows (rows ! i) (rows' ! i))"
  by (auto simp: rows_grow_def list_all2_conv_all_nth)

lemma row_grows_refl [simp]: "row_grows row row"
  by (simp add: row_grows_def)

lemma row_grows_trans: "row_grows a b \<Longrightarrow> row_grows b c \<Longrightarrow> row_grows a c"
  by (auto simp: row_grows_def)

lemma rows_grow_refl [simp]: "rows_grow rows rows"
  by (simp add: rows_grow_nth)

lemma rows_grow_trans: "rows_grow a b \<Longrightarrow> rows_grow b c \<Longrightarrow> rows_grow a c"
  unfolding rows_grow_nth by (meson less_le_trans le_trans row_grows_trans)

lemma rows_grow_snoc [simp]: "rows_grow rows (rows @ [row])"
  by (simp add: rows_grow_nth nth_append)

lemma rows_grow_map_if: "(\<And>row. row_grows row (f row)) \<Longrightarrow> rows_grow rows (map (\<lambda>row. if Q row then f row else row) rows)"
  by (simp add: rows_grow_nth)

lemma ledger_refl: "ledger s s"
  by (simp add: ledger_def)

lemma ledger_trans: "ledger s t \<Longrightarrow> ledger t u \<Longrightarrow> ledger s u"
  unfolding ledger_def by (metis append.assoc rows_grow_trans)

lemma ledger_same: "tables s' = tables s \<Longrightarrow> merchants s' = merchants s \<Longrightarrow> ledger s s'"
  by (simp add: ledger_def txn_inv_def)

lemma row_grows_update:
  "row_grows row (row\<lparr>row_status := st, row_updated_at := now, row_stripe_pi_id := coalesce x (row_stripe_pi_id row)\<rparr>)"
  "row_grows row (row\<lparr>row_stripe_session := coalesce sess (row_stripe_session row),
     row_stripe_pi_id := coalesce x (row_stripe_pi_id row), row_updated_at := now\<rparr>)"
  by (simp_all add: row_grows_def coalesce_def)

lemma exec_update_grows:
  assumes "exec_update env q Q f s = (s', res)" "\<And>row. row_grows row (f row)"
  shows "rows_grow (tables s p) (tables s' p) \<and> merchants s' = merchants s"
  using assms(1) by (auto simp: exec_update_def Let_def step_store_def rows_grow_map_if assms(2) split: option.splits if_splits)

lemma exec_insert_grows:
  assumes "exec_insert env q row s = (s', res)"
  shows "rows_grow (tables s p) (tables s' p) \<and> merchants s' = merchants s"
  using assms by (auto simp: exec_insert_def step_store_def split: option.splits if_splits)

lemma ledger_insert: "ledger s (fst (txn_Insert env r t s))"
proof -
  have "rows_grow (tables s p) (tables (fst (txn_Insert env r t s)) p) \<and> merchants (fst (txn_Insert env r t s)) = merchants s" for p
    by (auto simp: txn_Insert_def Let_def split: sum.split prod.split dest: exec_insert_grows)
  then show ?thesis
    by (simp add: ledger_def txn_Insert_inv)
qed

lemma ledger_status: "ledger s (fst (UpdateStatus env r i mid oid st x s))"
proof -
  have "rows_grow (tables s p) (tables (fst (UpdateStatus env r i mid oid st x s)) p)" for p
    by (auto simp: UpdateStatus_def split: sum.split prod.split dest!: exec_update_grows [OF _ row_grows_update(1)])
  then show ?thesis
    by (simp add: ledger_def UpdateStatus_inv)
qed

lemma ledger_checkout: "ledger s (fst (UpdateCheckout env r i mid oid sess x s))"
proof -
  have "rows_grow (tables s p) (tables (fst (UpdateCheckout env r i mid oid sess x s)) p) \<and>
      merchants (fst (UpdateCheckout env r i mid oid sess x s)) = merchants s" for p
    by (auto simp: UpdateCheckout_def split: sum.split prod.split dest!: exec_update_grows [OF _ row_grows_update(2)])
  then show ?thesis
    by (simp add: ledger_def UpdateCheckout_inv)
qed

lemma ledger_reads:
  "ledger s (fst (GetByTransactionID env r i mid tid s))" "ledger s (fst (GetByMerchantOrderID env r i mid oid s))"
  "ledger s (fst (GetByOrderIDAny env r oid s))" "ledger s (fst (GetByPaymentIntentID env r x s))"
  "ledger s (fst (GetPendingBefore env r before n s))"
  by (rule ledger_same; simp add: GetByOrderIDAny_def scatterFirst_def GetPendingBefore_def Let_def split: sum.split)+

lemma ledger_merchant_reads: "ledger s (fst (GetByMerchantID env r mid s))" "ledger s (fst (GetByAPIKey env r key s))"
  by (rule ledger_same; simp add: GetByAPIKey_def query_merchant_def step_store_def split: prod.split option.split sum.split)+

lemma ledger_register: "ledger s (fst (merchant_Insert env r L m s))"
  by (simp add: ledger_def txn_inv_def merchant_Insert_def pickLeastLoadedShard_def exec_insert_merchant_def Let_def
      split: option.split prod.split sum.split)

lemma ledger_redis_do: "ledger s (fst (redis_do env cmd s))"
  by (rule ledger_same) (simp_all add: redis_do_def Let_def split: prod.split option.split)

lemma ledger_redis:
  "ledger s (fst (SetNX renv k v ttl s))" "ledger s (fst (Acquire renv k ttl s))" "ledger s (fst (Release renv l s))"
  "ledger s (fst (tb_Allow fl renv b s))" "ledger s (fst (rate_Allow renv k n win s))"
proof -
  have do: "ledger s s'" if "redis_do renv cmd s = (s', res)" for cmd s s' and res :: "'r result"
    using ledger_redis_do [of s renv cmd] that by simp
  show "ledger s (fst (SetNX renv k v ttl s))"
    by (simp add: SetNX_def ledger_redis_do)
  show "ledger s (fst (Acquire renv k ttl s))" "ledger s (fst (Release renv l s))"
    "ledger s (fst (tb_Allow fl renv b s))" "ledger s (fst (rate_Allow renv k n win s))"
    by (auto simp: Acquire_def SetNX_def Release_def tb_Allow_def rate_Allow_def Let_def ledger_refl
        split: prod.split sum.split option.split dest: do)
qed

lemma ledger_publish: "ledger s (fst (PublishPaymentConfirmed marshal (WriteMessages faults) ev s))"
  by (rule ledger_same) simp_all

lemma ledger_lift: "ledger s (fst (lift_port chain_store.more (\<lambda>x. chain_store.more_update (\<lambda>_. x)) f s))"
  by (rule ledger_same) (simp_all add: lift_port_def split: prod.split)

lemma ledger_chain:
  "ledger s (fst (GetByTxHash env r h s))" "ledger s (fst (tx_Create env r tx s))" "ledger s (fst (UpdateConfirmations env r h b st s))"
  "ledger s (fst (ListPendingByChain env r cid k s))" "ledger s (fst (cursor_Get env r cid s))" "ledger s (fst (cursor_Set env r cid b s))"
  by (rule ledger_same; simp add: GetByTxHash_def cursor_Set_def cursor_Get_def ListPendingByChain_def tx_Create_def
      UpdateConfirmations_def step_store_def Let_def split: option.split)+

lemmas ledger_ports = ledger_reads ledger_merchant_reads ledger_register ledger_redis ledger_publish ledger_lift ledger_chain
  ledger_insert ledger_status ledger_checkout

section \<open>The server keeps the ledger\<close>

interpretation sv: service_frame ledger "server_stripe P v" "server_orders P v"
  for P :: "'x server_ports" and v
  by unfold_locales
    (auto simp: server_orders_def NewTransactionRepository_def server_stripe_def lift_client_def ledger_ports ledger_refl
      elim: ledger_trans)

interpretation sv_webhook: webhook_frame "server_webhook P v" ledger
  for P :: "'x server_ports" and v
  by unfold_locales
    (auto simp: server_webhook_def server_orders_def server_merchants_def NewTransactionRepository_def NewMerchantRepository_def
      NewPublisher_def server_stripe_def lift_client_def ledger_ports ledger_refl elim: ledger_trans)

interpretation sv_chain: tracker_frame "chain_listener w" ledger "\<lambda>_. True"
  for w :: "'x chain_wiring"
  by unfold_locales (auto simp: NewTransactionRepository_def ledger_ports ledger_refl elim: ledger_trans)

lemma ledger_process: "ledger s (fst (Process (server_webhook P v) payload sig s))"
proof -
  have "ledger s s'" if "wh_SetNX (server_webhook P v) k x n s = (s', res)" for k x n s' res
    using that ledger_redis(1) [of s "sp_redis P" k x n] by (simp add: server_webhook_def)
  then show ?thesis
    by (auto simp: Process_def ledger_refl split: prod.split sum.split;
        meson ledger_trans sv_webhook.kept_dispatch)
qed

text \<open>During a pause the rest of the world goes on: it keeps the ledger as well.\<close>

definition calm :: "'x server_ports \<Rightarrow> bool" where
  "calm P \<longleftrightarrow> (\<forall>n s. ledger s (sp_sleep P n s) \<and> ledger s (fst (sp_wait P n s)))"

lemma ledger_resolve:
  assumes "calm P"
  shows "ledger s (fst (Resolve (server_resolver P v) mid oid s))"
proof (rule sv.kept_resolver [of _ P v])
  fix k u and s :: "'a chain_store_scheme"
  show "ledger s (cacheURL (server_resolver P v) k u s)"
    by (rule ledger_same) (simp_all add: cacheURL_def server_resolver_def)
next
  fix s :: "'a chain_store_scheme"
  have "ledger s s'" if "tb_Allow (sp_round P) (sp_redis P) (stripe_bucket (c_App (sv_cfg v))) s = (s', res)" for s' res
    using that ledger_redis(4) by (metis fst_conv)
  then show "ledger s (fst (bucket_allows (server_resolver P v) s))"
    by (auto simp: bucket_allows_def server_resolver_def split: prod.split sum.split)
qed (use assms in \<open>simp_all add: server_resolver_def server_merchants_def NewMerchantRepository_def ledger_ports calm_def\<close>)

lemma ledger_register_service: "ledger s (fst (me_Create (server_registry P v) inp s))"
proof -
  have "ledger s s'" if "merchant_Insert env r L m s = (s', res)" for env r L m s' res
    using that ledger_register by (metis fst_conv)
  then show ?thesis
    by (auto simp: server_registry_def server_merchants_def NewMerchantRepository_def merchant_Create_def Let_def ledger_refl
        split: prod.split sum.split)
qed

lemma ledger_refund: "ledger s (fst (CreateRefund (server_webhook P v) inp s))"
  by (rule sv.kept_refund [of _ P v]) (simp_all add: server_webhook_def)

interpretation sv_api: api_frame "\<lambda>s s'. calm P \<longrightarrow> ledger s s'" "server_deps P v"
  for P :: "'x server_ports" and v
  by unfold_locales
    (auto simp: server_deps_def server_health_def server_webhooks_def server_payments_def server_merchants_def
      NewMerchantRepository_def server_orders_def NewTransactionRepository_def ledger_ports ledger_refl ledger_process
      ledger_resolve ledger_register_service ledger_refund sv.kept_payment [unfolded server_orders_def NewTransactionRepository_def]
      elim: ledger_trans)

lemma ledger_send: "calm P \<Longrightarrow> ledger s (fst (send_loop (server_settlement P v) url secret body n k err s))"
proof (induction n arbitrary: k err s)
  case (Suc n)
  let ?sc = "server_settlement P v"
  obtain s1 res where 1: "sendOnce ?sc url secret body s = (s1, res)"
    by fastforce
  have "ledger s s'" if "sc_Do ?sc req s = (s', res)" for req s s' res
    using that ledger_lift [of s "sp_Do P req"] by (simp add: server_settlement_def NewSettlementConsumer_def)
  then have s1: "ledger s s1"
    using 1 by (auto simp: sendOnce_def ledger_refl split: option.splits prod.splits sum.splits)
  obtain s2 e where 2: "sc_wait ?sc (k * 1000000000) s1 = (s2, e)"
    by fastforce
  then have s2: "ledger s s2"
    using Suc.prems ledger_trans [OF s1]
    by (simp add: server_settlement_def NewSettlementConsumer_def calm_def) (metis fst_conv)
  show ?case
    using 1 2 s1 s2 ledger_trans [OF s2 Suc.IH [OF Suc.prems]] by (auto split: sum.split option.split)
qed (simp add: ledger_refl)

lemma ledger_settle:
  assumes "calm P"
  shows "ledger s (fst (settle_HandleOne (server_settlement P v) m s))"
proof -
  have "ledger s s'" if "sc_lookup (server_settlement P v) mid s = (s', cb)" for mid s' cb
    using that ledger_merchant_reads(1) [of s "sp_env P" "sv_router v" mid]
    by (auto simp: server_settlement_def NewSettlementConsumer_def merchantLookup_def server_merchants_def NewMerchantRepository_def
        split: prod.splits sum.splits)
  then show ?thesis
    by (auto simp: settle_HandleOne_def ledger_refl split: prod.split sum.split;
        meson ledger_trans ledger_send [OF assms])
qed

lemma ledger_reconcile: "ledger s (fst (tick (server_reconciler P v) s))"
  by (rule sv.kept_tick [of _ P v])
    (simp_all add: server_reconciler_def NewOrderReconciliation_def NewOrderReconciliationWithOptions_def NewPublisher_def ledger_publish)

lemma ledger_pending_turns:
  fixes s :: "'a chain_store_scheme"
  shows "ledger s (fst (confirm_tick (li_Confirmation (chain_listener w)) s))"
    and "ledger s (fst (recheck_tick (li_Reconciler (chain_listener w)) s))"
proof -
  have head: "ledger s s'" if "lift_port chain_store.more (\<lambda>x. chain_store.more_update (\<lambda>_. x)) (cl_BlockNumber (cw_client w)) s = (s', res)"
    for s s' res using that ledger_lift by (metis fst_conv)
  have pending: "ledger s s'" if "ListPendingByChain (cw_env w) (cw_router w) cid k s = (s', res)"
    for cid k s' res and s :: "'a chain_store_scheme"
    using that ledger_chain(4) by (metis fst_conv)
  have folds: "ledger s (fold (processOne (li_Confirmation (chain_listener w)) latest) ps s)"
    "ledger s (fold (recheck (li_Reconciler (chain_listener w))) ps s)" for latest ps s
    by (rule sv_chain.kept_fold; simp add: sv_chain.kept_processOne sv_chain.kept_recheck)+
  show "ledger s (fst (confirm_tick (li_Confirmation (chain_listener w)) s))"
    by (auto simp: confirm_tick_def split: prod.split sum.split dest!: head pending; meson ledger_trans folds)
  show "ledger s (fst (recheck_tick (li_Reconciler (chain_listener w)) s))"
    by (auto simp: recheck_tick_def split: prod.split sum.split dest!: pending; meson ledger_trans folds)
qed

lemma ledger_turn: "listener_turn (chain_listener w) t s = Some s' \<Longrightarrow> ledger s s'"
  using ledger_pending_turns [of s w] sv_chain.kept_handleLog [of s w] sv_chain.kept_backfill [of w s] by (cases t) auto

lemma ledger_step:
  assumes "calm P" "server_step lib P v e s = Some s'"
  shows "ledger s s'"
proof (cases e)
  case (Request c)
  with assms sv_api.kept_request [of P s lib v c] show ?thesis
    by auto
qed (use assms ledger_settle [OF assms(1)] ledger_reconcile ledger_turn in \<open>auto simp: ledger_refl split: option.splits\<close>)

text \<open>C3. The server never loses or rewrites a payment: in every sequence of requests, settlement messages,
  reconciler ticks and turns of the chain listener, with any faults of database, Redis, Kafka,
  Stripe and chain, every row of every pool stays at its place with the same merchant, order id,
  transaction id, amount, currency, method and creation time, its Stripe ids are never cleared,
  registered merchants stay, and rows stay well formed with unique transaction ids.\<close>

theorem server_ledger:
  assumes "calm P" and "server_run lib P v es s = Some s'"
  shows "ledger s s'"
  using assms(2)
proof (induction es arbitrary: s)
  case (Cons e es)
  then obtain s1 where s1: "server_step lib P v e s = Some s1" "server_run lib P v es s1 = Some s'"
    by (auto split: option.splits)
  show ?case
    using ledger_trans [OF ledger_step [OF assms(1) s1(1)] Cons.IH [OF s1(2)]] .
qed (simp add: ledger_refl)

text \<open>Every run ends, if the chain node reports heads a batch below \<open>2^64\<close>.\<close>

lemma listener_turn_total:
  assumes "\<And>x x' head. cl_BlockNumber (cw_client w) x = (x', Inr head) \<Longrightarrow> unat head + 5000 < 2 ^ 64"
  shows "\<exists>s'. listener_turn (chain_listener w) t s = Some s'"
  using listener_run_total [of w "[t]" s] assms by (auto split: option.splits)

lemma server_step_total:
  assumes "\<And>client x x' head. sv_chain v = Some client \<Longrightarrow> cl_BlockNumber client x = (x', Inr head) \<Longrightarrow> unat head + 5000 < 2 ^ 64"
  shows "\<exists>s'. server_step lib P v e s = Some s'"
  using listener_turn_total [of "listener_wiring P v client" for client] assms
  by (cases e) (auto simp: listener_wiring_def split: option.split)

lemma server_run_total:
  assumes "\<And>client x x' head. sv_chain v = Some client \<Longrightarrow> cl_BlockNumber client x = (x', Inr head) \<Longrightarrow> unat head + 5000 < 2 ^ 64"
  shows "\<exists>s'. server_run lib P v es s = Some s'"
proof (induction es arbitrary: s)
  case (Cons e es)
  have "\<exists>s'. server_step lib P v e s = Some s'"
    by (rule server_step_total) (rule assms)
  with Cons show ?case
    by auto
qed simp

lemma start_ok:
  assumes "Load (sp_yaml P) (sp_duration P) path = Inr cfg"
    and "list_all (\<lambda>sc. \<exists>db. sp_sqlOpen P (withClientFoundRows (shard_DSN sc)) = Inr db \<and> sp_pingDB P db = Inr ())
      (effective_shards (c_DB cfg))"
    and "sp_pingRedis P (c_Redis cfg) = None"
  shows "\<exists>x' v. start P path x = (x', Inr v) \<and> sv_cfg v = cfg \<and> wf_router (sv_router v) \<and>
    router_LogicalCount (sv_router v) = app_LogicalShardCount (c_App cfg) \<and>
    (chain_ContractAddress (c_Blockchain cfg) = [] \<or> chain_RPCWebsocket (c_Blockchain cfg) = [] \<longrightarrow> sv_chain v = None)"
proof -
  obtain r where r: "snd (OpenShards (sp_sqlOpen P) (sp_pingDB P) (c_DB cfg) (app_LogicalShardCount (c_App cfg))) = Inr r"
    "wf_router r" "logicalCount r = app_LogicalShardCount (c_App cfg)"
    using Load_OpenShards [OF assms(1,2)] by auto
  obtain x' chain where dial: "dial_chain P (c_Blockchain cfg)
      (ensureTopics (sp_dialAdmin P) (kafka_Brokers (c_Kafka cfg)) [kafka_TopicConfirmed (c_Kafka cfg)] x) = (x', chain)"
    by fastforce
  have "wf_router (pool_router r)"
    using r(2) block_less [of "length (pools r)" "unat (logicalCount r)"] block_div(1) [of "length (pools r)" "unat (logicalCount r)"]
    by (auto simp: wf_router_def pool_router_def route_table_def unat_eq_zero)
  with r assms(1,3) dial show ?thesis
    by (auto simp: start_def NewRedis_def pool_router_def router_LogicalCount_def dial_chain_def)
qed

text \<open>C32. A valid configuration starts: if \<^verbatim>\<open>Load\<close> accepts the file, every configured database opens and answers
  its ping and Redis answers, the server comes up with a router over the configured number of
  logical shards that is well formed. Neither Kafka nor the chain node can prevent it: topics that
  cannot be created are passed over, a node that cannot be dialled only disables the listener, and
  without a contract or a websocket address the listener is off.\<close>

theorem start_succeeds:
  assumes "Load (sp_yaml P) (sp_duration P) path = Inr cfg"
    and "list_all (\<lambda>sc. \<exists>db. sp_sqlOpen P (withClientFoundRows (shard_DSN sc)) = Inr db \<and> sp_pingDB P db = Inr ())
      (effective_shards (c_DB cfg))"
    and "sp_pingRedis P (c_Redis cfg) = None"
  shows "\<exists>x' v. start P path x = (x', Inr v) \<and> sv_cfg v = cfg \<and> wf_router (sv_router v) \<and>
    router_LogicalCount (sv_router v) = app_LogicalShardCount (c_App cfg) \<and>
    (chain_ContractAddress (c_Blockchain cfg) = [] \<or> chain_RPCWebsocket (c_Blockchain cfg) = [] \<longrightarrow> sv_chain v = None)"
  using assms by (rule start_ok)

section \<open>A small server\<close>

definition demo_ports :: "unit server_ports" where
  "demo_ports = \<lparr>sp_yaml = (\<lambda>_. Inr demo_raw), sp_duration = (\<lambda>_. Inl (ErrNew ''no duration'')),
     sp_sqlOpen = (\<lambda>dsn. Inr (length dsn)), sp_pingDB = (\<lambda>_. Inr ()), sp_pingRedis = (\<lambda>_. None), sp_dialAdmin = (\<lambda>a u. (u, Inl (ErrNew ''refused''))), sp_dialBroker = (\<lambda>a u. (u, Inl (ErrNew ''refused''))),
     sp_env = demo_env, sp_redis = demo_limits, sp_round = id, sp_marshal = (\<lambda>ev. Inr (ev_Status ev)), sp_kafka = (\<lambda>n. None),
     sp_sdk = \<lparr>sdk_session_New = (\<lambda>p u. (u, Inl (OtherError (ErrNew ''down'')))), sdk_session_Get = (\<lambda>p u. (u, Inl (OtherError (ErrNew ''down'')))),
       sdk_intent_New = (\<lambda>p u. (u, Inl (OtherError (ErrNew ''down'')))), sdk_intent_Get = (\<lambda>p u. (u, Inl (OtherError (ErrNew ''down'')))),
       sdk_refund_New = (\<lambda>p u. (u, Inl (OtherError (ErrNew ''down''))))\<rparr>,
     sp_rnd = (\<lambda>n u. (u, replicate n (CHR ''r''))), sp_unmarshal = (\<lambda>b. Inr demo_event), sp_decode = (\<lambda>b. Inr demo_object),
     sp_clock = (\<lambda>u. 1700000000 * 1000000000), sp_ExecuteCS = id, sp_ExecutePI = id, sp_ExecuteRF = id, sp_eth = demo_lib, sp_HexToAddress = id,
     sp_dial = (\<lambda>url u. (u, Inr demo_node)), sp_rand = (\<lambda>s. (Inr ''key'', Inr ''secret'')), sp_uuid = (\<lambda>s. ''u''),
     sp_sleep = (\<lambda>n s. s), sp_ctxErr = (\<lambda>s. None), sp_select = (\<lambda>s. (s, None)),
     sp_logs = (\<lambda>s. (s, CtxDone (Sentinel Canceled))), sp_NewRequest = (\<lambda>url. None), sp_Do = (\<lambda>req u. (u, Inr 200)),
     sp_event = (\<lambda>b. Inl (ErrNew ''json'')), sp_wait = (\<lambda>n s. (s, None))\<rparr>"

lemma demo_calm: "calm demo_ports"
  by (simp add: calm_def demo_ports_def ledger_refl)

text \<open>A health check, a tick of the reconciler and a backfill leave the first row of the first pool an order of 1500.\<close>

theorem server_ledger_witness:
  "\<forall>cfg. \<exists>s'. server_run demo_fiber demo_ports \<lparr>sv_cfg = cfg, sv_router = demo_router, sv_chain = Some demo_node\<rparr>
      [Request (demo_ctx ''GET'' ''/healthz'' []), Reconcile, Chain TurnBackfill] demo_chain = Some s' \<and>
    txn_inv s' \<and> row_amount (tables s' 0 ! 0) = 1500 \<and> row_merchant_id (tables s' 0 ! 0) = ''M1''"
proof (rule allI)
  fix cfg
  let ?v = "\<lparr>sv_cfg = cfg, sv_router = demo_router, sv_chain = Some demo_node\<rparr>"
    and ?es = "[Request (demo_ctx ''GET'' ''/healthz'' []), Reconcile, Chain TurnBackfill]"
  have "unat head + 5000 < 2 ^ 64" if "sv_chain ?v = Some client" "cl_BlockNumber client x = (x', Inr head)" for client x x' head
    using that by (auto simp: demo_node_def)
  from server_run_total [of ?v demo_fiber demo_ports ?es demo_chain, OF this]
  obtain s' where run: "server_run demo_fiber demo_ports ?v ?es demo_chain = Some s'" ..
  have "ledger demo_chain s'"
    by (rule server_ledger [OF demo_calm run])
  moreover have "txn_inv demo_chain"
    using demo_chain_good by (simp add: repo_good_def)
  moreover have "0 < length (tables demo_chain 0)" "row_amount (tables demo_chain 0 ! 0) = 1500"
    "row_merchant_id (tables demo_chain 0 ! 0) = ''M1''"
    by (simp_all add: demo_chain_def demo_stuck_def demo_row_def)
  ultimately have "txn_inv s' \<and> row_amount (tables s' 0 ! 0) = 1500 \<and> row_merchant_id (tables s' 0 ! 0) = ''M1''"
    by (auto simp: ledger_def rows_grow_nth row_grows_def)
  with run show "\<exists>s'. server_run demo_fiber demo_ports ?v ?es demo_chain = Some s' \<and>
      txn_inv s' \<and> row_amount (tables s' 0 ! 0) = 1500 \<and> row_merchant_id (tables s' 0 ! 0) = ''M1''"
    by blast
qed

theorem start_succeeds_witness:
  "\<exists>v. start demo_ports ''config.yaml'' () = ((), Inr v) \<and> wf_router (sv_router v) \<and> router_LogicalCount (sv_router v) = 12"
proof -
  obtain cfg where cfg: "Load (\<lambda>_. Inr demo_raw) (\<lambda>_. Inl (ErrNew ''no duration'')) ''config.yaml'' = Inr cfg"
    "app_LogicalShardCount (c_App cfg) = 12"
    using demo_Load by blast
  then have "Load (sp_yaml demo_ports) (sp_duration demo_ports) ''config.yaml'' = Inr cfg"
    by (simp add: demo_ports_def)
  from start_succeeds [OF this, of "()"] cfg(2) show ?thesis
    by (auto simp: demo_ports_def list_all_iff)
qed

text \<open>The server in fake mode with the secret \<open>whsec\<close>, and a signed delivery for the order \<open>o-1\<close>.\<close>

definition demo_server :: "Config \<Rightarrow> unit Server" where
  "demo_server cfg = \<lparr>sv_cfg = cfg\<lparr>c_App := (c_App cfg)\<lparr>app_LogicalShardCount := 4\<rparr>,
       c_Stripe := (c_Stripe cfg)\<lparr>stripe_Mode := ''fake'', stripe_WebhookSecret := ''whsec''\<rparr>\<rparr>,
     sv_router = demo_router, sv_chain = None\<rparr>"

definition demo_delivery :: Ctx where
  "demo_delivery = (demo_ctx ''POST'' ''/webhook/stripe'' [(''Stripe-Signature'', SignPayload ''{}'' ''whsec'' 1700000000)])\<lparr>cx_Body := ''{}''\<rparr>"

lemma demo_delivery_signed:
  "VerifyAndConstructEvent (\<lambda>b. Inr demo_event) ''{}'' (SignPayload ''{}'' ''whsec'' 1700000000) ''whsec'' (1700000000 * 1000000000) =
    Inr demo_event"
  using SignPayload_roundtrip [of "1700000000 * 1000000000" 1700000000 "''whsec''" "\<lambda>_. Inr demo_event" "''{}''" demo_event]
  by (simp add: unix_def)

lemma demo_chain_row:
  "txn_view demo_router demo_chain 3 (hexLower (row_transaction_id (demo_row 9 80))) = Some (row_txn 3 (demo_row 9 80))"
  using demo_chain_good
  by (intro txn_view_row [where p = 1]) (simp_all add: repo_good_def demo_router_def router_For_def demo_chain_def demo_stuck_def)

lemma demo_chain_merchant: "snd (GetByMerchantID demo_env demo_router ''M1'' demo_chain) = Inr (demo_payer ''M1'')"
  by (simp add: GetByMerchantID_def query_merchant_def scanMerchant_def demo_chain_def demo_env_def lru_get_def newLRUCache_def
      demo_payer_def demo_merchant_def)

theorem server_webhook_settles_witness:
  "\<forall>cfg. \<exists>s' resp order. serve demo_fiber (NewRouter demo_fiber (server_deps demo_ports (demo_server cfg))) demo_delivery demo_chain = (s', resp) \<and>
    rs_Status resp = 200 \<and> txn_view demo_router s' 3 (t_TransactionID order) = Some order \<and> topic s' = [(t_OrderID order, ''paid'')]"
proof (rule allI)
  fix cfg
  let ?v = "demo_server cfg"
  have v: "router_LogicalCount (sv_router ?v) = app_LogicalShardCount (c_App (sv_cfg ?v))" "sv_router ?v = demo_router"
    "stripe_WebhookSecret (c_Stripe (sv_cfg ?v)) = ''whsec''"
    by (simp_all add: demo_server_def router_LogicalCount_def demo_router_def)
  have p: "sp_env demo_ports = demo_env" "sp_kafka demo_ports n = None" "\<forall>ev. \<not> isl (sp_marshal demo_ports ev)"
    "sp_redis demo_ports = demo_limits" "sp_unmarshal demo_ports = (\<lambda>b. Inr demo_event)" "sp_clock demo_ports u = 1700000000 * 1000000000"
    "sp_decode demo_ports b = Inr demo_object" "projr (sp_marshal demo_ports ev) = ev_Status ev" for n u b ev
    by (simp_all add: demo_ports_def)
  have c: "cx_Method demo_delivery = ''POST''" "\<exists>ps. fb_match demo_fiber ''/webhook/stripe'' (cx_Path demo_delivery) = Some ps"
    "cx_Body demo_delivery = ''{}''" "cx_Header demo_delivery ''Stripe-Signature'' = SignPayload ''{}'' ''whsec'' 1700000000"
    by (simp_all add: demo_delivery_def demo_ctx_def demo_fiber_def segments_def)
  then obtain ps where ps: "fb_match demo_fiber ''/webhook/stripe'' (cx_Path demo_delivery) = Some ps"
    by blast
  have r: "rd_fault demo_limits (rd_calls demo_chain) = None" "live now (rd_db demo_chain) k = None" "topic demo_chain = []" for now k
    by (simp_all add: demo_limits_def demo_chain_def live_def)
  have stripe: "\<exists>intent. snd (st_GetPaymentIntent (stripe_client demo_ports (c_Stripe (sv_cfg ?v))) x u) = Inr intent \<and> pi_Status intent = ''succeeded''" for x u
    by (simp add: stripe_client_def demo_server_def NewBreakerClient_def breaker_wrap_def demo_ports_def NewFake_def)
  then obtain intent where intent: "snd (st_GetPaymentIntent (stripe_client demo_ports (c_Stripe (sv_cfg ?v))) (intent_of demo_object)
      (chain_store.more demo_chain)) = Inr intent" "pi_Status intent = ''succeeded''"
    by blast
  have o: "ev_Type demo_event = ''payment_intent.succeeded''" "length (intent_of demo_object) \<le> 64"
    by (simp_all add: demo_event_def intent_of_def demo_object_def)
  show "\<exists>s' resp order. serve demo_fiber (NewRouter demo_fiber (server_deps demo_ports ?v)) demo_delivery demo_chain = (s', resp) \<and>
      rs_Status resp = 200 \<and> txn_view demo_router s' 3 (t_TransactionID order) = Some order \<and> topic s' = [(t_OrderID order, ''paid'')]"
    using server_webhook_settles [of demo_delivery demo_fiber ps ?v demo_ports demo_chain, unfolded v(2,3) p c(3,4), OF c(1) ps v(1) [unfolded v(2)]
        demo_chain_good refl p(3) r(1) demo_delivery_signed r(2) refl o(1) demo_object_meta _ demo_oid o(2) intent demo_chain_merchant
        demo_payer_known, unfolded demo_shard, OF _ demo_chain_row demo_gateway_order] r(3)
    by (auto simp: confirmed_event_def)
qed

end
