(* ===== verification/Spec2Isabelle.thy ===== *)
theory Spec2Isabelle
  imports Codec Config ShardRouter TransactionRepo TtlCache MerchantRepo StripeClient PaymentService
    Redis Kafka Settlement WebhookService CheckoutResolver Reconciliation ChainListener Api Server
begin

text \<open>
  A verification development of easypay, a payment gateway in Go: merchants create payments over a
  signed HTTP API, customers pay with Stripe or on an EVM chain, webhooks and background jobs move
  transactions to their final status, and merchants are called back.

  \<^bold>\<open>The program and its model.\<close> The state is one record that grows along the theories: \<open>txn_store\<close> (the
  transaction tables of the database pools and a statement counter), \<open>merchant_store\<close> (the merchants
  and their cache), \<open>redis_store\<close>, \<open>gateway\<close> (the confirmed topic of Kafka), \<open>pod\<close> (the URL cache of a
  process), \<open>chain_store\<close> (on-chain payments and block cursors). What lies beyond, the state of Stripe
  and of the chain node, is the \<open>more\<close> part of the record. An operation is a function from a state to a
  state and a result; a Go error is a value of \<open>goerr\<close>, and \<open>errors_Is\<close> follows the wrapping. Interfaces
  of the source are records of functions over an abstract state, as services are written against
  them. Machine integers are words, or \<^typ>\<open>int\<close> with the wrap-around \<open>int64\<close> where it matters; strings
  and byte slices are \<^typ>\<open>string\<close>; times are nanoseconds.

  \<^item> \<^verbatim>\<open>Prelude\<close>, \<^verbatim>\<open>Domain\<close>: the functions of the standard library, errors; \<^verbatim>\<open>internal/domain\<close>.
  \<^item> \<^verbatim>\<open>Crypto\<close>: SHA-256 and HMAC, \<^verbatim>\<open>pkg/hmac\<close>, \<^verbatim>\<open>pkg/checkouttoken\<close>. A signature or token is accepted exactly if
    it is the one signed; lifetime of tokens.
  \<^item> \<^verbatim>\<open>Codec\<close>, \<^verbatim>\<open>Config\<close>, \<^verbatim>\<open>ShardRouter\<close>: \<^verbatim>\<open>codec.go\<close>, \<^verbatim>\<open>config.go\<close>, \<^verbatim>\<open>shard_router.go\<close>, \<^verbatim>\<open>mysql.go\<close>. Round trips (locale
    \<open>codec\<close>), the partition of logical shards over pools (locale \<open>shard_router\<close>), clean-up on failure.
  \<^item> \<^verbatim>\<open>TransactionRepo\<close>: \<^verbatim>\<open>transaction_repo.go\<close> over tables with the widths, unique key and collation of the
    migration. The invariant \<open>txn_inv\<close> holds in every reachable store (\<open>repo_reachable\<close>); the locale
    \<open>transaction_repository\<close> specifies the operations over the abstract view \<open>txn_view\<close>, and its
    interpretation \<open>txr\<close> is the refinement of that specification by the SQL statements.
  \<^item> \<^verbatim>\<open>TtlCache\<close>, \<^verbatim>\<open>MerchantRepo\<close>: the two caches (locale \<open>ttl_cache\<close>), merchant lookups and registration.
  \<^item> \<^verbatim>\<open>StripeClient\<close>: the adapter, the breaker wrapper, the fake client and webhook signatures.
  \<^item> \<^verbatim>\<open>PaymentService\<close>: \<open>payment_Create\<close>, proved in the locale \<open>payment_ports\<close> over the repository contract:
    the row it writes, idempotent retries, conflicts.
  \<^item> \<^verbatim>\<open>Redis\<close>: the scripts of the lock, the sliding-window limiter and the token bucket, for any
    interleaving of commands and lost replies.
  \<^item> \<^verbatim>\<open>Kafka\<close>, \<^verbatim>\<open>Settlement\<close>: publisher, batch consumer with dead letters, signed callbacks to merchants.
  \<^item> \<^verbatim>\<open>WebhookService\<close>: webhooks and refunds; the locale \<open>webhook_frame\<close> shows what handlers leave alone, the
    locale \<open>webhook_ports\<close> what they do.
  \<^item> \<^verbatim>\<open>CheckoutResolver\<close>, \<^verbatim>\<open>Reconciliation\<close>: the hosted checkout link and the job that asks Stripe about
    stuck orders, with its progress and its starvation.
  \<^item> \<^verbatim>\<open>OnchainRepo\<close>, \<^verbatim>\<open>Blockchain\<close>, \<^verbatim>\<open>ChainListener\<close>: the on-chain tables, the parser and the four goroutines of the
    listener; a run is any sequence of their turns (locales \<open>chain_frame\<close>, \<open>tracker_frame\<close>).
  \<^item> \<^verbatim>\<open>CheckoutPage\<close>, \<^verbatim>\<open>Api\<close>: \<^verbatim>\<open>internal/api\<close> and \<^verbatim>\<open>pkg/response\<close>: pages, handlers, middlewares and the table of
    routes. What authentication, tokens and the admin key guard, and what they do not.
  \<^item> \<^verbatim>\<open>Server\<close>: \<^verbatim>\<open>cmd/server/main.go\<close>. \<open>start\<close> is the start-up with its errors, the \<open>server_\<close> definitions are the
    wiring from the configuration, \<open>server_step\<close> the events that drive the process. The wired services
    are shown to be those of the component theories (\<open>server_services\<close>), a webhook is followed from the
    request to the row, and the locales \<open>service_frame\<close> and \<open>api_frame\<close> with the frame locales above give
    the invariant of the whole server: no run loses or rewrites a stored payment.

  \<^bold>\<open>The outside world.\<close> Code outside the repository is a parameter. \<open>db_env\<close> holds what the database
  decides: faults per statement, the collation, the rounding of time columns, the order in which
  parallel shards answer, the clock; \<open>redis_env\<close> faults, whose command may have run or not, clocks and
  fresh identifiers; further parameters are the Stripe SDK, the circuit breaker library, JSON and YAML
  decoding, go-ethereum, the path matcher of the HTTP library, and the floating-point rounding of
  Redis. Safety theorems hold for all of them; functional theorems name what they need (\<open>healthy\<close>,
  \<open>repo_good\<close>, \<open>kafka_up\<close>), and each has a witness in which it is met. A pause hands the state to the
  rest of the world; \<open>calm\<close> says that the rest of the world keeps the ledger during it.

  \<^bold>\<open>Loops.\<close> Loops over data are structural recursion. Loops that end only when the process does
  (\<open>consumer_Run\<close>, \<open>reconcile_Run\<close>, \<open>serve_logs\<close>, \<open>sub_loop\<close>, \<open>tick_loop\<close>) take the number of turns, and the
  theorems hold for every number. The scan of the backfill (\<open>scan_loop\<close>) is a partial function; it
  ends if the head leaves room for one batch of 5000 blocks below \<open>2^64\<close> (\<open>listener_total\<close>).

  \<^bold>\<open>Interleaving.\<close> Redis commands, database statements and turns of the goroutines are atomic. Theorems
  about Redis and the listener cover every interleaving of these; a request or a tick is one step of
  the server.

  \<^bold>\<open>Not modelled.\<close> \<^verbatim>\<open>pkg/logger\<close> and the metrics (\<^verbatim>\<open>middleware/metrics.go\<close>, \<^verbatim>\<open>handler/metrics.go\<close>): they write
  log lines and counters that no code reads. Signals and graceful shutdown of \<^verbatim>\<open>main.go\<close>, and the
  timeouts of contexts, which appear as faults of the calls they cut short. \<^verbatim>\<open>cmd/bench\<close>, a load generator
  that talks HTTP to a running gateway, \<^verbatim>\<open>integration_test\<close>, which starts containers, and \<^verbatim>\<open>internal/mocks\<close>,
  which is generated: none is part of the gateway.
\<close>

end
